theory Spec2Isabelle
  imports Main "HOL-Library.Word"
begin

unbundle bit_operations_syntax

section \<open>The virtual FAT12 disk of src/src/disk.c\<close>

text \<open>
  A shallow embedding of \<^verbatim>\<open>disk.c\<close>: the RAM mirror \<^verbatim>\<open>disk_buffer\<close>, the dirty page
  mask, the entry registry and the flash region are fields of one state record; every
  function of the source takes the state and returns the new one. Pointers into
  \<^verbatim>\<open>disk_buffer\<close> are byte offsets; an access that leaves the array it indexes is
  the error value \<open>Out_of_bounds\<close>.
\<close>

subsection \<open>Types and constants\<close>

type_synonym u8 = "8 word"
type_synonym u16 = "16 word"
type_synonym u32 = "32 word"
type_synonym bytes = "u8 list"

datatype error = Out_of_bounds

datatype platform = STM32F103xB | STM32F411xE

abbreviation (input) SECTOR_SIZE :: nat where "SECTOR_SIZE \<equiv> 512"
abbreviation (input) SECTOR_CNT :: nat where "SECTOR_CNT \<equiv> 4096"
abbreviation (input) FILE_ENTRY_CNT :: nat where "FILE_ENTRY_CNT \<equiv> 8"
abbreviation (input) FILE_ROW_CNT :: nat where "FILE_ROW_CNT \<equiv> 2048"
abbreviation (input) FILE_CHAR_CNT :: nat where "FILE_CHAR_CNT \<equiv> 8192"
abbreviation (input) DATA_FIRST_SECTOR :: nat where "DATA_FIRST_SECTOR \<equiv> 64"
abbreviation (input) FLASH_WRITE_DELAY_MS :: u32 where "FLASH_WRITE_DELAY_MS \<equiv> 500"
abbreviation (input) MAX_ENTRY_LABEL_LENGTH :: nat where "MAX_ENTRY_LABEL_LENGTH \<equiv> 64"
abbreviation (input) MAX_ENTRY_COMMENT_LENGTH :: nat where "MAX_ENTRY_COMMENT_LENGTH \<equiv> 64"

text \<open>\<^verbatim>\<open>sizeof(disk_buffer)\<close>, \<^verbatim>\<open>sizeof(disk_buffer_temp)\<close>, \<^verbatim>\<open>sizeof(file_buffer)\<close>,
  \<^verbatim>\<open>sizeof(page_dirty_mask)\<close>.\<close>

abbreviation (input) DISK_BUFFER_SIZE :: nat where "DISK_BUFFER_SIZE \<equiv> 16384"
abbreviation (input) DISK_BUFFER_TEMP_SIZE :: nat where "DISK_BUFFER_TEMP_SIZE \<equiv> 572"
abbreviation (input) FILE_BUFFER_SIZE :: nat where "FILE_BUFFER_SIZE \<equiv> 8192"
abbreviation (input) PAGE_DIRTY_MASK_SIZE :: nat where "PAGE_DIRTY_MASK_SIZE \<equiv> 32"

text \<open>The region pointers, as offsets into \<^verbatim>\<open>disk_buffer\<close>.\<close>

abbreviation (input) FAT1_SECTOR :: nat where "FAT1_SECTOR \<equiv> 0"
abbreviation (input) FAT2_SECTOR :: nat where "FAT2_SECTOR \<equiv> 512"
abbreviation (input) ROOT_SECTOR :: nat where "ROOT_SECTOR \<equiv> 1024"
abbreviation (input) VOLUME_BASE :: nat where "VOLUME_BASE \<equiv> 1046"
abbreviation (input) FILE_SECTOR :: nat where "FILE_SECTOR \<equiv> 1536"
abbreviation (input) FILE_SECTOR_SIZE :: nat where "FILE_SECTOR_SIZE \<equiv> 14848"

definition SECTOR_TO_CLUSTER :: "nat \<Rightarrow> nat" where
  "SECTOR_TO_CLUSTER s = s - DATA_FIRST_SECTOR + 2"

text \<open>\<^verbatim>\<open>fat_data\<close>, \<^verbatim>\<open>CONFIG_FILENAME\<close> ("CONFIG  TXT", its terminating NUL apart) and
  \<^verbatim>\<open>VOLUME\<close>.\<close>

definition fat_data :: bytes where
  "fat_data = [0xF8, 0xFF, 0xFF, 0xFF, 0xFF, 0xFF]"

definition CONFIG_FILENAME :: bytes where
  "CONFIG_FILENAME = [0x43, 0x4F, 0x4E, 0x46, 0x49, 0x47, 0x20, 0x20, 0x54, 0x58, 0x54]"

definition VOLUME :: u32 where
  "VOLUME = 0x40DD8D18"

text \<open>
  Modelled from the spec: \<^verbatim>\<open>FLASH_PAGE_SIZE\<close> comes from the vendor HAL on the F1 build
  (0x400 for the STM32F103xB, the source's "multiple 1KB pages") and from the missing
  \<^verbatim>\<open>flashpages.h\<close> on the F4 build, where the spec gives 16 KiB for large-sector devices.
\<close>

fun FLASH_PAGE_SIZE :: "platform \<Rightarrow> nat" where
  "FLASH_PAGE_SIZE STM32F103xB = 1024"
| "FLASH_PAGE_SIZE STM32F411xE = 16384"

definition BOOT_SEC :: bytes where
  "BOOT_SEC =
    [0xEB, 0x3C, 0x90,
     0x6D, 0x6B, 0x64, 0x6F, 0x73, 0x66, 0x73, 0x00,
     0x00, 0x02,
     0x01,
     0x08, 0x00,
     0x02,
     0x00, 0x02,
     0x50, 0x00,
     0xF8,
     0x0C, 0x00,
     0x01, 0x00,
     0x01, 0x00,
     0x00, 0x00, 0x00, 0x00,
     0x00, 0x00, 0x00, 0x00,
     0x00,
     0x00,
     0x29,
     0xA2, 0x98, 0xE4, 0x6C,
     0x52, 0x41, 0x4D, 0x44, 0x49, 0x53, 0x4B, 0x20, 0x20, 0x20, 0x20,
     0x46, 0x41, 0x54, 0x31, 0x32, 0x20, 0x20, 0x20]
    @ replicate 450 0"

subsection \<open>Memory helpers\<close>

text \<open>\<open>region buf off n\<close> is \<^verbatim>\<open>buf[off .. off+n-1]\<close>; \<open>memcpy_at\<close> and \<open>memset_at\<close> are
  \<^verbatim>\<open>memcpy(buf + off, src, length src)\<close> and \<^verbatim>\<open>memset(buf + off, v, n)\<close>.\<close>

definition region :: "bytes \<Rightarrow> nat \<Rightarrow> nat \<Rightarrow> bytes" where
  "region buf off n = take n (drop off buf)"

definition memcpy_at :: "bytes \<Rightarrow> nat \<Rightarrow> bytes \<Rightarrow> bytes" where
  "memcpy_at buf off src = take off buf @ src @ drop (off + length src) buf"

definition memset_at :: "bytes \<Rightarrow> nat \<Rightarrow> u8 \<Rightarrow> nat \<Rightarrow> bytes" where
  "memset_at buf off v n = take off buf @ replicate n v @ drop (off + n) buf"

text \<open>Little-endian readers of a 16-bit and a 32-bit field.\<close>

definition le16 :: "bytes \<Rightarrow> nat \<Rightarrow> nat" where
  "le16 buf off = unat (buf ! off) + 256 * unat (buf ! (off + 1))"

definition le32 :: "bytes \<Rightarrow> nat \<Rightarrow> nat" where
  "le32 buf off = unat (buf ! off) + 256 * unat (buf ! (off + 1))
     + 65536 * unat (buf ! (off + 2)) + 16777216 * unat (buf ! (off + 3))"

definition Upper :: "bytes \<Rightarrow> bytes" where
  "Upper str = map (\<lambda>c. if 0x61 \<le> c \<and> c \<le> 0x7A then c - 32 else c) str"

subsection \<open>The registry and the device state\<close>

text \<open>
  A \<^verbatim>\<open>FILE_ENTRY\<close>: the label and the comment are the C strings held in the two
  64-byte arrays (the bytes before the first NUL); a callback is \<open>None\<close> when the
  pointer is NULL. The callbacks belong to the application: \<open>'a\<close> is the application's
  own state, which \<open>update\<close> changes and \<open>print\<close> reads; \<open>print\<close> returns the string it
  stores in the buffer it is given.
\<close>

record 'a FILE_ENTRY =
  entry :: bytes
  comment :: bytes
  default_value :: "bytes option"
  validate :: "(bytes \<Rightarrow> 'a \<Rightarrow> bool) option"
  update :: "(bytes \<Rightarrow> 'a \<Rightarrow> 'a) option"
  print :: "('a \<Rightarrow> nat \<Rightarrow> bytes) option"

record 'a disk_state =
  disk_buffer :: bytes
  disk_buffer_temp :: bytes
  page_dirty_mask :: bytes
  entry_usage_mask :: u32
  entries :: "'a FILE_ENTRY list"
  last_write_tick :: u32
  pending_flash_write :: bool
  Config_flag :: u16
  txt_flag :: u8
  flash :: bytes
  app :: 'a

definition empty_entry :: "'a FILE_ENTRY" where
  "empty_entry = \<lparr>entry = [], comment = [], default_value = None,
     validate = None, update = None, print = None\<rparr>"

text \<open>The state at reset: every static of the source is zero; the flash region and the
  application's state are what they are.\<close>

definition power_on :: "bytes \<Rightarrow> 'a \<Rightarrow> 'a disk_state" where
  "power_on fl a = \<lparr>disk_buffer = replicate DISK_BUFFER_SIZE 0,
     disk_buffer_temp = replicate DISK_BUFFER_TEMP_SIZE 0,
     page_dirty_mask = replicate PAGE_DIRTY_MASK_SIZE 0,
     entry_usage_mask = 0,
     entries = replicate FILE_ENTRY_CNT empty_entry,
     last_write_tick = 0,
     pending_flash_write = False,
     Config_flag = 0,
     txt_flag = 0,
     flash = fl,
     app = a\<rparr>"

subsection \<open>FAT12 maintenance\<close>

text \<open>\<^verbatim>\<open>set_fat12_entry(fat, cluster, value)\<close>, \<open>fat\<close> an offset into the buffer. The two
  stores must lie inside the buffer.\<close>

definition set_fat12_entry :: "bytes \<Rightarrow> nat \<Rightarrow> u16 \<Rightarrow> u16 \<Rightarrow> error + bytes" where
  "set_fat12_entry buf fat cluster val =
    (let offset = fat + (unat cluster + unat cluster div 2) in
     if length buf \<le> offset + 1 then Inl Out_of_bounds
     else if cluster AND 1 \<noteq> 0 then
       Inr (buf[offset := (buf ! offset AND 0x0F) OR ucast (push_bit 4 (val AND 0x0F)),
                offset + 1 := ucast (drop_bit 4 val AND 0xFF)])
     else
       Inr (buf[offset := ucast (val AND 0xFF),
                offset + 1 := (buf ! (offset + 1) AND 0xF0) OR ucast (drop_bit 8 val AND 0x0F)]))"

text \<open>The chaining loop of \<^verbatim>\<open>update_fat_chain\<close>, from \<open>i\<close> up to \<open>clusters_needed\<close>.\<close>

function fat_chain_loop :: "nat \<Rightarrow> nat \<Rightarrow> bytes \<Rightarrow> error + bytes" where
  "fat_chain_loop i clusters_needed buf =
    (if i < clusters_needed then
       (let cluster = (of_nat (2 + i) :: u16);
            next = (if i = clusters_needed - 1 then 0xFFF else cluster + 1)
        in case set_fat12_entry buf FAT1_SECTOR cluster next of
             Inl e \<Rightarrow> Inl e
           | Inr buf' \<Rightarrow> fat_chain_loop (Suc i) clusters_needed buf')
     else Inr buf)"
  by pat_completeness auto
termination
  by (relation "measure (\<lambda>(i, n, buf). n - i)") auto

declare fat_chain_loop.simps [simp del]

definition clusters_for :: "u32 \<Rightarrow> nat" where
  "clusters_for file_size =
    (let clusters_needed = unat ((file_size + 511) div 512)
     in if clusters_needed = 0 then 1 else clusters_needed)"

definition update_fat_chain :: "u32 \<Rightarrow> bytes \<Rightarrow> error + bytes" where
  "update_fat_chain file_size buf =
    (case fat_chain_loop 0 (clusters_for file_size)
            (memset_at buf (FAT1_SECTOR + 3) 0 (SECTOR_SIZE - 3)) of
       Inl e \<Rightarrow> Inl e
     | Inr buf' \<Rightarrow> Inr (memcpy_at buf' FAT2_SECTOR (region buf' FAT1_SECTOR SECTOR_SIZE)))"

text \<open>The reader of a packed 12-bit entry, as section 3 of the specification gives it
  (the source only writes entries): the vocabulary in which the chain is stated.\<close>

definition fat12_entry :: "bytes \<Rightarrow> nat \<Rightarrow> nat \<Rightarrow> u16" where
  "fat12_entry buf fat c =
    (let o1 = fat + (c + c div 2) in
     if even c then ucast (buf ! o1) OR push_bit 8 (ucast (buf ! (o1 + 1) AND 0x0F))
     else ucast (drop_bit 4 (buf ! o1)) OR push_bit 4 (ucast (buf ! (o1 + 1))))"

subsection \<open>Reading a sector\<close>

text \<open>\<^verbatim>\<open>read_sector(pbuffer, disk_addr)\<close>: the 512 bytes stored in \<^verbatim>\<open>pbuffer\<close>, and the
  state, which no branch writes.\<close>

definition read_sector :: "'a disk_state \<Rightarrow> nat \<Rightarrow> bytes \<times> 'a disk_state" where
  "read_sector st disk_addr =
    (if disk_addr = 0 then (BOOT_SEC, st)
     else if 1 \<le> disk_addr \<and> disk_addr \<le> 7 then (replicate SECTOR_SIZE 0, st)
     else if 8 \<le> disk_addr \<and> disk_addr \<le> 19 then
       (if disk_addr = 8 then (region (disk_buffer st) FAT1_SECTOR SECTOR_SIZE, st)
        else (replicate SECTOR_SIZE 0, st))
     else if 20 \<le> disk_addr \<and> disk_addr \<le> 31 then
       (if disk_addr = 20 then (region (disk_buffer st) FAT2_SECTOR SECTOR_SIZE, st)
        else (replicate SECTOR_SIZE 0, st))
     else if 32 \<le> disk_addr \<and> disk_addr \<le> 63 then
       (if disk_addr = 32 then (region (disk_buffer st) ROOT_SECTOR SECTOR_SIZE, st)
        else (replicate SECTOR_SIZE 0, st))
     else if 64 \<le> disk_addr \<and> disk_addr < SECTOR_CNT then
       (let data_offset = (disk_addr - 64) * SECTOR_SIZE in
        if data_offset + SECTOR_SIZE \<le> FILE_SECTOR_SIZE
        then (region (disk_buffer st) (FILE_SECTOR + data_offset) SECTOR_SIZE, st)
        else (replicate SECTOR_SIZE 0, st))
     else (replicate SECTOR_SIZE 0, st))"

subsection \<open>Directory scanning and label tests\<close>

definition dir_name :: "bytes \<Rightarrow> nat \<Rightarrow> bytes" where
  "dir_name buf i = region buf (ROOT_SECTOR + i * 32) 11"

text \<open>The 16-bit little-endian value \<^verbatim>\<open>buf[off] | (buf[off + 1] << 8)\<close>.\<close>

definition word16_at :: "bytes \<Rightarrow> nat \<Rightarrow> u16" where
  "word16_at buf off = ucast (buf ! off) OR push_bit 8 (ucast (buf ! (off + 1)))"

definition get_config_start_cluster :: "bytes \<Rightarrow> u16" where
  "get_config_start_cluster buf =
    (case find (\<lambda>i. Upper (dir_name buf i) = CONFIG_FILENAME) [0..<16] of
       Some i \<Rightarrow> word16_at buf (ROOT_SECTOR + i * 32 + 0x1A)
     | None \<Rightarrow> 0)"

text \<open>
  \<^verbatim>\<open>memcmp(buf + p, label, strlen(label)) == 0 && buf[p + strlen(label)] == '='\<close>.
  A label has at most 63 bytes (\<^verbatim>\<open>char entry[64]\<close>), so on \<^verbatim>\<open>FILE_SECTOR\<close> and on a
  512-byte sector the test stays inside the array; \<open>label_at_checked\<close> is the same test
  on a pointer the directory supplied, which may leave \<^verbatim>\<open>disk_buffer\<close>.
\<close>

definition label_at :: "bytes \<Rightarrow> nat \<Rightarrow> bytes \<Rightarrow> bool" where
  "label_at buf p lbl =
    (region buf p (length lbl) = lbl \<and> p + length lbl < length buf \<and> buf ! (p + length lbl) = 0x3D)"

definition looks_like_config :: "'a FILE_ENTRY list \<Rightarrow> bytes \<Rightarrow> nat \<Rightarrow> bool" where
  "looks_like_config ents buf p =
    list_ex (\<lambda>e. entry e \<noteq> [] \<and> label_at buf p (entry e)) (take FILE_ENTRY_CNT ents)"

definition label_at_checked :: "bytes \<Rightarrow> nat \<Rightarrow> bytes \<Rightarrow> error + bool" where
  "label_at_checked buf p lbl =
    (if length buf < p + length lbl then Inl Out_of_bounds
     else if region buf p (length lbl) = lbl then
       (if p + length lbl < length buf then Inr (buf ! (p + length lbl) = 0x3D)
        else Inl Out_of_bounds)
     else Inr False)"

fun any_label_checked :: "'a FILE_ENTRY list \<Rightarrow> bytes \<Rightarrow> nat \<Rightarrow> error + bool" where
  "any_label_checked [] buf p = Inr False"
| "any_label_checked (e # es) buf p =
    (if entry e \<noteq> [] then
       (case label_at_checked buf p (entry e) of
          Inl x \<Rightarrow> Inl x
        | Inr found \<Rightarrow> if found then Inr True else any_label_checked es buf p)
     else any_label_checked es buf p)"

subsection \<open>The file codec: \<^verbatim>\<open>validate_file\<close>\<close>

text \<open>
  The rows of \<^verbatim>\<open>parse_buffer\<close> are kept as C strings (the bytes before the first NUL of
  each 2048-byte row). One line of the file is scanned from index \<open>i\<close>: the result is
  the index where the scan stopped, \<^verbatim>\<open>line_ending_len\<close> and the row. At the last byte
  of \<^verbatim>\<open>file_buffer\<close> the test for CR LF reads \<^verbatim>\<open>file_buffer[i + 1]\<close> past the array.
\<close>

function scan_line :: "bytes \<Rightarrow> nat \<Rightarrow> bytes \<Rightarrow> error + (nat \<times> nat \<times> bytes)" where
  "scan_line fb i row =
    (if i < FILE_BUFFER_SIZE \<and> fb ! i \<noteq> 0 then
       (if fb ! i = 0x0D \<and> FILE_BUFFER_SIZE \<le> i + 1 then Inl Out_of_bounds
        else if fb ! i = 0x0D \<and> fb ! (i + 1) = 0x0A then Inr (i, 2, row)
        else if fb ! i = 0x0A then Inr (i, 1, row)
        else scan_line fb (Suc i)
               (if length row < FILE_ROW_CNT - 1 then row @ [fb ! i] else row))
     else Inr (i, 1, row))"
  by pat_completeness auto
termination
  by (relation "measure (\<lambda>(fb, i, row). FILE_BUFFER_SIZE - i)") auto

declare scan_line.simps [simp del]

function parse_lines :: "bytes \<Rightarrow> nat \<Rightarrow> nat \<Rightarrow> bytes list \<Rightarrow> error + bytes list" where
  "parse_lines fb line_idx m rows =
    (if line_idx < FILE_ENTRY_CNT then
       (case scan_line fb m [] of
          Inl e \<Rightarrow> Inl e
        | Inr (i, line_ending_len, row) \<Rightarrow>
            (if FILE_BUFFER_SIZE \<le> i \<or> fb ! i = 0 then Inr (rows[line_idx := row])
             else parse_lines fb (Suc line_idx) (i + line_ending_len) (rows[line_idx := row])))
     else Inr rows)"
  by pat_completeness auto
termination
  by (relation "measure (\<lambda>(fb, line_idx, m, rows). FILE_ENTRY_CNT - line_idx)") auto

declare parse_lines.simps [simp del]

text \<open>\<^verbatim>\<open>find_comment_start\<close>: the index of the first TAB that a \<^verbatim>\<open>#\<close> follows.\<close>

fun find_comment_start :: "bytes \<Rightarrow> nat option" where
  "find_comment_start [] = None"
| "find_comment_start [c] = None"
| "find_comment_start (c # d # cs) =
    (if c = 0x09 \<and> d = 0x23 then Some 0
     else map_option Suc (find_comment_start (d # cs)))"

text \<open>The string a \<^verbatim>\<open>snprintf\<close> or a \<open>print\<close> callback leaves in a buffer of \<open>n\<close> bytes.\<close>

definition cstring :: "nat \<Rightarrow> bytes \<Rightarrow> bytes" where
  "cstring n bs = take (n - 1) (takeWhile (\<lambda>c. c \<noteq> 0) bs)"

definition default_of :: "'a FILE_ENTRY \<Rightarrow> bytes" where
  "default_of e = (case default_value e of None \<Rightarrow> [] | Some d \<Rightarrow> d)"

definition default_line :: "'a FILE_ENTRY \<Rightarrow> bytes" where
  "default_line e = cstring FILE_ROW_CNT (entry e @ [0x3D] @ default_of e)"

definition line_matches :: "bytes \<Rightarrow> bytes \<Rightarrow> bool" where
  "line_matches lbl row =
    (row \<noteq> [] \<and> take (length lbl) row = lbl \<and> length lbl < length row \<and> row ! length lbl = 0x3D)"

definition extract_value :: "bytes \<Rightarrow> nat \<Rightarrow> bytes" where
  "extract_value row entry_len =
    (let value_start = drop (entry_len + 1) row;
         value_len = (case find_comment_start value_start of
                        Some p \<Rightarrow> p
                      | None \<Rightarrow> length value_start)
     in take (min value_len (FILE_ROW_CNT - 1)) value_start)"

text \<open>One round of the loop over the registered entries: entry \<open>k\<close> is looked up in the
  rows, validated, applied and rendered into row \<open>k\<close>.\<close>

definition resolve_entry ::
  "'a FILE_ENTRY \<Rightarrow> nat \<Rightarrow> bytes list \<times> 'a \<times> bool \<Rightarrow> bytes list \<times> 'a \<times> bool" where
  "resolve_entry e k s =
    (case s of (rows, a, illegal) \<Rightarrow>
      if entry e = [] then s
      else
        (case find (line_matches (entry e)) (take FILE_ENTRY_CNT rows) of
           Some row \<Rightarrow>
             (let v = extract_value row (length (entry e)) in
              if (case validate e of None \<Rightarrow> True | Some f \<Rightarrow> f v a) then
                (let a' = (case update e of None \<Rightarrow> a | Some u \<Rightarrow> u v a);
                     rows' = (case print e of
                                None \<Rightarrow> rows
                              | Some pr \<Rightarrow> rows[k := cstring FILE_ROW_CNT (pr a' FILE_ROW_CNT)])
                 in (rows', a', illegal))
              else (rows[k := default_line e], a, True))
         | None \<Rightarrow>
             (rows[k := default_line e],
              (case update e of
                 None \<Rightarrow> a
               | Some u \<Rightarrow> (case default_value e of None \<Rightarrow> a | Some d \<Rightarrow> u d a)),
              True)))"

fun resolve_entries ::
  "'a FILE_ENTRY list \<Rightarrow> nat \<Rightarrow> bytes list \<times> 'a \<times> bool \<Rightarrow> bytes list \<times> 'a \<times> bool" where
  "resolve_entries [] k s = s"
| "resolve_entries (e # es) k s = resolve_entries es (Suc k) (resolve_entry e k s)"

text \<open>The rebuilding loop: \<open>content\<close> is \<^verbatim>\<open>file_content_buffer[0 .. m-1]\<close>.\<close>

fun rebuild_file :: "'a FILE_ENTRY list \<Rightarrow> bytes list \<Rightarrow> nat \<Rightarrow> bytes \<Rightarrow> bytes" where
  "rebuild_file [] rows k content = content"
| "rebuild_file (e # es) rows k content =
    (if entry e = [] then rebuild_file es rows (Suc k) content
     else if length content + length (rows ! k) + length (comment e) < FILE_CHAR_CNT - 1
       then rebuild_file es rows (Suc k) (content @ rows ! k @ comment e)
       else rebuild_file es rows (Suc k) content)"

text \<open>The choice of \<^verbatim>\<open>read_source\<close>; the third branch reloads the file region from
  flash first, so the buffer is returned too.\<close>

definition select_source :: "'a disk_state \<Rightarrow> nat \<Rightarrow> error + (nat \<times> bytes)" where
  "select_source st p_file =
    (let buf = disk_buffer st;
         ents = take FILE_ENTRY_CNT (entries st);
         file_sector_valid = looks_like_config ents buf FILE_SECTOR
     in case (if p_file \<noteq> FILE_SECTOR then any_label_checked ents buf p_file else Inr False) of
          Inl e \<Rightarrow> Inl e
        | Inr p_file_valid \<Rightarrow>
            if p_file_valid then Inr (p_file, buf)
            else if file_sector_valid then Inr (FILE_SECTOR, buf)
            else
              (let buf' = memcpy_at buf FILE_SECTOR (region (flash st) FILE_SECTOR FILE_SECTOR_SIZE)
               in if looks_like_config ents buf' FILE_SECTOR then Inr (FILE_SECTOR, buf')
                  else Inr (p_file, buf')))"

text \<open>Steps 1 to 4 of \<^verbatim>\<open>validate_file\<close>: the buffer after source selection, the rendered
  rows, the application's state and the \<^verbatim>\<open>illegal\<close> flag.\<close>

definition render_lines :: "'a disk_state \<Rightarrow> nat \<Rightarrow> error + (bytes \<times> bytes list \<times> 'a \<times> bool)" where
  "render_lines st p_file =
    (case select_source st p_file of
       Inl e \<Rightarrow> Inl e
     | Inr (read_source, buf1) \<Rightarrow>
         if length buf1 < read_source + FILE_BUFFER_SIZE then Inl Out_of_bounds
         else
           (case parse_lines (region buf1 read_source FILE_BUFFER_SIZE) 0 0
                   (replicate FILE_ENTRY_CNT []) of
              Inl e \<Rightarrow> Inl e
            | Inr rows \<Rightarrow>
                Inr (buf1, resolve_entries (take FILE_ENTRY_CNT (entries st)) 0
                             (rows, app st, False))))"

text \<open>The directory entry's size and starting-cluster stores.\<close>

definition set_dir_entry :: "bytes \<Rightarrow> nat \<Rightarrow> u32 \<Rightarrow> bytes" where
  "set_dir_entry buf dir_entry m =
    buf[dir_entry + 0x1C := ucast (m AND 0xFF),
        dir_entry + 0x1D := ucast (drop_bit 8 m AND 0xFF),
        dir_entry + 0x1E := ucast (drop_bit 16 m AND 0xFF),
        dir_entry + 0x1F := ucast (drop_bit 24 m AND 0xFF),
        dir_entry + 0x1A := 0x02,
        dir_entry + 0x1B := 0x00]"

definition validate_file :: "'a disk_state \<Rightarrow> nat \<Rightarrow> nat \<Rightarrow> error + ('a disk_state \<times> bool)" where
  "validate_file st p_file root_addr =
    (case render_lines st p_file of
       Inl e \<Rightarrow> Inl e
     | Inr (buf1, rows, a, illegal) \<Rightarrow>
         (let content = rebuild_file (take FILE_ENTRY_CNT (entries st)) rows 0 [];
              m = length content;
              dir_entry = ROOT_SECTOR + root_addr * 32
          in if length buf1 \<le> dir_entry + 0x1F then Inl Out_of_bounds
             else
               (case update_fat_chain (of_nat m) (set_dir_entry buf1 dir_entry (of_nat m)) of
                  Inl e \<Rightarrow> Inl e
                | Inr buf3 \<Rightarrow>
                    (let buf4 = memcpy_at buf3 FILE_SECTOR content;
                         buf5 = (if m < FILE_SECTOR_SIZE
                                 then memset_at buf4 (FILE_SECTOR + m) 0 (FILE_SECTOR_SIZE - m)
                                 else buf4)
                     in Inr (st\<lparr>disk_buffer := buf5,
                                 page_dirty_mask := (page_dirty_mask st)[0 := 1, 1 := 1],
                                 app := a\<rparr>, illegal)))))"

text \<open>\<^verbatim>\<open>find_file\<close>: the pointer \<^verbatim>\<open>FILE_SECTOR + (sector - 2) * SECTOR_SIZE\<close> as an offset
  into \<^verbatim>\<open>disk_buffer\<close>, the low 16 bits of the size, and the index of the entry.\<close>

definition find_file :: "bytes \<Rightarrow> bytes \<Rightarrow> (nat \<times> u16 \<times> nat) option" where
  "find_file buf pfilename =
    (case find (\<lambda>n. Upper (dir_name buf n) = pfilename) [0..<16] of
       None \<Rightarrow> None
     | Some n \<Rightarrow>
         (let pdiraddr = ROOT_SECTOR + n * 32;
              pfilelen = word16_at buf (pdiraddr + 0x1C);
              sector = word16_at buf (pdiraddr + 0x1A)
          in Some (nat (int FILE_SECTOR + (int (unat sector) - 2) * int SECTOR_SIZE), pfilelen, n)))"

text \<open>The bootstrap loop of \<^verbatim>\<open>flush_file\<close>: \<^verbatim>\<open>snprintf(FILE_SECTOR + m, FILE_SECTOR_SIZE - m,
  "%s=%s%s", ...)\<close> returns the full length of the line, and its size argument wraps
  once \<open>m\<close> has passed the region.\<close>

fun write_defaults :: "'a FILE_ENTRY list \<Rightarrow> nat \<Rightarrow> bytes \<Rightarrow> error + (nat \<times> bytes)" where
  "write_defaults [] m buf = Inr (m, buf)"
| "write_defaults (e # es) m buf =
    (if entry e = [] then write_defaults es m buf
     else
       (let line = entry e @ [0x3D] @ default_of e @ comment e in
        if FILE_SECTOR_SIZE < m then Inl Out_of_bounds
        else if m = FILE_SECTOR_SIZE then write_defaults es (m + length line) buf
        else write_defaults es (m + length line)
               (memcpy_at buf (FILE_SECTOR + m) (take (FILE_SECTOR_SIZE - m - 1) line @ [0]))))"

definition word32_bytes :: "u32 \<Rightarrow> bytes" where
  "word32_bytes w = [ucast (w AND 0xFF), ucast (drop_bit 8 w AND 0xFF),
     ucast (drop_bit 16 w AND 0xFF), ucast (drop_bit 24 w AND 0xFF)]"

definition flush_file :: "'a disk_state \<Rightarrow> u32 \<Rightarrow> error + 'a disk_state" where
  "flush_file st now =
    (case find_file (disk_buffer st) CONFIG_FILENAME of
       Some (p_file, file_len, root_addr) \<Rightarrow>
         (case validate_file st p_file root_addr of
            Inl e \<Rightarrow> Inl e
          | Inr (st', illegal) \<Rightarrow>
              Inr (if illegal then st'\<lparr>pending_flash_write := True, last_write_tick := now\<rparr>
                   else st'))
     | None \<Rightarrow>
         (let buf1 = memcpy_at (replicate DISK_BUFFER_SIZE 0) ROOT_SECTOR (CONFIG_FILENAME @ [0]);
              buf2 = memcpy_at buf1 FAT1_SECTOR fat_data;
              buf3 = memcpy_at buf2 FAT2_SECTOR fat_data
          in case write_defaults (take FILE_ENTRY_CNT (entries st)) 0 buf3 of
               Inl e \<Rightarrow> Inl e
             | Inr (m, buf4) \<Rightarrow>
                 (let buf5 = memcpy_at (buf4[0x40B := 0]) VOLUME_BASE (word32_bytes VOLUME);
                      buf6 = memcpy_at (buf5[0x41A := 0x02]) 0x41C (word32_bytes (of_nat m))
                  in case update_fat_chain (of_nat m) buf6 of
                       Inl e \<Rightarrow> Inl e
                     | Inr buf7 \<Rightarrow>
                         Inr (st\<lparr>disk_buffer := buf7,
                                 pending_flash_write := True,
                                 last_write_tick := now,
                                 page_dirty_mask := replicate PAGE_DIRTY_MASK_SIZE 1\<rparr>))))"

subsection \<open>Writing sectors\<close>

text \<open>Sectors 8 and 20: the FAT mirrors.\<close>

definition write_fat_sector :: "'a disk_state \<Rightarrow> nat \<Rightarrow> bytes \<Rightarrow> 'a disk_state" where
  "write_fat_sector st fat sector_data =
    (if sector_data \<noteq> region (disk_buffer st) fat SECTOR_SIZE
     then st\<lparr>disk_buffer := memcpy_at (disk_buffer st) fat sector_data,
             page_dirty_mask := (page_dirty_mask st)[0 := 1]\<rparr>
     else st)"

text \<open>Sector 32: the root directory. The scan compares the name as it stands (no
  \<^verbatim>\<open>Upper\<close>); \<^verbatim>\<open>config_filesize\<close> is a \<^verbatim>\<open>u8\<close> that receives a 16-bit value.\<close>

definition scanned_filesize :: "bytes \<Rightarrow> nat \<Rightarrow> u8" where
  "scanned_filesize buf e =
    ucast ((ucast (buf ! (e + 0x1C)) :: u32) OR push_bit 8 (ucast (buf ! (e + 0x1D))))"

definition write_root_sector :: "'a disk_state \<Rightarrow> bytes \<Rightarrow> 'a disk_state" where
  "write_root_sector st sector_data =
    (if sector_data \<noteq> region (disk_buffer st) ROOT_SECTOR SECTOR_SIZE then
       (let buf = memcpy_at (disk_buffer st) ROOT_SECTOR sector_data;
            dirty = (page_dirty_mask st)[1 := 1];
            hit = find (\<lambda>i. region buf (ROOT_SECTOR + i * 32) 11 = CONFIG_FILENAME) [0..<16];
            config_flag = (case hit of
                             None \<Rightarrow> Config_flag st
                           | Some i \<Rightarrow> ucast (buf ! (ROOT_SECTOR + i * 32 + 0x1A)));
            config_filesize = (case hit of
                                 None \<Rightarrow> 0
                               | Some i \<Rightarrow> scanned_filesize buf (ROOT_SECTOR + i * 32));
            txt = (case hit of None \<Rightarrow> txt_flag st | Some i \<Rightarrow> 1)
        in if config_filesize = 0 \<and> txt = 1
           then st\<lparr>disk_buffer := buf, Config_flag := config_flag, txt_flag := 0,
                   page_dirty_mask := dirty[1 := 0, 0 := 0]\<rparr>
           else st\<lparr>disk_buffer := buf, Config_flag := config_flag, txt_flag := txt,
                   page_dirty_mask := dirty[0 := 1]\<rparr>)
     else st)"

text \<open>Sectors 64 and up: the gatekeeper. \<open>data_sector_rejected\<close> is true on the two
  \<^verbatim>\<open>continue\<close> paths of the protection block.\<close>

definition is_dot_file :: "bytes \<Rightarrow> bool" where
  "is_dot_file sector_data =
    (sector_data ! 0 = 0x00 \<or> sector_data ! 0 = 0x05 \<or>
     (sector_data ! 0 = 0x2E \<and> sector_data ! 1 \<noteq> 0x00))"

definition data_sector_rejected :: "'a disk_state \<Rightarrow> nat \<Rightarrow> bytes \<Rightarrow> bool" where
  "data_sector_rejected st sector sector_data =
    (let write_cluster = (of_nat (SECTOR_TO_CLUSTER sector) :: u16);
         config_cluster = get_config_start_cluster (disk_buffer st);
         file_sector_has_config =
           looks_like_config (entries st) (disk_buffer st) FILE_SECTOR
     in if config_cluster > 0 \<and> write_cluster = config_cluster then False
        else if write_cluster = 2 then \<not> looks_like_config (entries st) sector_data 0
        else if write_cluster > 2 \<and> unat write_cluster \<le> 2 + FILE_SECTOR_SIZE div SECTOR_SIZE
                \<and> file_sector_has_config
          then is_dot_file sector_data
        else False)"

definition write_data_sector ::
  "platform \<Rightarrow> 'a disk_state \<Rightarrow> nat \<Rightarrow> bytes \<Rightarrow> 'a disk_state" where
  "write_data_sector plat st sector sector_data =
    (let data_offset = (sector - 64) * SECTOR_SIZE in
     if data_sector_rejected st sector sector_data then st
     else if sector_data \<noteq> region (disk_buffer st) (FILE_SECTOR + data_offset) SECTOR_SIZE
       then st\<lparr>disk_buffer := memcpy_at (disk_buffer st) (FILE_SECTOR + data_offset) sector_data,
               page_dirty_mask :=
                 (page_dirty_mask st)[data_offset div FLASH_PAGE_SIZE plat + 1 := 1]\<rparr>
       else st)"

text \<open>
  One round of the loop over the sectors of a call: sector \<open>s\<close> of the call lies at
  \<^verbatim>\<open>pdisk_buffer_temp + s * SECTOR_SIZE\<close>, and \<^verbatim>\<open>disk_buffer_temp\<close> has 572 bytes, so only
  the first sector of a call can be read from it.
\<close>

definition sector_data_of :: "'a disk_state \<Rightarrow> nat \<Rightarrow> error + bytes" where
  "sector_data_of st s =
    (if s * SECTOR_SIZE + SECTOR_SIZE \<le> DISK_BUFFER_TEMP_SIZE
     then Inr (region (disk_buffer_temp st) (s * SECTOR_SIZE) SECTOR_SIZE)
     else Inl Out_of_bounds)"

definition with_sector_data ::
  "'a disk_state \<Rightarrow> nat \<Rightarrow> (bytes \<Rightarrow> 'a disk_state) \<Rightarrow> error + 'a disk_state" where
  "with_sector_data st s f =
    (case sector_data_of st s of Inl e \<Rightarrow> Inl e | Inr sector_data \<Rightarrow> Inr (f sector_data))"

definition write_one_sector ::
  "platform \<Rightarrow> 'a disk_state \<Rightarrow> nat \<Rightarrow> nat \<Rightarrow> error + 'a disk_state" where
  "write_one_sector plat st sector s =
    (if 8 \<le> sector \<and> sector \<le> 19 then
       (if sector = 8 then with_sector_data st s (write_fat_sector st FAT1_SECTOR) else Inr st)
     else if 20 \<le> sector \<and> sector \<le> 31 then
       (if sector = 20 then with_sector_data st s (write_fat_sector st FAT2_SECTOR) else Inr st)
     else if 32 \<le> sector \<and> sector \<le> 63 then
       (if sector = 32 then with_sector_data st s (write_root_sector st) else Inr st)
     else if 64 \<le> sector \<and> sector < SECTOR_CNT then
       (if (sector - 64) * SECTOR_SIZE + SECTOR_SIZE > FILE_SECTOR_SIZE then Inr st
        else with_sector_data st s (write_data_sector plat st sector))
     else Inr st)"

function write_sector_loop ::
  "platform \<Rightarrow> 'a disk_state \<Rightarrow> nat \<Rightarrow> nat \<Rightarrow> nat \<Rightarrow> error + 'a disk_state" where
  "write_sector_loop plat st diskaddr len s =
    (if s < len then
       (case write_one_sector plat st ((diskaddr + s) mod 2 ^ 32) s of
          Inl e \<Rightarrow> Inl e
        | Inr st' \<Rightarrow> write_sector_loop plat st' diskaddr len (Suc s))
     else Inr st)"
  by pat_completeness auto
termination
  by (relation "measure (\<lambda>(plat, st, diskaddr, len, s). len - s)") auto

declare write_sector_loop.simps [simp del]

text \<open>\<^verbatim>\<open>write_sector(buff, diskaddr, length)\<close> at tick \<open>now\<close>. The copy loop stores
  \<^verbatim>\<open>length * SECTOR_SIZE\<close> bytes (a 32-bit product) into \<^verbatim>\<open>disk_buffer_temp\<close>.\<close>

definition write_sector ::
  "platform \<Rightarrow> 'a disk_state \<Rightarrow> bytes \<Rightarrow> nat \<Rightarrow> nat \<Rightarrow> u32 \<Rightarrow> error + 'a disk_state" where
  "write_sector plat st buff diskaddr len now =
    (let n = (len * SECTOR_SIZE) mod 2 ^ 32 in
     if DISK_BUFFER_TEMP_SIZE < n \<or> length buff < n then Inl Out_of_bounds
     else
       (case write_sector_loop plat
               (st\<lparr>disk_buffer_temp := memcpy_at (disk_buffer_temp st) 0 (take n buff)\<rparr>)
               diskaddr len 0 of
          Inl e \<Rightarrow> Inl e
        | Inr st' \<Rightarrow> Inr (st'\<lparr>pending_flash_write := True, last_write_tick := now\<rparr>)))"

subsection \<open>Flash\<close>

text \<open>
  The vendor HAL is outside the repository: \<open>erase_ok\<close> and \<open>program_ok\<close> say, for the
  offset of an address from \<^verbatim>\<open>APP_BASE\<close>, whether \<^verbatim>\<open>HAL_FLASHEx_Erase\<close> and
  \<^verbatim>\<open>HAL_FLASH_Program\<close> return \<^verbatim>\<open>HAL_OK\<close> there. A successful erase leaves 0xFF in the
  erase unit, a successful program stores the halfword, a failed operation leaves the
  flash as it was. The erase unit is one page of \<^verbatim>\<open>FLASH_PAGE_SIZE\<close> bytes on the F1 and
  the whole 16 KiB region on the F4.
\<close>

record hal =
  erase_ok :: "nat \<Rightarrow> bool"
  program_ok :: "nat \<Rightarrow> bool"

definition erase_flash_page :: "hal \<Rightarrow> bytes \<Rightarrow> nat \<Rightarrow> nat \<Rightarrow> bytes" where
  "erase_flash_page h fl address unit_size =
    (if erase_ok h address then memset_at fl address 0xFF unit_size else fl)"

definition write_flash_halfword :: "hal \<Rightarrow> bytes \<Rightarrow> nat \<Rightarrow> u8 \<Rightarrow> u8 \<Rightarrow> bytes" where
  "write_flash_halfword h fl address lo hi =
    (if program_ok h address then fl[address := lo, address + 1 := hi] else fl)"

text \<open>The programming loop: halfword \<open>j\<close> of the \<open>nbytes\<close> bytes at \<open>base\<close>.\<close>

function program_loop :: "hal \<Rightarrow> bytes \<Rightarrow> nat \<Rightarrow> nat \<Rightarrow> nat \<Rightarrow> bytes \<Rightarrow> bytes" where
  "program_loop h buf base nbytes j fl =
    (if j < nbytes then
       program_loop h buf base nbytes (j + 2)
         (write_flash_halfword h fl (base + j) (buf ! (base + j)) (buf ! (base + j + 1)))
     else fl)"
  by pat_completeness auto
termination
  by (relation "measure (\<lambda>(h, buf, base, nbytes, j, fl). nbytes - j)") auto

declare program_loop.simps [simp del]

definition first_dirty :: "bytes \<Rightarrow> nat \<Rightarrow> nat option" where
  "first_dirty dirty n = find (\<lambda>i. dirty ! i \<noteq> 0) [0..<n]"

definition rewrite_dirty_flash_pages :: "platform \<Rightarrow> hal \<Rightarrow> 'a disk_state \<Rightarrow> 'a disk_state" where
  "rewrite_dirty_flash_pages plat h st =
    (case plat of
       STM32F103xB \<Rightarrow>
         (case first_dirty (page_dirty_mask st) 16 of
            None \<Rightarrow> st
          | Some i \<Rightarrow>
              st\<lparr>page_dirty_mask := (page_dirty_mask st)[i := 0],
                 flash := program_loop h (disk_buffer st) (i * FLASH_PAGE_SIZE plat)
                            (FLASH_PAGE_SIZE plat) 0
                            (erase_flash_page h (flash st) (i * FLASH_PAGE_SIZE plat)
                               (FLASH_PAGE_SIZE plat))\<rparr>)
     | STM32F411xE \<Rightarrow>
         (case first_dirty (page_dirty_mask st) PAGE_DIRTY_MASK_SIZE of
            None \<Rightarrow> st
          | Some i \<Rightarrow>
              st\<lparr>page_dirty_mask := replicate PAGE_DIRTY_MASK_SIZE 0,
                 flash := program_loop h (disk_buffer st) 0 DISK_BUFFER_SIZE 0
                            (erase_flash_page h (flash st) 0 DISK_BUFFER_SIZE)\<rparr>))"

subsection \<open>Start-up, registration and the deferred commit\<close>

definition load_from_flash :: "'a disk_state \<Rightarrow> error + 'a disk_state" where
  "load_from_flash st =
    (if length (flash st) < DISK_BUFFER_SIZE then Inl Out_of_bounds
     else Inr (st\<lparr>disk_buffer := region (flash st) 0 DISK_BUFFER_SIZE,
                 page_dirty_mask := replicate PAGE_DIRTY_MASK_SIZE 0\<rparr>))"

definition init :: "'a disk_state \<Rightarrow> u32 \<Rightarrow> error + 'a disk_state" where
  "init st now =
    (case load_from_flash st of Inl e \<Rightarrow> Inl e | Inr st' \<Rightarrow> flush_file st' now)"

definition get_unused_idx :: "u32 \<Rightarrow> (nat \<times> u32) option" where
  "get_unused_idx usage =
    (case find (\<lambda>i. \<not> bit usage i) [0..<FILE_ENTRY_CNT] of
       None \<Rightarrow> None
     | Some i \<Rightarrow> Some (i, set_bit i usage))"

text \<open>\<^verbatim>\<open>register_entry\<close>: the label and the comment are C strings; the boolean is the
  return value.\<close>

definition register_entry ::
  "'a disk_state \<Rightarrow> bytes \<Rightarrow> bytes option \<Rightarrow> bytes \<Rightarrow> (bytes \<Rightarrow> 'a \<Rightarrow> bool) option \<Rightarrow>
   (bytes \<Rightarrow> 'a \<Rightarrow> 'a) option \<Rightarrow> ('a \<Rightarrow> nat \<Rightarrow> bytes) option \<Rightarrow> 'a disk_state \<times> bool" where
  "register_entry st label default_val cmt validator updater printer =
    (case get_unused_idx (entry_usage_mask st) of
       None \<Rightarrow> (st, False)
     | Some (idx, usage) \<Rightarrow>
         (st\<lparr>entry_usage_mask := usage,
             entries := (entries st)[idx :=
               \<lparr>entry = take (MAX_ENTRY_LABEL_LENGTH - 1) label,
                comment = cstring MAX_ENTRY_COMMENT_LENGTH ([0x09] @ cmt @ [0x0D, 0x0A]),
                default_value = default_val,
                validate = validator, update = updater, print = printer\<rparr>]\<rparr>, True))"

text \<open>\<^verbatim>\<open>process()\<close> at tick \<open>now\<close>; the subtraction of the ticks is 32-bit.\<close>

definition process :: "platform \<Rightarrow> hal \<Rightarrow> 'a disk_state \<Rightarrow> u32 \<Rightarrow> error + 'a disk_state" where
  "process plat h st now =
    (if pending_flash_write st \<and> now - last_write_tick st \<ge> FLASH_WRITE_DELAY_MS then
       (case (case find_file (disk_buffer st) CONFIG_FILENAME of
                None \<Rightarrow> Inr st
              | Some (p_file, file_len, root_addr) \<Rightarrow>
                  if file_len > 0 then map_sum id fst (validate_file st p_file root_addr)
                  else Inr st) of
          Inl e \<Rightarrow> Inl e
        | Inr st1 \<Rightarrow> Inr ((rewrite_dirty_flash_pages plat h st1)\<lparr>pending_flash_write := False\<rparr>))
     else Inr st)"

subsection \<open>Example inputs\<close>

text \<open>A HAL whose operations all succeed, one whose operations all fail, and an erased
  flash region.\<close>

definition hal_ok :: hal where
  "hal_ok = \<lparr>erase_ok = (\<lambda>a. True), program_ok = (\<lambda>a. True)\<rparr>"

definition hal_failing :: hal where
  "hal_failing = \<lparr>erase_ok = (\<lambda>a. False), program_ok = (\<lambda>a. False)\<rparr>"

definition erased_flash :: bytes where
  "erased_flash = replicate DISK_BUFFER_SIZE 0xFF"

text \<open>The device at reset over an erased flash with nothing registered, and the same
  device with a write pending and page 3 dirty.\<close>

definition idle_state :: "unit disk_state" where
  "idle_state = power_on erased_flash ()"

definition dirty_pending_state :: "unit disk_state" where
  "dirty_pending_state =
    idle_state\<lparr>pending_flash_write := True,
               page_dirty_mask := (replicate PAGE_DIRTY_MASK_SIZE 0)[3 := 1]\<rparr>"

text \<open>The arrays of a state have their declared sizes.\<close>

definition well_sized :: "'a disk_state \<Rightarrow> bool" where
  "well_sized st =
    (length (disk_buffer st) = DISK_BUFFER_SIZE
     \<and> length (disk_buffer_temp st) = DISK_BUFFER_TEMP_SIZE
     \<and> length (page_dirty_mask st) = PAGE_DIRTY_MASK_SIZE
     \<and> length (flash st) = DISK_BUFFER_SIZE)"

text \<open>A root-directory sector whose first entry is CONFIG.TXT with the given low byte of
  the starting cluster and the given two low bytes of the size.\<close>

definition config_dir_sector :: "u8 \<Rightarrow> u8 \<Rightarrow> u8 \<Rightarrow> bytes" where
  "config_dir_sector cluster_lo size_b0 size_b1 =
    CONFIG_FILENAME @ replicate 15 0 @ [cluster_lo, 0, size_b0, size_b1, 0, 0] @ replicate 480 0"

text \<open>A flash image holding a well-formed volume: both FAT copies chain cluster 2 as the
  only cluster of the file, the first root-directory entry is CONFIG.TXT at cluster 2 with
  size 8, and the file region holds the line \<^verbatim>\<open>A=1<TAB>#c<CR><LF>\<close>.\<close>

definition demo_content :: bytes where
  "demo_content = [0x41, 0x3D, 0x31, 0x09, 0x23, 0x63, 0x0D, 0x0A]"

definition demo_fat :: bytes where
  "demo_fat = [0xF8, 0xFF, 0xFF, 0xFF, 0x0F] @ replicate 507 0"

definition demo_image :: bytes where
  "demo_image = demo_fat @ demo_fat @ config_dir_sector 2 8 0 @ demo_content @ replicate 14840 0"

text \<open>A device over that flash whose application value is the byte string \<^verbatim>\<open>1\<close> and which
  has registered the label \<^verbatim>\<open>A\<close> with default \<^verbatim>\<open>1\<close> and comment \<^verbatim>\<open>#c\<close>; its updater
  stores the parsed value, its printer writes the stored value after \<^verbatim>\<open>A=\<close>.\<close>

definition demo_state :: "bytes disk_state" where
  "demo_state =
    fst (register_entry (power_on demo_image [0x31]) [0x41] (Some [0x31]) [0x23, 0x63]
           None (Some (\<lambda>v a. v)) (Some (\<lambda>a n. [0x41, 0x3D] @ a)))"

definition demo_entry :: "bytes FILE_ENTRY" where
  "demo_entry = \<lparr>entry = [0x41], comment = [0x09, 0x23, 0x63, 0x0D, 0x0A],
     default_value = Some [0x31], validate = None, update = Some (\<lambda>v a. v),
     print = Some (\<lambda>a n. [0x41, 0x3D] @ a)\<rparr>"

definition demo_loaded :: "bytes disk_state" where
  "demo_loaded = demo_state\<lparr>disk_buffer := demo_image\<rparr>"

text \<open>The host stores a new version of the file, \<^verbatim>\<open>A=2<LF>\<close>, in cluster 16 (sector 78) and
  then rewrites the root directory so that CONFIG.TXT starts at cluster 16 with size 4.\<close>

definition moved_file_sector :: bytes where
  "moved_file_sector = [0x41, 0x3D, 0x32, 0x0A] @ replicate 508 0"

definition moved_file_state :: "bytes disk_state" where
  "moved_file_state =
    projr (write_sector STM32F103xB
             (projr (write_sector STM32F103xB (projr (init demo_state 0)) moved_file_sector 78 1 0))
             (config_dir_sector 16 4 0) 32 1 0)"

text \<open>The device with nothing registered after \<open>init\<close> over an erased flash and the first
  deferred commit on the F1. \<open>boot_dir\<close> is the mirror the bootstrap branch of
  \<^verbatim>\<open>flush_file\<close> builds before \<^verbatim>\<open>update_fat_chain\<close>, \<open>boot_mirror\<close> the mirror after it, and
  \<open>boot_flash\<close> the flash once page 0 has been written.\<close>

definition bootstrapped_state :: "unit disk_state" where
  "bootstrapped_state = projr (process STM32F103xB hal_ok (projr (init idle_state 0)) 500)"

definition boot_dir :: bytes where
  "boot_dir = memcpy_at
     ((memcpy_at
        ((memcpy_at (memcpy_at (memcpy_at (replicate DISK_BUFFER_SIZE 0) ROOT_SECTOR (CONFIG_FILENAME @ [0]))
            FAT1_SECTOR fat_data) FAT2_SECTOR fat_data)[0x40B := 0])
        VOLUME_BASE (word32_bytes VOLUME))[0x41A := 0x02])
     0x41C (word32_bytes 0)"

definition boot_mirror :: bytes where
  "boot_mirror = projr (update_fat_chain 0 boot_dir)"

definition boot_flash :: bytes where
  "boot_flash = program_loop hal_ok boot_mirror 0 1024 0 (erase_flash_page hal_ok erased_flash 0 1024)"

section \<open>Properties\<close>

subsection \<open>Memory helpers\<close>

lemma length_region: "off + n \<le> length buf \<Longrightarrow> length (region buf off n) = n"
  by (simp add: region_def)

lemma BOOT_SEC_length: "length BOOT_SEC = 512"
  by (simp add: BOOT_SEC_def)

subsection \<open>Packed FAT12 entries\<close>

lemma odd_unat: "odd (unat (c :: 'a::len word)) = odd c"
proof -
  have "bit (unat c) 0 = bit c 0" by (simp only: bit_unsigned_iff) simp
  then show ?thesis by (simp only: bit_0)
qed

lemma odd_and1: "((c :: u16) AND 1 \<noteq> 0) = odd (unat c)"
proof -
  have "(c AND 1 \<noteq> 0) = odd c"
    by (simp add: and_one_eq even_iff_mod_2_eq_zero)
  then show ?thesis by (simp only: odd_unat)
qed

lemma m4: "(0x0F :: 'a::len word) = mask 4" by (simp add: mask_eq_exp_minus_1)
lemma m8: "(0xFF :: 'a::len word) = mask 8" by (simp add: mask_eq_exp_minus_1)
lemma m12: "(0xFFF :: 'a::len word) = mask 12" by (simp add: mask_eq_exp_minus_1)
lemma mF0: "(0xF0 :: 'a::len word) = push_bit 4 (mask 4)" by (simp add: mask_eq_exp_minus_1 push_bit_eq_mult)

lemma enc_even:
  fixes v :: u16 and b :: u8
  shows "ucast (ucast (v AND 0xFF) :: u8) OR push_bit 8 (ucast (((b AND 0xF0) OR ucast (drop_bit 8 v AND 0x0F)) AND 0x0F) :: u16) = v AND 0xFFF"
  unfolding m4 m8 m12 mF0
  by (rule bit_word_eqI) (auto simp: bit_simps not_less dest: bit_imp_le_length)

lemma enc_odd:
  fixes v :: u16 and b :: u8
  shows "ucast (drop_bit 4 ((b AND 0x0F) OR ucast (push_bit 4 (v AND 0x0F)))) OR push_bit 4 (ucast (ucast (drop_bit 4 v AND 0xFF) :: u8) :: u16) = v AND 0xFFF"
  unfolding m4 m8 m12 mF0
  apply (rule bit_word_eqI) 
  apply (auto simp: bit_simps not_less dest: bit_imp_le_length)
  apply (metis add_diff_inverse_nat)
  done

lemma keep_high:
  fixes v :: u16 and b :: u8
  shows "drop_bit 4 ((b AND 0xF0) OR ucast (drop_bit 8 v AND 0x0F)) = drop_bit 4 b"
  unfolding m4 m8 m12 mF0
  by (rule bit_word_eqI) (auto simp: bit_simps not_less dest: bit_imp_le_length)

lemma keep_low:
  fixes v :: u16 and b :: u8
  shows "((b AND 0x0F) OR ucast (push_bit 4 (v AND 0x0F))) AND 0x0F = b AND 0x0F"
  unfolding m4 m8 m12 mF0
  by (rule bit_word_eqI) (auto simp: bit_simps not_less dest: bit_imp_le_length)

lemma keep_highmask:
  fixes v :: u16 and b :: u8
  shows "((b AND 0xF0) OR ucast (drop_bit 8 v AND 0x0F)) AND 0xF0 = b AND 0xF0"
  unfolding m4 m8 m12 mF0
  by (rule bit_word_eqI) (auto simp: bit_simps not_less dest: bit_imp_le_length)


lemma nth_update2:
  "i + 1 < length buf \<Longrightarrow>
   buf[i := a, i + 1 := b] ! j = (if j = i + 1 then b else if j = i then a else buf ! j)"
  by (simp add: nth_list_update)

lemma set_fat12_entry_Inr:
  "fat + (unat c + unat c div 2) + 1 < length buf \<Longrightarrow>
   set_fat12_entry buf fat c v = Inr (if odd (unat c) then
       buf[fat + (unat c + unat c div 2) := (buf ! (fat + (unat c + unat c div 2)) AND 0x0F) OR ucast (push_bit 4 (v AND 0x0F)),
                fat + (unat c + unat c div 2) + 1 := ucast (drop_bit 4 v AND 0xFF)]
     else buf[fat + (unat c + unat c div 2) := ucast (v AND 0xFF),
                fat + (unat c + unat c div 2) + 1 := (buf ! (fat + (unat c + unat c div 2) + 1) AND 0xF0) OR ucast (drop_bit 8 v AND 0x0F)])"
  unfolding set_fat12_entry_def Let_def odd_and1 by (simp only: not_le [symmetric] if_False if_True split: if_split) simp

lemma set_fat12_entry_bound:
  "set_fat12_entry buf fat c v = Inr buf' \<Longrightarrow> fat + (unat c + unat c div 2) + 1 < length buf"
  unfolding set_fat12_entry_def Let_def by (simp split: if_splits)

lemma set_fat12_entry_reads:
  assumes "set_fat12_entry buf fat c v = Inr buf'"
  shows "length buf' = length buf"
    and "odd (unat c) \<Longrightarrow> buf' ! (fat + (unat c + unat c div 2))
           = (buf ! (fat + (unat c + unat c div 2)) AND 0x0F) OR ucast (push_bit 4 (v AND 0x0F))"
    and "odd (unat c) \<Longrightarrow> buf' ! (fat + (unat c + unat c div 2) + 1) = ucast (drop_bit 4 v AND 0xFF)"
    and "even (unat c) \<Longrightarrow> buf' ! (fat + (unat c + unat c div 2)) = ucast (v AND 0xFF)"
    and "even (unat c) \<Longrightarrow> buf' ! (fat + (unat c + unat c div 2) + 1)
           = (buf ! (fat + (unat c + unat c div 2) + 1) AND 0xF0) OR ucast (drop_bit 8 v AND 0x0F)"
    and "j \<noteq> fat + (unat c + unat c div 2) \<Longrightarrow> j \<noteq> fat + (unat c + unat c div 2) + 1 \<Longrightarrow> buf' ! j = buf ! j"
  using assms set_fat12_entry_bound [OF assms] set_fat12_entry_Inr [of fat c buf v]
  by (auto simp: nth_list_update simp del: One_nat_def)

lemma fat12_get_set_same:
  assumes "set_fat12_entry buf fat c v = Inr buf'"
  shows "fat12_entry buf' fat (unat c) = v AND 0xFFF"
proof (cases "odd (unat c)")
  case True
  show ?thesis
    unfolding fat12_entry_def Let_def
      set_fat12_entry_reads(2) [OF assms True] set_fat12_entry_reads(3) [OF assms True]
    using True by (simp only: if_False enc_odd)
next
  case False
  then have e: "even (unat c)" by simp
  show ?thesis
    unfolding fat12_entry_def Let_def
      set_fat12_entry_reads(4) [OF assms e] set_fat12_entry_reads(5) [OF assms e]
    using e by (simp only: if_True enc_even)
qed

lemma fat_offset_split:
  "(c::nat) + c div 2 = 3 * (c div 2) + c mod 2 \<and> c = 2 * (c div 2) + c mod 2 \<and> c mod 2 < 2"
  by arith

lemma fat12_get_set_other:
  assumes "set_fat12_entry buf fat c v = Inr buf'" and "c' \<noteq> unat c"
  shows "fat12_entry buf' fat c' = fat12_entry buf fat c'"
proof -
  let ?o = "fat + (unat c + unat c div 2)"
  let ?o' = "fat + (c' + c' div 2)"
  note rd = set_fat12_entry_reads [OF assms(1)]
  define k where "k = unat c div 2"
  define r where "r = unat c mod 2"
  define k' where "k' = c' div 2"
  define r' where "r' = c' mod 2"
  have o: "unat c + unat c div 2 = 3 * k + r" "unat c = 2 * k + r" "r < 2"
    using fat_offset_split [of "unat c"] by (simp_all add: k_def r_def k'_def r'_def)
  have o': "c' + c' div 2 = 3 * k' + r'" "c' = 2 * k' + r'" "r' < 2"
    using fat_offset_split [of c'] by (simp_all add: k_def r_def k'_def r'_def)
  have kk: "r = r' \<Longrightarrow> k \<noteq> k'" using o(2) o'(2) assms(2) by auto
  show ?thesis
  proof (cases "odd (unat c)")
    case True
    then have r: "r = 1" by (simp add: k_def r_def k'_def r'_def odd_iff_mod_2_eq_one)
    show ?thesis
    proof (cases "even c'")
      case e: True
      then have r': "r' = 0" by (simp add: k_def r_def k'_def r'_def)
      have 1: "?o' \<noteq> ?o" "?o' \<noteq> ?o + 1" unfolding o(1) o'(1) r r' by arith+
      have 2: "?o' + 1 \<noteq> ?o + 1" unfolding o(1) o'(1) r r' by arith
      have r0: "buf' ! ?o' = buf ! ?o'" using 1 by (rule rd(6))
      have r1: "buf' ! (?o' + 1) AND 0x0F = buf ! (?o' + 1) AND 0x0F"
      proof (cases "?o' + 1 = ?o")
        case True
        show ?thesis unfolding True rd(2) [OF \<open>odd (unat c)\<close>] by (rule keep_low)
      next
        case False
        then show ?thesis using 2 rd(6) by simp
      qed
      show ?thesis using e by (simp only: fat12_entry_def Let_def if_True if_False r0 r1)
    next
      case od: False
      then have r': "r' = 1" by (simp add: k_def r_def k'_def r'_def odd_iff_mod_2_eq_one)
      have k: "k \<noteq> k'" using kk r r' by simp
      have 1: "?o' \<noteq> ?o" "?o' \<noteq> ?o + 1" unfolding o(1) o'(1) r r' using k by arith+
      have 2: "?o' + 1 \<noteq> ?o" "?o' + 1 \<noteq> ?o + 1" unfolding o(1) o'(1) r r' using k by arith+
      have r0: "buf' ! ?o' = buf ! ?o'" using 1 by (rule rd(6))
      have r1: "buf' ! (?o' + 1) = buf ! (?o' + 1)" using 2 by (rule rd(6))
      show ?thesis using od by (simp only: fat12_entry_def Let_def if_True if_False r0 r1)
    qed
  next
    case False
    then have ev: "even (unat c)" by simp
    then have r: "r = 0" by (simp add: k_def r_def k'_def r'_def)
    show ?thesis
    proof (cases "even c'")
      case e: True
      then have r': "r' = 0" by (simp add: k_def r_def k'_def r'_def)
      have k: "k \<noteq> k'" using kk r r' by simp
      have 1: "?o' \<noteq> ?o" "?o' \<noteq> ?o + 1" unfolding o(1) o'(1) r r' using k by arith+
      have 2: "?o' + 1 \<noteq> ?o" "?o' + 1 \<noteq> ?o + 1" unfolding o(1) o'(1) r r' using k by arith+
      have r0: "buf' ! ?o' = buf ! ?o'" using 1 by (rule rd(6))
      have r1: "buf' ! (?o' + 1) = buf ! (?o' + 1)" using 2 by (rule rd(6))
      show ?thesis using e by (simp only: fat12_entry_def Let_def if_True if_False r0 r1)
    next
      case od: False
      then have r': "r' = 1" by (simp add: k_def r_def k'_def r'_def odd_iff_mod_2_eq_one)
      have 1: "?o' \<noteq> ?o" unfolding o(1) o'(1) r r' by arith
      have 2: "?o' + 1 \<noteq> ?o" "?o' + 1 \<noteq> ?o + 1" unfolding o(1) o'(1) r r' by arith+
      have r1: "buf' ! (?o' + 1) = buf ! (?o' + 1)" using 2 by (rule rd(6))
      have r0: "drop_bit 4 (buf' ! ?o') = drop_bit 4 (buf ! ?o')"
      proof (cases "?o' = ?o + 1")
        case True
        show ?thesis unfolding True rd(5) [OF ev] by (rule keep_high)
      next
        case False
        then show ?thesis using 1 rd(6) by simp
      qed
      show ?thesis using od by (simp only: fat12_entry_def Let_def if_True if_False r0 r1)
    qed
  qed
qed

lemma unat_cluster: "i < 65534 \<Longrightarrow> unat (of_nat (2 + i) :: u16) = 2 + i"
  by (simp only: unat_of_nat) simp

lemma and_fff: "k < 4096 \<Longrightarrow> (of_nat k :: u16) AND 0xFFF = of_nat k"
  unfolding m12 by (simp add: take_bit_of_nat take_bit_nat_eq_self flip: take_bit_eq_mask)

lemma chain_loop_inv:
  assumes "n \<le> 339" and "512 \<le> length buf"
  shows "\<exists>buf'. fat_chain_loop i n buf = Inr buf' \<and> length buf' = length buf
     \<and> (\<forall>c. i + 2 \<le> c \<and> c < n + 2 \<longrightarrow>
            fat12_entry buf' FAT1_SECTOR c = (if c = n + 1 then 0xFFF else of_nat (c + 1)))
     \<and> (\<forall>c. c < i + 2 \<or> n + 2 \<le> c \<longrightarrow> fat12_entry buf' FAT1_SECTOR c = fat12_entry buf FAT1_SECTOR c)
     \<and> (\<forall>j. j < 3 \<or> 3 + (3 * n + 1) div 2 \<le> j \<longrightarrow> buf' ! j = buf ! j)"
  using assms
proof (induction i n buf rule: fat_chain_loop.induct)
  case (1 i n buf)
  show ?case
  proof (cases "i < n")
    case False
    then have "fat_chain_loop i n buf = Inr buf" by (simp add: fat_chain_loop.simps)
    moreover have "\<forall>c. i + 2 \<le> c \<and> c < n + 2 \<longrightarrow>
            fat12_entry buf FAT1_SECTOR c = (if c = n + 1 then 0xFFF else of_nat (c + 1))"
      using False by auto
    ultimately show ?thesis by simp
  next
    case True
    define cluster :: u16 where "cluster = of_nat (2 + i)"
    define nxt :: u16 where "nxt = (if i = n - 1 then 0xFFF else cluster + 1)"
    have uc: "unat cluster = 2 + i"
      using True "1.prems" unat_cluster [of i] by (simp add: cluster_def)
    have off: "0 + (unat cluster + unat cluster div 2) + 1 < length buf"
      using True "1.prems" unfolding uc by simp
    obtain b1 where b1: "set_fat12_entry buf FAT1_SECTOR cluster nxt = Inr b1"
      using set_fat12_entry_Inr [OF off] by simp
    note rd = set_fat12_entry_reads [OF b1]
    have l1: "512 \<le> length b1" using rd(1) "1.prems" by simp
    have nx: "nxt AND 0xFFF = (if 2 + i = n + 1 then 0xFFF else of_nat (2 + i + 1))"
    proof (cases "i = n - 1")
      case True
      then show ?thesis using \<open>i < n\<close> by (simp add: nxt_def)
    next
      case False
      have "cluster + 1 = of_nat (3 + i)" by (simp add: cluster_def)
      moreover have "(of_nat (3 + i) :: u16) AND 0xFFF = of_nat (3 + i)"
        using \<open>i < n\<close> "1.prems" by (intro and_fff) simp
      moreover have "2 + i \<noteq> n + 1" "Suc i \<noteq> n" using False \<open>i < n\<close> by arith+
      ultimately show ?thesis using False by (simp add: nxt_def)
    qed
    have step: "fat_chain_loop i n buf = fat_chain_loop (Suc i) n b1"
      using True b1 [unfolded cluster_def nxt_def]
      by (subst fat_chain_loop.simps) (simp only: if_True Let_def sum.case)
    from "1.IH" [OF True cluster_def nxt_def b1 "1.prems"(1) l1]
    obtain buf' where r: "fat_chain_loop (Suc i) n b1 = Inr buf'" "length buf' = length b1"
      and ents: "\<And>c. Suc i + 2 \<le> c \<and> c < n + 2 \<Longrightarrow>
            fat12_entry buf' FAT1_SECTOR c = (if c = n + 1 then 0xFFF else of_nat (c + 1))"
      and keep: "\<And>c. c < Suc i + 2 \<or> n + 2 \<le> c \<Longrightarrow> fat12_entry buf' FAT1_SECTOR c = fat12_entry b1 FAT1_SECTOR c"
      and bytes: "\<And>j. j < 3 \<or> 3 + (3 * n + 1) div 2 \<le> j \<Longrightarrow> buf' ! j = b1 ! j"
      by blast
    have same: "fat12_entry b1 FAT1_SECTOR (2 + i) = nxt AND 0xFFF"
      using fat12_get_set_same [OF b1] by (simp only: uc)
    have other: "\<And>c. c \<noteq> 2 + i \<Longrightarrow> fat12_entry b1 FAT1_SECTOR c = fat12_entry buf FAT1_SECTOR c"
      using fat12_get_set_other [OF b1] by (simp only: uc)
    have A: "\<forall>c. i + 2 \<le> c \<and> c < n + 2 \<longrightarrow>
            fat12_entry buf' FAT1_SECTOR c = (if c = n + 1 then 0xFFF else of_nat (c + 1))"
    proof (intro allI impI)
      fix c assume c: "i + 2 \<le> c \<and> c < n + 2"
      show "fat12_entry buf' FAT1_SECTOR c = (if c = n + 1 then 0xFFF else of_nat (c + 1))"
      proof (cases "c = 2 + i")
        case True
        have "fat12_entry buf' FAT1_SECTOR c = fat12_entry b1 FAT1_SECTOR c"
          using True by (intro keep) simp
        then show ?thesis using same nx True by simp
      next
        case False
        then show ?thesis using c by (intro ents) simp
      qed
    qed
    have B: "\<forall>c. c < i + 2 \<or> n + 2 \<le> c \<longrightarrow> fat12_entry buf' FAT1_SECTOR c = fat12_entry buf FAT1_SECTOR c"
    proof (intro allI impI)
      fix c assume c: "c < i + 2 \<or> n + 2 \<le> c"
      then have "c \<noteq> 2 + i" using True by auto
      moreover have "fat12_entry buf' FAT1_SECTOR c = fat12_entry b1 FAT1_SECTOR c"
        using c by (intro keep) auto
      ultimately show "fat12_entry buf' FAT1_SECTOR c = fat12_entry buf FAT1_SECTOR c"
        using other by simp
    qed
    have C: "\<forall>j. j < 3 \<or> 3 + (3 * n + 1) div 2 \<le> j \<longrightarrow> buf' ! j = buf ! j"
    proof (intro allI impI)
      fix j assume j: "j < 3 \<or> 3 + (3 * n + 1) div 2 \<le> j"
      have "j \<noteq> 0 + (unat cluster + unat cluster div 2)" "j \<noteq> 0 + (unat cluster + unat cluster div 2) + 1"
        unfolding uc using j True by arith+
      then have "b1 ! j = buf ! j" by (rule rd(6))
      then show "buf' ! j = buf ! j" using bytes [OF j] by simp
    qed
    show ?thesis unfolding step using r rd(1) A B C by simp
  qed
qed

lemma clusters_for_small:
  assumes "unat size_bytes \<le> 173568"
  shows "clusters_for size_bytes = max 1 ((unat size_bytes + 511) div 512)"
proof -
  have "unat (size_bytes + 511) = unat size_bytes + 511"
    using assms by (simp add: unat_word_ariths)
  then have "unat ((size_bytes + 511) div 512) = (unat size_bytes + 511) div 512"
    by (simp add: unat_div)
  then show ?thesis by (simp add: clusters_for_def Let_def max_def)
qed

lemma nth_memset_at:
  "off + n \<le> length buf \<Longrightarrow> j < length buf \<Longrightarrow>
   memset_at buf off v n ! j = (if off \<le> j \<and> j < off + n then v else buf ! j)"
  by (auto simp: memset_at_def nth_append min_def)

lemma length_memset_at: "off + n \<le> length buf \<Longrightarrow> length (memset_at buf off v n) = length buf"
  by (simp add: memset_at_def)

lemma nth_memcpy_at:
  "off + length src \<le> length buf \<Longrightarrow> j < length buf \<Longrightarrow>
   memcpy_at buf off src ! j = (if off \<le> j \<and> j < off + length src then src ! (j - off) else buf ! j)"
  by (auto simp: memcpy_at_def nth_append min_def)

lemma length_memcpy_at: "off + length src \<le> length buf \<Longrightarrow> length (memcpy_at buf off src) = length buf"
  by (simp add: memcpy_at_def)

lemma nth_region: "j < n \<Longrightarrow> off + n \<le> length buf \<Longrightarrow> region buf off n ! j = buf ! (off + j)"
  by (simp add: region_def)

lemma region_eqI:
  "off + n \<le> length a \<Longrightarrow> off' + n \<le> length b \<Longrightarrow> (\<And>j. j < n \<Longrightarrow> a ! (off + j) = b ! (off' + j)) \<Longrightarrow>
   region a off n = region b off' n"
  by (simp add: list_eq_iff_nth_eq length_region nth_region)

lemma fat12_entry_cong:
  "a ! (fat + (c + c div 2)) = b ! (fat + (c + c div 2)) \<Longrightarrow>
   a ! (fat + (c + c div 2) + 1) = b ! (fat + (c + c div 2) + 1) \<Longrightarrow>
   fat12_entry a fat c = fat12_entry b fat c"
  by (simp add: fat12_entry_def Let_def)

lemma fat12_entry_zero:
  "a ! (fat + (c + c div 2)) = 0 \<Longrightarrow> a ! (fat + (c + c div 2) + 1) = 0 \<Longrightarrow> fat12_entry a fat c = 0"
  by (simp add: fat12_entry_def Let_def)

lemma update_fat_chain_by_clusters:
  assumes len: "1024 \<le> length buf" and n: "clusters_for size_bytes \<le> 339"
  shows "\<exists>buf'. update_fat_chain size_bytes buf = Inr buf' \<and> length buf' = length buf
     \<and> region buf' FAT1_SECTOR 3 = region buf FAT1_SECTOR 3
     \<and> (\<forall>i < clusters_for size_bytes - 1. fat12_entry buf' FAT1_SECTOR (2 + i) = of_nat (3 + i))
     \<and> fat12_entry buf' FAT1_SECTOR (2 + (clusters_for size_bytes - 1)) = 0xFFF
     \<and> (\<forall>c. 2 + clusters_for size_bytes \<le> c \<and> c \<le> 340 \<longrightarrow> fat12_entry buf' FAT1_SECTOR c = 0)
     \<and> (\<forall>j. 3 + (3 * clusters_for size_bytes + 1) div 2 \<le> j \<and> j < 512 \<longrightarrow> buf' ! j = 0)
     \<and> region buf' FAT2_SECTOR SECTOR_SIZE = region buf' FAT1_SECTOR SECTOR_SIZE
     \<and> drop 1024 buf' = drop 1024 buf"
proof -
  define n where "n = clusters_for size_bytes"
  have n1: "1 \<le> n" by (simp add: n_def clusters_for_def Let_def)
  define b0 where "b0 = memset_at buf (FAT1_SECTOR + 3) 0 (SECTOR_SIZE - 3)"
  have l0: "length b0 = length buf" using len by (simp add: b0_def length_memset_at)
  have b0n: "\<And>j. j < length buf \<Longrightarrow> b0 ! j = (if 3 \<le> j \<and> j < 512 then 0 else buf ! j)"
    using len by (simp add: b0_def nth_memset_at)
  have "n \<le> 339" "512 \<le> length b0" using n l0 len by (simp_all add: n_def)
  from chain_loop_inv [OF this, of 0]
  obtain b1 where r: "fat_chain_loop 0 n b0 = Inr b1" and l1': "length b1 = length b0"
    and ents: "\<And>c. 0 + 2 \<le> c \<and> c < n + 2 \<Longrightarrow>
            fat12_entry b1 FAT1_SECTOR c = (if c = n + 1 then 0xFFF else of_nat (c + 1))"
    and keep: "\<And>c. c < 0 + 2 \<or> n + 2 \<le> c \<Longrightarrow> fat12_entry b1 FAT1_SECTOR c = fat12_entry b0 FAT1_SECTOR c"
    and bytes: "\<And>j. j < 3 \<or> 3 + (3 * n + 1) div 2 \<le> j \<Longrightarrow> b1 ! j = b0 ! j"
    by blast
  have l1: "length b1 = length buf" using l1' l0 by simp
  define b2 where "b2 = memcpy_at b1 FAT2_SECTOR (region b1 FAT1_SECTOR SECTOR_SIZE)"
  have lr: "length (region b1 FAT1_SECTOR SECTOR_SIZE) = 512" using l1 len by (simp add: length_region)
  have l2: "length b2 = length buf" using l1 len lr by (simp add: b2_def length_memcpy_at)
  have b2n: "\<And>j. j < length buf \<Longrightarrow> b2 ! j = (if 512 \<le> j \<and> j < 1024 then b1 ! (j - 512) else b1 ! j)"
    using l1 len lr by (auto simp add: b2_def nth_memcpy_at nth_region)
  have res: "update_fat_chain size_bytes buf = Inr b2"
    using r by (simp add: update_fat_chain_def b0_def b2_def n_def)
  have low: "fat12_entry b2 FAT1_SECTOR c = fat12_entry b1 FAT1_SECTOR c" if "c \<le> 340" for c
  proof -
    have a: "0 + (c + c div 2) < 512" "0 + (c + c div 2) + 1 < 512" using that by arith+
    then have "0 + (c + c div 2) < length buf" "0 + (c + c div 2) + 1 < length buf"
      using len by simp_all
    then show ?thesis using a by (intro fat12_entry_cong) (simp_all add: b2n)
  qed
  have P1: "region b2 FAT1_SECTOR 3 = region buf FAT1_SECTOR 3"
  proof (rule region_eqI)
    fix j :: nat assume j: "j < 3"
    then have jl: "j < length buf" using len by simp
    have "b2 ! j = b1 ! j" using j jl by (simp add: b2n)
    also have "\<dots> = b0 ! j" using j by (intro bytes) simp
    also have "\<dots> = buf ! j" using j jl by (simp add: b0n)
    finally show "b2 ! (FAT1_SECTOR + j) = buf ! (FAT1_SECTOR + j)" by simp
  qed (use l2 len in simp_all)
  have P2: "\<forall>i < n - 1. fat12_entry b2 FAT1_SECTOR (2 + i) = of_nat (3 + i)"
  proof (intro allI impI)
    fix i assume i: "i < n - 1"
    then have ne: "2 + i \<noteq> n + 1" and rng: "0 + 2 \<le> 2 + i \<and> 2 + i < n + 2" by arith+
    have "fat12_entry b1 FAT1_SECTOR (2 + i) = of_nat (2 + i + 1)"
      using ents [OF rng] ne by (simp only: if_False)
    moreover have "2 + i \<le> 340" using i n by (simp add: n_def)
    ultimately show "fat12_entry b2 FAT1_SECTOR (2 + i) = of_nat (3 + i)" by (simp add: low)
  qed
  have P3: "fat12_entry b2 FAT1_SECTOR (2 + (n - 1)) = 0xFFF"
  proof -
    have eq: "2 + (n - 1) = n + 1" and rng: "0 + 2 \<le> 2 + (n - 1) \<and> 2 + (n - 1) < n + 2"
      using n1 by arith+
    have "fat12_entry b1 FAT1_SECTOR (2 + (n - 1)) = 0xFFF"
      using ents [OF rng] eq by (simp only: if_True simp_thms)
    moreover have "2 + (n - 1) \<le> 340" using n by (simp add: n_def)
    ultimately show ?thesis by (simp add: low)
  qed
  have P5: "\<forall>j. 3 + (3 * n + 1) div 2 \<le> j \<and> j < 512 \<longrightarrow> b2 ! j = 0"
  proof (intro allI impI)
    fix j assume j: "3 + (3 * n + 1) div 2 \<le> j \<and> j < 512"
    then have jl: "j < length buf" "3 \<le> j" using len by simp_all
    have "b2 ! j = b1 ! j" using j jl by (simp add: b2n)
    also have "\<dots> = b0 ! j" using j by (intro bytes) simp
    also have "\<dots> = 0" using j jl by (simp add: b0n)
    finally show "b2 ! j = 0" .
  qed
  have P4: "\<forall>c. 2 + n \<le> c \<and> c \<le> 340 \<longrightarrow> fat12_entry b2 FAT1_SECTOR c = 0"
  proof (intro allI impI)
    fix c assume c: "2 + n \<le> c \<and> c \<le> 340"
    have a: "3 \<le> 0 + (c + c div 2)" "0 + (c + c div 2) + 1 < 512" using c n1 by arith+
    then have al: "0 + (c + c div 2) < length buf" "0 + (c + c div 2) + 1 < length buf"
      using len by simp_all
    have "fat12_entry b0 FAT1_SECTOR c = 0"
      using a al by (intro fat12_entry_zero) (simp_all add: b0n)
    moreover have "fat12_entry b1 FAT1_SECTOR c = fat12_entry b0 FAT1_SECTOR c"
      using c by (intro keep) simp
    ultimately show "fat12_entry b2 FAT1_SECTOR c = 0" using c by (simp add: low)
  qed
  have P6: "region b2 FAT2_SECTOR SECTOR_SIZE = region b2 FAT1_SECTOR SECTOR_SIZE"
    using l2 len by (intro region_eqI) (simp_all add: b2n)
  have P7: "drop 1024 b2 = drop 1024 buf"
  proof (rule nth_equalityI)
    show "length (drop 1024 b2) = length (drop 1024 buf)" using l2 by simp
  next
    fix j assume "j < length (drop 1024 b2)"
    then have jl: "1024 + j < length buf" using l2 by simp
    have "3 + (3 * n + 1) div 2 \<le> 1024 + j" using \<open>n \<le> 339\<close> by arith
    then have "b1 ! (1024 + j) = b0 ! (1024 + j)" by (intro bytes) simp
    then have "b2 ! (1024 + j) = buf ! (1024 + j)" using jl by (simp add: b2n b0n)
    then show "drop 1024 b2 ! j = drop 1024 buf ! j" using jl l2 by simp
  qed
  show ?thesis using res l2 P1 P2 P3 P4 P5 P6 P7 unfolding n_def by blast
qed

subsection \<open>Reading\<close>

lemma BOOT_SEC_bpb:
  "le16 BOOT_SEC 11 = 512 \<and> BOOT_SEC ! 13 = 1 \<and> le16 BOOT_SEC 14 = 8 \<and> BOOT_SEC ! 16 = 2
   \<and> le16 BOOT_SEC 17 = 512 \<and> le16 BOOT_SEC 19 = 80 \<and> BOOT_SEC ! 21 = 0xF8
   \<and> le16 BOOT_SEC 22 = 12 \<and> le32 BOOT_SEC 32 = 0
   \<and> region BOOT_SEC 54 8 = [0x46, 0x41, 0x54, 0x31, 0x32, 0x20, 0x20, 0x20]"
  by (simp add: BOOT_SEC_def le16_def le32_def region_def)

text \<open>
  C3, as the code has it. For every sector index \<open>s\<close>, \<open>read_sector\<close> returns the state
  it was given and 512 bytes: the boot sector at 0, the FAT1, FAT2 and root-directory
  mirrors at 8, 20 and 32, the 512 file-data bytes at offset \<open>(s - 64) * 512\<close> for a data
  sector inside the file region, and zeros for every other sector. The boot sector's BPB
  gives 512-byte sectors, 1 sector per cluster, 8 reserved sectors, 2 FATs of 12 sectors,
  512 root entries, media byte 0xF8 and the type "FAT12   "; its 16-bit total-sector
  field is 80 (0x50, 0x00) and its 32-bit one is 0, not 4096.
\<close>

theorem read_sector_contents:
  assumes "length (disk_buffer st) = DISK_BUFFER_SIZE"
  shows "snd (read_sector st s) = st
    \<and> length (fst (read_sector st s)) = SECTOR_SIZE
    \<and> (s = 0 \<longrightarrow> fst (read_sector st s) = BOOT_SEC)
    \<and> (s = 8 \<longrightarrow> fst (read_sector st s) = region (disk_buffer st) FAT1_SECTOR SECTOR_SIZE)
    \<and> (s = 20 \<longrightarrow> fst (read_sector st s) = region (disk_buffer st) FAT2_SECTOR SECTOR_SIZE)
    \<and> (s = 32 \<longrightarrow> fst (read_sector st s) = region (disk_buffer st) ROOT_SECTOR SECTOR_SIZE)
    \<and> (64 \<le> s \<and> (s - 64) * SECTOR_SIZE + SECTOR_SIZE \<le> FILE_SECTOR_SIZE \<longrightarrow>
         fst (read_sector st s)
           = region (disk_buffer st) (FILE_SECTOR + (s - 64) * SECTOR_SIZE) SECTOR_SIZE)
    \<and> (s \<notin> {0, 8, 20, 32}
         \<and> \<not> (64 \<le> s \<and> (s - 64) * SECTOR_SIZE + SECTOR_SIZE \<le> FILE_SECTOR_SIZE) \<longrightarrow>
         fst (read_sector st s) = replicate SECTOR_SIZE 0)
    \<and> le16 BOOT_SEC 11 = 512 \<and> BOOT_SEC ! 13 = 1 \<and> le16 BOOT_SEC 14 = 8 \<and> BOOT_SEC ! 16 = 2
    \<and> le16 BOOT_SEC 22 = 12 \<and> le16 BOOT_SEC 17 = 512 \<and> BOOT_SEC ! 21 = 0xF8
    \<and> region BOOT_SEC 54 8 = [0x46, 0x41, 0x54, 0x31, 0x32, 0x20, 0x20, 0x20]
    \<and> le16 BOOT_SEC 19 = 80 \<and> le32 BOOT_SEC 32 = 0"
  using assms BOOT_SEC_bpb
  by (auto simp: read_sector_def Let_def BOOT_SEC_length length_region)

theorem read_sector_contents_witness:
  "fst (read_sector (power_on [] ()) 64) = replicate 512 0
   \<and> fst (read_sector (power_on [] ()) 0) = BOOT_SEC
   \<and> snd (read_sector (power_on [] ()) 64) = power_on [] ()"
  using read_sector_contents [of "power_on [] ()" 64] read_sector_contents [of "power_on [] ()" 0]
  by (simp add: power_on_def region_def)

text \<open>C3 as stated fails at sector 0: neither total-sector field of the boot sector
  that \<open>read_sector\<close> returns holds 4096.\<close>

theorem read_sector_total_sectors_counterexample:
  "le16 (fst (read_sector (power_on [] ()) 0)) 19 \<noteq> 4096
   \<and> le32 (fst (read_sector (power_on [] ()) 0)) 32 \<noteq> 4096"
  by (simp add: read_sector_def BOOT_SEC_def le16_def le32_def)

subsection \<open>The FAT chain\<close>

text \<open>
  C4, as the code has it. For every \<open>size_bytes\<close> of at most 173568 (at most 339 clusters,
  so that the chain stays inside the 512-byte FAT1 sector), \<open>update_fat_chain\<close> returns,
  leaves FAT1 bytes 0..2 unchanged, and with \<open>n = max 1 (ceil (size_bytes / 512))\<close> the
  FAT12 entry of cluster \<open>2 + i\<close> is \<open>3 + i\<close> for \<open>i < n - 1\<close> and 0xFFF for \<open>i = n - 1\<close>;
  every entry past the chain (up to cluster 340, the last entry of the sector) reads 0
  and every byte of FAT1 past the chain is 0; FAT2 is byte-identical to FAT1 and nothing
  beyond the two FAT sectors changes. Every \<open>set_fat12_entry\<close> write changes the two
  bytes of its entry only, and of the byte it shares with the neighbouring entry only
  its own four bits.
\<close>

theorem update_fat_chain_layout:
  assumes "length buf = DISK_BUFFER_SIZE" and "unat size_bytes \<le> 173568"
  shows "\<exists>buf'. update_fat_chain size_bytes buf = Inr buf' \<and> length buf' = length buf
     \<and> region buf' FAT1_SECTOR 3 = region buf FAT1_SECTOR 3
     \<and> (\<forall>i < max 1 ((unat size_bytes + 511) div 512) - 1.
           fat12_entry buf' FAT1_SECTOR (2 + i) = of_nat (3 + i))
     \<and> fat12_entry buf' FAT1_SECTOR (2 + (max 1 ((unat size_bytes + 511) div 512) - 1)) = 0xFFF
     \<and> (\<forall>c. 2 + max 1 ((unat size_bytes + 511) div 512) \<le> c \<and> c \<le> 340 \<longrightarrow>
           fat12_entry buf' FAT1_SECTOR c = 0)
     \<and> (\<forall>j. 3 + (3 * max 1 ((unat size_bytes + 511) div 512) + 1) div 2 \<le> j \<and> j < 512 \<longrightarrow>
           buf' ! j = 0)
     \<and> region buf' FAT2_SECTOR SECTOR_SIZE = region buf' FAT1_SECTOR SECTOR_SIZE
     \<and> drop 1024 buf' = drop 1024 buf
     \<and> (\<forall>b fat c v b'. set_fat12_entry b fat c v = Inr b' \<longrightarrow>
           (\<forall>j. j \<noteq> fat + (unat c + unat c div 2) \<and> j \<noteq> fat + (unat c + unat c div 2) + 1 \<longrightarrow>
                b' ! j = b ! j)
           \<and> (odd (unat c) \<longrightarrow>
                b' ! (fat + (unat c + unat c div 2)) AND 0x0F
                  = b ! (fat + (unat c + unat c div 2)) AND 0x0F)
           \<and> (even (unat c) \<longrightarrow>
                b' ! (fat + (unat c + unat c div 2) + 1) AND 0xF0
                  = b ! (fat + (unat c + unat c div 2) + 1) AND 0xF0))"
proof -
  have n: "clusters_for size_bytes = max 1 ((unat size_bytes + 511) div 512)"
    using assms(2) by (rule clusters_for_small)
  have "1024 \<le> length buf" using assms(1) by simp
  moreover have "clusters_for size_bytes \<le> 339" unfolding n using assms(2) by simp
  ultimately have main: "\<exists>buf'. update_fat_chain size_bytes buf = Inr buf' \<and> length buf' = length buf
     \<and> region buf' FAT1_SECTOR 3 = region buf FAT1_SECTOR 3
     \<and> (\<forall>i < clusters_for size_bytes - 1. fat12_entry buf' FAT1_SECTOR (2 + i) = of_nat (3 + i))
     \<and> fat12_entry buf' FAT1_SECTOR (2 + (clusters_for size_bytes - 1)) = 0xFFF
     \<and> (\<forall>c. 2 + clusters_for size_bytes \<le> c \<and> c \<le> 340 \<longrightarrow> fat12_entry buf' FAT1_SECTOR c = 0)
     \<and> (\<forall>j. 3 + (3 * clusters_for size_bytes + 1) div 2 \<le> j \<and> j < 512 \<longrightarrow> buf' ! j = 0)
     \<and> region buf' FAT2_SECTOR SECTOR_SIZE = region buf' FAT1_SECTOR SECTOR_SIZE
     \<and> drop 1024 buf' = drop 1024 buf"
    by (rule update_fat_chain_by_clusters)
  have nib: "\<forall>b fat c v b'. set_fat12_entry b fat c v = Inr b' \<longrightarrow>
           (\<forall>j. j \<noteq> fat + (unat c + unat c div 2) \<and> j \<noteq> fat + (unat c + unat c div 2) + 1 \<longrightarrow>
                b' ! j = b ! j)
           \<and> (odd (unat c) \<longrightarrow>
                b' ! (fat + (unat c + unat c div 2)) AND 0x0F
                  = b ! (fat + (unat c + unat c div 2)) AND 0x0F)
           \<and> (even (unat c) \<longrightarrow>
                b' ! (fat + (unat c + unat c div 2) + 1) AND 0xF0
                  = b ! (fat + (unat c + unat c div 2) + 1) AND 0xF0)"
  proof (intro allI impI conjI)
    fix b fat c v b' j
    assume s: "set_fat12_entry b fat c v = Inr b'"
    note rd = set_fat12_entry_reads [OF s]
    { assume "j \<noteq> fat + (unat c + unat c div 2) \<and> j \<noteq> fat + (unat c + unat c div 2) + 1"
      then show "b' ! j = b ! j" using rd(6) by blast }
    { assume o: "odd (unat c)"
      show "b' ! (fat + (unat c + unat c div 2)) AND 0x0F = b ! (fat + (unat c + unat c div 2)) AND 0x0F"
        unfolding rd(2) [OF o] by (rule keep_low) }
    { assume e: "even (unat c)"
      show "b' ! (fat + (unat c + unat c div 2) + 1) AND 0xF0 = b ! (fat + (unat c + unat c div 2) + 1) AND 0xF0"
        unfolding rd(5) [OF e] by (rule keep_highmask) }
  qed
  show ?thesis using main nib unfolding n by blast
qed

text \<open>A 600-byte file: cluster 2 points to 3, cluster 3 ends the chain, cluster 4 is
  free.\<close>

theorem update_fat_chain_layout_witness:
  "fat12_entry (projr (update_fat_chain 600 (replicate DISK_BUFFER_SIZE 0))) FAT1_SECTOR 2 = 3
   \<and> fat12_entry (projr (update_fat_chain 600 (replicate DISK_BUFFER_SIZE 0))) FAT1_SECTOR 3 = 0xFFF
   \<and> fat12_entry (projr (update_fat_chain 600 (replicate DISK_BUFFER_SIZE 0))) FAT1_SECTOR 4 = 0"
proof -
  have "length (replicate DISK_BUFFER_SIZE (0::u8)) = DISK_BUFFER_SIZE" "unat (600::u32) \<le> 173568"
    by simp_all
  from update_fat_chain_layout [OF this]
  obtain buf' where r: "update_fat_chain 600 (replicate DISK_BUFFER_SIZE 0) = Inr buf'"
    and a: "\<forall>i < max 1 ((unat (600::u32) + 511) div 512) - 1.
           fat12_entry buf' FAT1_SECTOR (2 + i) = of_nat (3 + i)"
    and b: "fat12_entry buf' FAT1_SECTOR (2 + (max 1 ((unat (600::u32) + 511) div 512) - 1)) = 0xFFF"
    and c: "\<forall>c. 2 + max 1 ((unat (600::u32) + 511) div 512) \<le> c \<and> c \<le> 340 \<longrightarrow>
           fat12_entry buf' FAT1_SECTOR c = 0"
    by blast
  have n: "max 1 ((unat (600::u32) + 511) div 512) = 2" by simp
  have "fat12_entry buf' FAT1_SECTOR (2 + 0) = of_nat (3 + 0)" using a unfolding n by simp
  moreover have "fat12_entry buf' FAT1_SECTOR (2 + (2 - 1)) = 0xFFF" using b unfolding n .
  moreover have "fat12_entry buf' FAT1_SECTOR 4 = 0" using c unfolding n by simp
  ultimately show ?thesis using r by simp
qed

text \<open>C4 as stated fails where the 32-bit sum \<open>file_size + 511\<close> wraps: for
  \<open>size_bytes = 0xFFFFFFFF\<close> the claim's \<open>n\<close> is 8388608, so the entry of cluster 2 should be
  3, and the code computes one cluster and stores the end-of-chain mark there.\<close>

lemma clusters_for_wraps: "clusters_for 0xFFFFFFFF = 1"
  by (simp add: clusters_for_def)

theorem update_fat_chain_wrap_counterexample:
  "fat12_entry (projr (update_fat_chain 0xFFFFFFFF (replicate DISK_BUFFER_SIZE 0))) FAT1_SECTOR 2 = 0xFFF
   \<and> max 1 ((unat (0xFFFFFFFF :: u32) + 511) div 512) = 8388608"
proof -
  have "1024 \<le> length (replicate DISK_BUFFER_SIZE (0::u8))" "clusters_for 0xFFFFFFFF \<le> 339"
    by (simp_all add: clusters_for_wraps)
  from update_fat_chain_by_clusters [OF this]
  obtain buf' where r: "update_fat_chain 0xFFFFFFFF (replicate DISK_BUFFER_SIZE 0) = Inr buf'"
    and b: "fat12_entry buf' FAT1_SECTOR (2 + (clusters_for 0xFFFFFFFF - 1)) = 0xFFF"
    by blast
  show ?thesis using r b by (simp add: clusters_for_wraps)
qed

subsection \<open>Flash programming\<close>

lemma program_loop_length:
  "base + nbytes \<le> length fl \<Longrightarrow> even nbytes \<Longrightarrow> even j \<Longrightarrow>
   length (program_loop h buf base nbytes j fl) = length fl"
proof (induction h buf base nbytes j fl rule: program_loop.induct)
  case (1 h buf base nbytes j fl)
  show ?case
  proof (cases "j < nbytes")
    case True
    have "length (write_flash_halfword h fl (base + j) (buf ! (base + j)) (buf ! (base + j + 1))) = length fl"
      by (simp add: write_flash_halfword_def)
    then show ?thesis using True 1 by (subst program_loop.simps) simp
  next
    case False
    then show ?thesis by (subst program_loop.simps) simp
  qed
qed

lemma program_loop_nth:
  assumes "base + nbytes \<le> length fl" "even nbytes" "even j" "k < length fl"
  shows "program_loop h buf base nbytes j fl ! k =
     (if base + j \<le> k \<and> k < base + nbytes \<and> program_ok h (base + 2 * ((k - base) div 2))
      then buf ! k else fl ! k)"
  using assms
proof (induction h buf base nbytes j fl rule: program_loop.induct)
  case (1 h buf base nbytes j fl)
  show ?case
  proof (cases "j < nbytes")
    case True
    let ?fl = "write_flash_halfword h fl (base + j) (buf ! (base + j)) (buf ! (base + j + 1))"
    have j1: "j + 1 < nbytes" using True "1.prems" by presburger
    have lf: "length ?fl = length fl" by (simp add: write_flash_halfword_def)
    have IH: "program_loop h buf base nbytes (j + 2) ?fl ! k =
     (if base + (j + 2) \<le> k \<and> k < base + nbytes \<and> program_ok h (base + 2 * ((k - base) div 2))
      then buf ! k else ?fl ! k)"
      using "1.IH" [OF True] "1.prems" lf by simp
    have step: "program_loop h buf base nbytes j fl = program_loop h buf base nbytes (j + 2) ?fl"
      using True by (subst program_loop.simps) simp
    have fk: "?fl ! k = (if (k = base + j \<or> k = base + j + 1) \<and> program_ok h (base + j) then buf ! k else fl ! k)"
      using "1.prems" j1 by (auto simp: write_flash_halfword_def nth_list_update)
    have d: "base + 2 * ((k - base) div 2) = base + j"
      if "base + j \<le> k" "\<not> base + (j + 2) \<le> k"
    proof -
      from that have "k = base + j \<or> k = base + j + 1" by arith
      then show ?thesis using "1.prems"(3) by auto
    qed
    have e: "k = base + j \<or> k = base + j + 1 \<longleftrightarrow> base + j \<le> k \<and> \<not> base + (j + 2) \<le> k"
      by arith
    show ?thesis
    proof (cases "base + j \<le> k \<and> \<not> base + (j + 2) \<le> k")
      case True
      then show ?thesis unfolding step IH fk e using d j1 by auto
    next
      case False
      then show ?thesis unfolding step IH fk e by auto
    qed
  next
    case False
    then show ?thesis by (subst program_loop.simps) auto
  qed
qed

subsection \<open>Evaluation helpers\<close>

lemma upt16: "[0..<16] = [0,1,2,3,4,5,6,7,8,9,10,11,12,13,14,15]"
  by (simp add: upt_rec)

lemma replicate_neq_Cons: "0 < n \<Longrightarrow> x \<noteq> y \<Longrightarrow> replicate n x \<noteq> y # ys"
  by (cases n) simp_all

lemma commit_nth:
  assumes "base + nbytes \<le> length fl" "even nbytes" "k < length fl"
  shows "program_loop h buf base nbytes 0 (erase_flash_page h fl base nbytes) ! k =
     (if base \<le> k \<and> k < base + nbytes then
        (if program_ok h (base + 2 * ((k - base) div 2)) then buf ! k
         else if erase_ok h base then 0xFF else fl ! k)
      else fl ! k)"
proof -
  have l: "length (erase_flash_page h fl base nbytes) = length fl"
    using assms(1) by (simp add: erase_flash_page_def length_memset_at)
  have e: "erase_flash_page h fl base nbytes ! k =
     (if base \<le> k \<and> k < base + nbytes \<and> erase_ok h base then 0xFF else fl ! k)"
    using assms by (simp add: erase_flash_page_def nth_memset_at)
  show ?thesis
    using program_loop_nth [of base nbytes "erase_flash_page h fl base nbytes" 0 k h buf] assms l e
    by auto
qed

lemma commit_length:
  "base + nbytes \<le> length fl \<Longrightarrow> even nbytes \<Longrightarrow>
   length (program_loop h buf base nbytes 0 (erase_flash_page h fl base nbytes)) = length fl"
  by (simp add: program_loop_length erase_flash_page_def length_memset_at)

lemma commit_failing:
  assumes "base + nbytes \<le> length fl" "even nbytes"
  shows "program_loop hal_failing buf base nbytes 0 (erase_flash_page hal_failing fl base nbytes) = fl"
  using assms by (intro nth_equalityI) (simp_all add: commit_length commit_nth hal_failing_def)


lemma commit_ok_all:
  assumes "length fl = length buf" "even (length buf)" "\<forall>a. program_ok h a"
  shows "program_loop h buf 0 (length buf) 0 (erase_flash_page h fl 0 (length buf)) = buf"
  using assms by (intro nth_equalityI) (simp_all add: commit_length commit_nth)

lemma first_dirty_Some:
  "first_dirty dirty n = Some i \<Longrightarrow> i < n \<and> dirty ! i \<noteq> 0 \<and> (\<forall>j<i. dirty ! j = 0)"
  unfolding first_dirty_def by (auto simp: find_Some_iff)

lemma first_dirty_None:
  "first_dirty dirty n = None \<longleftrightarrow> (\<forall>j<n. dirty ! j = 0)"
  unfolding first_dirty_def by (auto simp: find_None_iff)

subsection \<open>Directory lookup\<close>

lemma unat_u8_less: "unat (b :: u8) < 256"
  using unsigned_less [of b] by simp

lemma unat_ucast_u8_u16: "unat (ucast (b :: u8) :: u16) = unat b"
  using unat_u8_less [of b] by (simp add: unsigned_ucast_eq take_bit_nat_eq_self)

lemma unat_push8_u16: "unat (push_bit 8 (ucast (b :: u8) :: u16)) = 256 * unat b"
proof -
  have "unat (ucast b :: u16) * unat (256 :: u16) < 2 ^ LENGTH(16)"
    using unat_u8_less [of b] by (simp add: unat_ucast_u8_u16)
  then have "unat ((ucast b :: u16) * 256) = unat (ucast b :: u16) * unat (256 :: u16)"
    by (simp only: unat_mult_lem)
  then show ?thesis by (simp add: push_bit_eq_mult unat_ucast_u8_u16)
qed

lemma unat_word16_at: "unat (word16_at buf off) = le16 buf off"
proof -
  let ?a = "ucast (buf ! off) :: u16" and ?b = "push_bit 8 (ucast (buf ! (off + 1))) :: u16"
  have "?a AND ?b = 0"
    by (rule bit_word_eqI) (auto simp: bit_simps dest: bit_imp_le_length)
  then have "?a OR ?b = ?a + ?b" by (simp add: disjunctive_add_eq_or)
  moreover have "unat ?a + unat ?b < 2 ^ LENGTH(16)"
    using unat_u8_less [of "buf ! off"] unat_u8_less [of "buf ! (off + 1)"]
    by (simp add: unat_ucast_u8_u16 unat_push8_u16)
  then have "unat (?a + ?b) = unat ?a + unat ?b" by (simp only: unat_add_lem)
  ultimately show ?thesis
    by (simp add: word16_at_def le16_def unat_ucast_u8_u16 unat_push8_u16)
qed

lemma word16_at_zero: "word16_at buf off = 0 \<longleftrightarrow> le16 buf off = 0"
  using unat_word16_at [of buf off] by (metis unat_eq_0)

lemma find_upt_Some:
  "find P [0..<m] = Some n \<longleftrightarrow> n < m \<and> P n \<and> (\<forall>k<n. \<not> P k)"
proof
  assume "find P [0..<m] = Some n"
  then show "n < m \<and> P n \<and> (\<forall>k<n. \<not> P k)" by (auto simp: find_Some_iff)
next
  assume "n < m \<and> P n \<and> (\<forall>k<n. \<not> P k)"
  then have "\<exists>i<length [0..<m]. P ([0..<m] ! i) \<and> n = [0..<m] ! i \<and> (\<forall>j<i. \<not> P ([0..<m] ! j))"
    by (intro exI [of _ n]) simp
  then show "find P [0..<m] = Some n" by (simp only: find_Some_iff)
qed

lemma find_upt_None: "find P [0..<m] = None \<longleftrightarrow> (\<forall>n<m. \<not> P n)"
  by (auto simp: find_None_iff)

lemma find_file_None:
  "find_file buf CONFIG_FILENAME = None \<longleftrightarrow> (\<forall>n<16. Upper (dir_name buf n) \<noteq> CONFIG_FILENAME)"
  by (auto simp: find_file_def find_upt_None find_upt_Some Let_def split: option.splits)

lemma find_file_Some:
  "find_file buf CONFIG_FILENAME = Some (p, len, n) \<longleftrightarrow>
     n < 16 \<and> Upper (dir_name buf n) = CONFIG_FILENAME
     \<and> (\<forall>k<n. Upper (dir_name buf k) \<noteq> CONFIG_FILENAME)
     \<and> len = word16_at buf (ROOT_SECTOR + n * 32 + 0x1C)
     \<and> p = 512 + 512 * le16 buf (ROOT_SECTOR + n * 32 + 0x1A)"
proof -
  let ?f = "find (\<lambda>n. Upper (dir_name buf n) = CONFIG_FILENAME) [0..<16]"
  have p: "nat (int FILE_SECTOR + (int (unat (word16_at buf (ROOT_SECTOR + n * 32 + 0x1A))) - 2) * int SECTOR_SIZE)
     = 512 + 512 * le16 buf (ROOT_SECTOR + n * 32 + 0x1A)" for n
    unfolding unat_word16_at by simp
  have u: "(n < 16 \<and> Upper (dir_name buf n) = CONFIG_FILENAME
     \<and> (\<forall>k<n. Upper (dir_name buf k) \<noteq> CONFIG_FILENAME)) = (?f = Some n)"
    by (simp add: find_upt_Some)
  have "find_file buf CONFIG_FILENAME = Some (p, len, n) \<longleftrightarrow>
     ?f = Some n \<and> len = word16_at buf (ROOT_SECTOR + n * 32 + 0x1C)
     \<and> p = 512 + 512 * le16 buf (ROOT_SECTOR + n * 32 + 0x1A)"
    unfolding find_file_def Let_def p by (cases ?f) auto
  then show ?thesis unfolding u [symmetric] by blast
qed

subsection \<open>The deferred commit\<close>

lemma rewrite_frame:
  "disk_buffer (rewrite_dirty_flash_pages plat h st) = disk_buffer st
   \<and> page_dirty_mask (rewrite_dirty_flash_pages plat h st)
       = page_dirty_mask (rewrite_dirty_flash_pages plat h2 st)
   \<and> app (rewrite_dirty_flash_pages plat h st) = app st
   \<and> entries (rewrite_dirty_flash_pages plat h st) = entries st
   \<and> pending_flash_write (rewrite_dirty_flash_pages plat h st) = pending_flash_write st
   \<and> last_write_tick (rewrite_dirty_flash_pages plat h st) = last_write_tick st"
  by (simp add: rewrite_dirty_flash_pages_def split: platform.splits option.splits)

lemma region_replicate: "off + n \<le> m \<Longrightarrow> region (replicate m x) off n = replicate n x"
  by (simp add: region_def)

lemma Upper_replicate_0: "Upper (replicate n 0) = replicate n 0"
  by (simp add: Upper_def)

lemma no_config_in_zero_dir:
  "n < 16 \<Longrightarrow> Upper (dir_name (replicate DISK_BUFFER_SIZE 0) n) \<noteq> CONFIG_FILENAME"
  by (simp add: dir_name_def region_replicate Upper_replicate_0 CONFIG_FILENAME_def replicate_neq_Cons)

lemma first_dirty_3: "first_dirty ((replicate PAGE_DIRTY_MASK_SIZE 0)[3 := 1]) PAGE_DIRTY_MASK_SIZE = Some 3"
  unfolding first_dirty_def by (simp add: find_upt_Some nth_list_update)

lemma process_dirty_pending:
  "process STM32F411xE h dirty_pending_state 500 =
     Inr (dirty_pending_state\<lparr>page_dirty_mask := replicate PAGE_DIRTY_MASK_SIZE 0,
            flash := program_loop h (replicate DISK_BUFFER_SIZE 0) 0 DISK_BUFFER_SIZE 0
                       (erase_flash_page h erased_flash 0 DISK_BUFFER_SIZE),
            pending_flash_write := False\<rparr>)"
proof -
  have "find_file (disk_buffer dirty_pending_state) CONFIG_FILENAME = None"
    by (simp add: find_file_None dirty_pending_state_def idle_state_def power_on_def no_config_in_zero_dir)
  then show ?thesis
    by (simp add: process_def rewrite_dirty_flash_pages_def first_dirty_3
        dirty_pending_state_def idle_state_def power_on_def)
qed

text \<open>
  C6, as the code has it. \<open>rewrite_dirty_flash_pages\<close> clears the dirty flag of the page it
  is about to write (the whole mask on the F4) before the erase and reports nothing back,
  so when the deferred commit has fired: the pending flag is clear, every later tick
  leaves the state as it is (nothing is retried), the dirty mask and the mirror after the
  commit are the same whatever the flash operations returned, and the flag of the page
  written is clear also when its erase or its programming failed.
\<close>

theorem flash_failure_is_not_retried:
  assumes "process plat h st now = Inr st'"
    and "pending_flash_write st"
    and "FLASH_WRITE_DELAY_MS \<le> now - last_write_tick st"
  shows "\<not> pending_flash_write st'
    \<and> (\<forall>h2 now2. process plat h2 st' now2 = Inr st')
    \<and> (\<forall>h2. \<exists>st2. process plat h2 st now = Inr st2
           \<and> page_dirty_mask st2 = page_dirty_mask st' \<and> disk_buffer st2 = disk_buffer st')
    \<and> (\<forall>s i. first_dirty (page_dirty_mask s) 16 = Some i \<and> 16 \<le> length (page_dirty_mask s) \<longrightarrow>
           page_dirty_mask (rewrite_dirty_flash_pages STM32F103xB h s) ! i = 0)
    \<and> (\<forall>s i. first_dirty (page_dirty_mask s) PAGE_DIRTY_MASK_SIZE = Some i \<longrightarrow>
           page_dirty_mask (rewrite_dirty_flash_pages STM32F411xE h s)
             = replicate PAGE_DIRTY_MASK_SIZE 0)"
proof -
  define v where "v = (case find_file (disk_buffer st) CONFIG_FILENAME of
                None \<Rightarrow> Inr st
              | Some (p_file, file_len, root_addr) \<Rightarrow>
                  if file_len > 0 then map_sum id fst (validate_file st p_file root_addr)
                  else Inr st)"
  have pr: "process plat k st now =
     (case v of Inl e \<Rightarrow> Inl e
      | Inr st1 \<Rightarrow> Inr ((rewrite_dirty_flash_pages plat k st1)\<lparr>pending_flash_write := False\<rparr>))" for k
    using assms(2,3) by (simp add: process_def v_def)
  from assms(1) obtain st1 where v: "v = Inr st1"
    and st': "st' = (rewrite_dirty_flash_pages plat h st1)\<lparr>pending_flash_write := False\<rparr>"
    unfolding pr by (cases v) auto
  have A: "\<not> pending_flash_write st'" by (simp add: st')
  then have B: "\<forall>h2 now2. process plat h2 st' now2 = Inr st'" by (simp add: process_def)
  have C: "\<forall>h2. \<exists>st2. process plat h2 st now = Inr st2
           \<and> page_dirty_mask st2 = page_dirty_mask st' \<and> disk_buffer st2 = disk_buffer st'"
  proof
    fix h2
    show "\<exists>st2. process plat h2 st now = Inr st2
           \<and> page_dirty_mask st2 = page_dirty_mask st' \<and> disk_buffer st2 = disk_buffer st'"
      using rewrite_frame [of plat h2 st1 h] by (simp add: pr v st' rewrite_frame)
  qed
  have D: "\<forall>s i. first_dirty (page_dirty_mask s) 16 = Some i \<and> 16 \<le> length (page_dirty_mask s) \<longrightarrow>
           page_dirty_mask (rewrite_dirty_flash_pages STM32F103xB h s) ! i = 0"
    by (auto simp: rewrite_dirty_flash_pages_def dest!: first_dirty_Some)
  have E: "\<forall>s i. first_dirty (page_dirty_mask s) PAGE_DIRTY_MASK_SIZE = Some i \<longrightarrow>
           page_dirty_mask (rewrite_dirty_flash_pages STM32F411xE h s)
             = replicate PAGE_DIRTY_MASK_SIZE 0"
    by (simp add: rewrite_dirty_flash_pages_def)
  show ?thesis using A B C D E by blast
qed

text \<open>A commit on the F4 with every flash operation failing, then a tick with a working
  flash.\<close>

theorem flash_failure_is_not_retried_witness:
  "\<not> pending_flash_write (projr (process STM32F411xE hal_failing dirty_pending_state 500))
   \<and> process STM32F411xE hal_ok (projr (process STM32F411xE hal_failing dirty_pending_state 500)) 1000
       = process STM32F411xE hal_failing dirty_pending_state 500"
proof -
  have r: "process STM32F411xE hal_failing dirty_pending_state 500
     = Inr (projr (process STM32F411xE hal_failing dirty_pending_state 500))"
    by (simp add: process_dirty_pending)
  have "pending_flash_write dirty_pending_state"
    "FLASH_WRITE_DELAY_MS \<le> 500 - last_write_tick dirty_pending_state"
    by (simp_all add: dirty_pending_state_def idle_state_def power_on_def)
  note t = flash_failure_is_not_retried [OF r this]
  have a: "\<not> pending_flash_write (projr (process STM32F411xE hal_failing dirty_pending_state 500))"
    using t by blast
  have b: "process STM32F411xE hal_ok (projr (process STM32F411xE hal_failing dirty_pending_state 500)) 1000
     = Inr (projr (process STM32F411xE hal_failing dirty_pending_state 500))"
    using t by blast
  show ?thesis using a b r by metis
qed

text \<open>C6 as stated fails: page 3 is dirty and every erase and program operation of the
  commit fails; afterwards the flag is clear, the flash still holds the erased bytes
  (not the mirror), and the next tick, with a flash that works, writes nothing.\<close>

theorem flash_failure_clears_dirty_counterexample:
  "page_dirty_mask dirty_pending_state ! 3 = 1
   \<and> page_dirty_mask (projr (process STM32F411xE hal_failing dirty_pending_state 500)) ! 3 = 0
   \<and> flash (projr (process STM32F411xE hal_failing dirty_pending_state 500)) = erased_flash
   \<and> disk_buffer (projr (process STM32F411xE hal_failing dirty_pending_state 500)) ! 0 = 0
   \<and> erased_flash ! 0 = 0xFF
   \<and> process STM32F411xE hal_ok (projr (process STM32F411xE hal_failing dirty_pending_state 500)) 1000
       = process STM32F411xE hal_failing dirty_pending_state 500"
proof -
  have f: "program_loop hal_failing (replicate DISK_BUFFER_SIZE 0) 0 DISK_BUFFER_SIZE 0
                       (erase_flash_page hal_failing erased_flash 0 DISK_BUFFER_SIZE) = erased_flash"
    by (rule commit_failing) (simp_all add: erased_flash_def)
  have r: "process STM32F411xE hal_failing dirty_pending_state 500
     = Inr (dirty_pending_state\<lparr>page_dirty_mask := replicate PAGE_DIRTY_MASK_SIZE 0,
            flash := erased_flash, pending_flash_write := False\<rparr>)"
    unfolding process_dirty_pending f ..
  have 1: "page_dirty_mask dirty_pending_state ! 3 = 1"
    by (simp add: dirty_pending_state_def)
  have 2: "disk_buffer dirty_pending_state ! 0 = 0"
    by (simp add: dirty_pending_state_def idle_state_def power_on_def)
  have 3: "erased_flash ! 0 = 0xFF" by (simp add: erased_flash_def)
  have 4: "process STM32F411xE hal_ok
      (dirty_pending_state\<lparr>page_dirty_mask := replicate PAGE_DIRTY_MASK_SIZE 0,
            flash := erased_flash, pending_flash_write := False\<rparr>) 1000
     = Inr (dirty_pending_state\<lparr>page_dirty_mask := replicate PAGE_DIRTY_MASK_SIZE 0,
            flash := erased_flash, pending_flash_write := False\<rparr>)"
    by (simp add: process_def)
  show ?thesis unfolding r using 1 2 3 4 by simp
qed

text \<open>
  When the deferred commit fires (pending flag set, at least 500 ms since the last
  write, in 32-bit tick arithmetic) and either none of the first 16 directory entries is
  CONFIG.TXT or the low 16 bits of the size of the first such entry are zero,
  \<open>process\<close> is exactly the commit routine applied to the state it was given, followed by
  the clearing of the pending flag: \<open>validate_file\<close> does not run, and the mirror, the
  registry and the application's state are unchanged. What the commit routine writes is
  the subject of the last section.
\<close>

lemma process_skips_validation:
  assumes "pending_flash_write st"
    and "FLASH_WRITE_DELAY_MS \<le> now - last_write_tick st"
    and "(\<forall>n<16. Upper (dir_name (disk_buffer st) n) \<noteq> CONFIG_FILENAME)
       \<or> (\<exists>n<16. Upper (dir_name (disk_buffer st) n) = CONFIG_FILENAME
              \<and> (\<forall>k<n. Upper (dir_name (disk_buffer st) k) \<noteq> CONFIG_FILENAME)
              \<and> le16 (disk_buffer st) (ROOT_SECTOR + n * 32 + 0x1C) = 0)"
  shows "process plat h st now
           = Inr ((rewrite_dirty_flash_pages plat h st)\<lparr>pending_flash_write := False\<rparr>)
     \<and> disk_buffer (rewrite_dirty_flash_pages plat h st) = disk_buffer st
     \<and> app (rewrite_dirty_flash_pages plat h st) = app st
     \<and> entries (rewrite_dirty_flash_pages plat h st) = entries st"
proof -
  have frame: "disk_buffer (rewrite_dirty_flash_pages plat h st) = disk_buffer st
     \<and> app (rewrite_dirty_flash_pages plat h st) = app st
     \<and> entries (rewrite_dirty_flash_pages plat h st) = entries st"
    by (simp add: rewrite_dirty_flash_pages_def split: platform.splits option.splits)
  from assms(3) show ?thesis
  proof
    assume "\<forall>n<16. Upper (dir_name (disk_buffer st) n) \<noteq> CONFIG_FILENAME"
    then have "find_file (disk_buffer st) CONFIG_FILENAME = None" by (simp add: find_file_None)
    then show ?thesis using assms(1,2) frame by (simp add: process_def)
  next
    assume "\<exists>n<16. Upper (dir_name (disk_buffer st) n) = CONFIG_FILENAME
              \<and> (\<forall>k<n. Upper (dir_name (disk_buffer st) k) \<noteq> CONFIG_FILENAME)
              \<and> le16 (disk_buffer st) (ROOT_SECTOR + n * 32 + 0x1C) = 0"
    then obtain n where n: "n < 16" "Upper (dir_name (disk_buffer st) n) = CONFIG_FILENAME"
      "\<forall>k<n. Upper (dir_name (disk_buffer st) k) \<noteq> CONFIG_FILENAME"
      "le16 (disk_buffer st) (ROOT_SECTOR + n * 32 + 0x1C) = 0" by blast
    then have "find_file (disk_buffer st) CONFIG_FILENAME
        = Some (512 + 512 * le16 (disk_buffer st) (ROOT_SECTOR + n * 32 + 0x1A), 0, n)"
      by (simp add: find_file_Some word16_at_zero)
    then show ?thesis using assms(1,2) frame by (simp add: process_def)
  qed
qed

text \<open>No directory entry at all, page 3 dirty: the commit on the F4 rewrites the region
  from the mirror and clears the mask and the pending flag.\<close>

lemma process_skips_validation_F4:
  "process STM32F411xE hal_ok dirty_pending_state 500
     = Inr (dirty_pending_state\<lparr>page_dirty_mask := replicate PAGE_DIRTY_MASK_SIZE 0,
              flash := replicate DISK_BUFFER_SIZE 0, pending_flash_write := False\<rparr>)"
proof -
  have 1: "pending_flash_write dirty_pending_state"
    and 2: "FLASH_WRITE_DELAY_MS \<le> 500 - last_write_tick dirty_pending_state"
    and 3: "(\<forall>n<16. Upper (dir_name (disk_buffer dirty_pending_state) n) \<noteq> CONFIG_FILENAME)
       \<or> (\<exists>n<16. Upper (dir_name (disk_buffer dirty_pending_state) n) = CONFIG_FILENAME
              \<and> (\<forall>k<n. Upper (dir_name (disk_buffer dirty_pending_state) k) \<noteq> CONFIG_FILENAME)
              \<and> le16 (disk_buffer dirty_pending_state) (ROOT_SECTOR + n * 32 + 0x1C) = 0)"
    by (simp_all add: dirty_pending_state_def idle_state_def power_on_def no_config_in_zero_dir)
  have c: "program_loop hal_ok (replicate DISK_BUFFER_SIZE 0) 0 DISK_BUFFER_SIZE 0
      (erase_flash_page hal_ok erased_flash 0 DISK_BUFFER_SIZE) = replicate DISK_BUFFER_SIZE 0"
    using commit_ok_all [of erased_flash "replicate DISK_BUFFER_SIZE 0" hal_ok]
    by (simp add: erased_flash_def hal_ok_def)
  have "rewrite_dirty_flash_pages STM32F411xE hal_ok dirty_pending_state
     = dirty_pending_state\<lparr>page_dirty_mask := replicate PAGE_DIRTY_MASK_SIZE 0,
              flash := replicate DISK_BUFFER_SIZE 0\<rparr>"
    unfolding rewrite_dirty_flash_pages_def
    by (simp add: first_dirty_3 c dirty_pending_state_def idle_state_def power_on_def)
  then show ?thesis
    using process_skips_validation [OF 1 2 3, of STM32F411xE hal_ok] by simp
qed

subsection \<open>Writing the root directory\<close>

lemma well_sized_power_on: "length fl = DISK_BUFFER_SIZE \<Longrightarrow> well_sized (power_on fl a)"
  by (simp add: well_sized_def power_on_def)

lemma well_sized_idle: "well_sized idle_state"
  by (simp add: idle_state_def well_sized_power_on erased_flash_def)

lemma region_memcpy_at_inside:
  "off + length src \<le> length buf \<Longrightarrow> a + n \<le> length src \<Longrightarrow>
   region (memcpy_at buf off src) (off + a) n = region src a n"
  by (simp add: region_def memcpy_at_def)

lemma region_memcpy_at_whole:
  "off + length src \<le> length buf \<Longrightarrow> region (memcpy_at buf off src) off (length src) = src"
  by (simp add: region_def memcpy_at_def)

lemma scanned_filesize_low: "scanned_filesize buf e = buf ! (e + 0x1C)"
  unfolding scanned_filesize_def
  by (rule bit_word_eqI) (auto simp: bit_simps dest: bit_imp_le_length)

lemma le16_zero: "le16 buf off = 0 \<longleftrightarrow> buf ! off = 0 \<and> buf ! (off + 1) = 0"
  by (auto simp: le16_def unat_eq_0)

text \<open>A call with one sector.\<close>

lemma write_sector_single:
  assumes "well_sized st" "length buff = SECTOR_SIZE" "diskaddr < 2 ^ 32"
  shows "write_sector plat st buff diskaddr 1 now =
    (case write_one_sector plat
            (st\<lparr>disk_buffer_temp := buff @ drop SECTOR_SIZE (disk_buffer_temp st)\<rparr>) diskaddr 0 of
       Inl e \<Rightarrow> Inl e
     | Inr st' \<Rightarrow> Inr (st'\<lparr>pending_flash_write := True, last_write_tick := now\<rparr>))"
  using assms
  by (simp add: write_sector_def well_sized_def memcpy_at_def Let_def
      write_sector_loop.simps [of _ _ _ _ 0] write_sector_loop.simps [of _ _ _ _ "Suc 0"]
      split: sum.splits)

lemma sector_data_single:
  assumes "length buff = SECTOR_SIZE"
  shows "sector_data_of (st\<lparr>disk_buffer_temp := buff @ rest\<rparr>) 0 = Inr buff"
  using assms by (simp add: sector_data_of_def region_def)

lemma write_root_single:
  assumes "well_sized st" "length buff = SECTOR_SIZE"
  shows "write_sector plat st buff 32 1 now =
     Inr ((write_root_sector (st\<lparr>disk_buffer_temp := buff @ drop SECTOR_SIZE (disk_buffer_temp st)\<rparr>) buff)
            \<lparr>pending_flash_write := True, last_write_tick := now\<rparr>)"
  using write_sector_single [OF assms, of 32 plat now] assms(2)
  by (simp add: write_one_sector_def with_sector_data_def sector_data_single)

lemma write_root_sector_differs:
  assumes "length (disk_buffer st) = DISK_BUFFER_SIZE" "length (page_dirty_mask st) = PAGE_DIRTY_MASK_SIZE"
    and "length sd = SECTOR_SIZE" and "sd \<noteq> region (disk_buffer st) ROOT_SECTOR SECTOR_SIZE"
  shows "region (disk_buffer (write_root_sector st sd)) ROOT_SECTOR SECTOR_SIZE = sd"
    and "\<And>n. n < 16 \<Longrightarrow> region sd (n * 32) 11 = CONFIG_FILENAME \<Longrightarrow>
          (\<forall>k<n. region sd (k * 32) 11 \<noteq> CONFIG_FILENAME) \<Longrightarrow> sd ! (n * 32 + 0x1C) = 0 \<Longrightarrow>
          page_dirty_mask (write_root_sector st sd) ! 0 = 0
          \<and> page_dirty_mask (write_root_sector st sd) ! 1 = 0 \<and> txt_flag (write_root_sector st sd) = 0"
    and "\<And>n. n < 16 \<Longrightarrow> region sd (n * 32) 11 = CONFIG_FILENAME \<Longrightarrow>
          (\<forall>k<n. region sd (k * 32) 11 \<noteq> CONFIG_FILENAME) \<Longrightarrow> sd ! (n * 32 + 0x1C) \<noteq> 0 \<Longrightarrow>
          page_dirty_mask (write_root_sector st sd) ! 0 = 1
          \<and> page_dirty_mask (write_root_sector st sd) ! 1 = 1 \<and> txt_flag (write_root_sector st sd) = 1"
    and "(\<forall>n<16. region sd (n * 32) 11 \<noteq> CONFIG_FILENAME) \<Longrightarrow> txt_flag st = 1 \<Longrightarrow>
          page_dirty_mask (write_root_sector st sd) ! 0 = 0
          \<and> page_dirty_mask (write_root_sector st sd) ! 1 = 0 \<and> txt_flag (write_root_sector st sd) = 0"
    and "(\<forall>n<16. region sd (n * 32) 11 \<noteq> CONFIG_FILENAME) \<Longrightarrow> txt_flag st \<noteq> 1 \<Longrightarrow>
          page_dirty_mask (write_root_sector st sd) ! 0 = 1
          \<and> page_dirty_mask (write_root_sector st sd) ! 1 = 1
          \<and> txt_flag (write_root_sector st sd) = txt_flag st"
proof -
  define buf where "buf = memcpy_at (disk_buffer st) ROOT_SECTOR sd"
  let ?hit = "find (\<lambda>i. region buf (ROOT_SECTOR + i * 32) 11 = CONFIG_FILENAME) [0..<16]"
  have reg: "region buf (ROOT_SECTOR + i * 32) 11 = region sd (i * 32) 11" if "i < 16" for i
    unfolding buf_def using assms(1,3) that by (intro region_memcpy_at_inside) simp_all
  have byte: "buf ! (ROOT_SECTOR + i * 32 + 0x1C) = sd ! (i * 32 + 0x1C)" if "i < 16" for i
    unfolding buf_def using assms(1,3) that by (simp add: nth_memcpy_at add.commute)
  have hitS: "?hit = Some n \<longleftrightarrow> n < 16 \<and> region sd (n * 32) 11 = CONFIG_FILENAME
       \<and> (\<forall>k<n. region sd (k * 32) 11 \<noteq> CONFIG_FILENAME)" for n
    unfolding find_upt_Some using reg by auto
  have hitN: "?hit = None \<longleftrightarrow> (\<forall>n<16. region sd (n * 32) 11 \<noteq> CONFIG_FILENAME)"
    unfolding find_upt_None using reg by auto
  show "region (disk_buffer (write_root_sector st sd)) ROOT_SECTOR SECTOR_SIZE = sd"
    using assms region_memcpy_at_whole [of ROOT_SECTOR sd "disk_buffer st"]
    by (simp add: write_root_sector_def Let_def)
  { fix n assume n: "n < 16" "region sd (n * 32) 11 = CONFIG_FILENAME"
      "\<forall>k<n. region sd (k * 32) 11 \<noteq> CONFIG_FILENAME"
    then have h: "?hit = Some n" by (simp add: hitS)
    { assume "sd ! (n * 32 + 0x1C) = 0"
      then show "page_dirty_mask (write_root_sector st sd) ! 0 = 0
          \<and> page_dirty_mask (write_root_sector st sd) ! 1 = 0 \<and> txt_flag (write_root_sector st sd) = 0"
        using assms h byte [OF n(1)]
        by (simp add: write_root_sector_def Let_def buf_def [symmetric] scanned_filesize_low) }
    { assume "sd ! (n * 32 + 0x1C) \<noteq> 0"
      then show "page_dirty_mask (write_root_sector st sd) ! 0 = 1
          \<and> page_dirty_mask (write_root_sector st sd) ! 1 = 1 \<and> txt_flag (write_root_sector st sd) = 1"
        using assms h byte [OF n(1)]
        by (simp add: write_root_sector_def Let_def buf_def [symmetric] scanned_filesize_low) } }
  { assume "\<forall>n<16. region sd (n * 32) 11 \<noteq> CONFIG_FILENAME"
    then have h: "?hit = None" by (simp add: hitN)
    { assume "txt_flag st = 1"
      then show "page_dirty_mask (write_root_sector st sd) ! 0 = 0
          \<and> page_dirty_mask (write_root_sector st sd) ! 1 = 0 \<and> txt_flag (write_root_sector st sd) = 0"
        using assms h by (simp add: write_root_sector_def Let_def buf_def [symmetric]) }
    { assume "txt_flag st \<noteq> 1"
      then show "page_dirty_mask (write_root_sector st sd) ! 0 = 1
          \<and> page_dirty_mask (write_root_sector st sd) ! 1 = 1
          \<and> txt_flag (write_root_sector st sd) = txt_flag st"
        using assms h by (simp add: write_root_sector_def Let_def buf_def [symmetric]) } }
qed

lemma well_sized_write_root_sector:
  "well_sized st \<Longrightarrow> length sd = SECTOR_SIZE \<Longrightarrow> well_sized (write_root_sector st sd)"
  by (simp add: well_sized_def write_root_sector_def Let_def length_memcpy_at)

lemma config_dir_sector_facts:
  "length (config_dir_sector c s0 s1) = SECTOR_SIZE"
  "region (config_dir_sector c s0 s1) 0 11 = CONFIG_FILENAME"
  "config_dir_sector c s0 s1 ! 28 = s0"
  "config_dir_sector c s0 s1 ! 0 = 0x43"
  "le16 (config_dir_sector c s0 s1) 28 = unat s0 + 256 * unat s1"
  by (simp_all add: config_dir_sector_def CONFIG_FILENAME_def region_def le16_def nth_append)

lemma idle_root: "region (disk_buffer idle_state) ROOT_SECTOR SECTOR_SIZE = replicate SECTOR_SIZE 0"
  by (simp add: idle_state_def power_on_def region_replicate)

lemma config_dir_sector_nonzero: "config_dir_sector c s0 s1 \<noteq> replicate SECTOR_SIZE 0"
proof
  assume "config_dir_sector c s0 s1 = replicate SECTOR_SIZE 0"
  then have "config_dir_sector c s0 s1 ! 0 = replicate SECTOR_SIZE 0 ! 0" by simp
  then show False by (simp add: config_dir_sector_facts)
qed

lemma well_sized_after_root:
  assumes "well_sized st" "length sd = SECTOR_SIZE"
  shows "well_sized ((write_root_sector (st\<lparr>disk_buffer_temp := sd @ drop SECTOR_SIZE (disk_buffer_temp st)\<rparr>) sd)
            \<lparr>pending_flash_write := True, last_write_tick := now\<rparr>)"
proof -
  have "well_sized (st\<lparr>disk_buffer_temp := sd @ drop SECTOR_SIZE (disk_buffer_temp st)\<rparr>)"
    using assms by (simp add: well_sized_def)
  then have "well_sized (write_root_sector (st\<lparr>disk_buffer_temp := sd @ drop SECTOR_SIZE (disk_buffer_temp st)\<rparr>) sd)"
    using assms(2) by (rule well_sized_write_root_sector)
  then show ?thesis by (simp add: well_sized_def)
qed

text \<open>
  C5, as the code has it. A one-sector write to sector 32 whose bytes differ from the
  root-directory mirror overwrites the mirror. If the scan of the 16 entries finds
  CONFIG.TXT (the name compared as it stands) and the low 16 bits of its size are zero,
  the dirty flags of the FAT page and of the root-directory page end clear and
  \<open>txt_flag\<close> is reset, whether or not the file was seen before; if the low byte of the
  size is non-zero both flags end set. If the scan finds no entry, both flags end clear
  when \<open>txt_flag\<close> is still set from an earlier scan, and set otherwise. (A size whose low
  byte is zero and whose second byte is not is left out: \<open>config_filesize\<close> is a \<open>u8\<close>.)
\<close>

theorem root_sector_write_dirty_flags:
  assumes "well_sized st" and "length sd = SECTOR_SIZE"
    and "sd \<noteq> region (disk_buffer st) ROOT_SECTOR SECTOR_SIZE"
  shows "\<exists>st'. write_sector plat st sd 32 1 now = Inr st'
     \<and> region (disk_buffer st') ROOT_SECTOR SECTOR_SIZE = sd
     \<and> (\<forall>n<16. region sd (n * 32) 11 = CONFIG_FILENAME
                 \<and> (\<forall>k<n. region sd (k * 32) 11 \<noteq> CONFIG_FILENAME) \<longrightarrow>
           (le16 sd (n * 32 + 0x1C) = 0 \<longrightarrow>
              page_dirty_mask st' ! 0 = 0 \<and> page_dirty_mask st' ! 1 = 0 \<and> txt_flag st' = 0)
         \<and> (sd ! (n * 32 + 0x1C) \<noteq> 0 \<longrightarrow>
              page_dirty_mask st' ! 0 = 1 \<and> page_dirty_mask st' ! 1 = 1 \<and> txt_flag st' = 1))
     \<and> ((\<forall>n<16. region sd (n * 32) 11 \<noteq> CONFIG_FILENAME) \<longrightarrow>
           (txt_flag st = 1 \<longrightarrow>
              page_dirty_mask st' ! 0 = 0 \<and> page_dirty_mask st' ! 1 = 0 \<and> txt_flag st' = 0)
         \<and> (txt_flag st \<noteq> 1 \<longrightarrow>
              page_dirty_mask st' ! 0 = 1 \<and> page_dirty_mask st' ! 1 = 1
              \<and> txt_flag st' = txt_flag st))"
proof -
  define st0 where "st0 = st\<lparr>disk_buffer_temp := sd @ drop SECTOR_SIZE (disk_buffer_temp st)\<rparr>"
  define st' where
    "st' = (write_root_sector st0 sd)\<lparr>pending_flash_write := True, last_write_tick := now\<rparr>"
  have w: "write_sector plat st sd 32 1 now = Inr st'"
    unfolding st'_def st0_def using assms(1,2) by (rule write_root_single)
  have l: "length (disk_buffer st0) = DISK_BUFFER_SIZE"
    "length (page_dirty_mask st0) = PAGE_DIRTY_MASK_SIZE"
    and d: "sd \<noteq> region (disk_buffer st0) ROOT_SECTOR SECTOR_SIZE"
    and t: "txt_flag st0 = txt_flag st"
    using assms by (simp_all add: st0_def well_sized_def)
  note r = write_root_sector_differs [OF l assms(2) d]
  have f: "disk_buffer st' = disk_buffer (write_root_sector st0 sd)"
    "page_dirty_mask st' = page_dirty_mask (write_root_sector st0 sd)"
    "txt_flag st' = txt_flag (write_root_sector st0 sd)"
    by (simp_all add: st'_def)
  have P2: "(le16 sd (n * 32 + 0x1C) = 0 \<longrightarrow>
              page_dirty_mask st' ! 0 = 0 \<and> page_dirty_mask st' ! 1 = 0 \<and> txt_flag st' = 0)
         \<and> (sd ! (n * 32 + 0x1C) \<noteq> 0 \<longrightarrow>
              page_dirty_mask st' ! 0 = 1 \<and> page_dirty_mask st' ! 1 = 1 \<and> txt_flag st' = 1)"
    if "n < 16" "region sd (n * 32) 11 = CONFIG_FILENAME
                 \<and> (\<forall>k<n. region sd (k * 32) 11 \<noteq> CONFIG_FILENAME)" for n
    using r(2) [of n] r(3) [of n] that unfolding f by (auto simp: le16_zero)
  have P3: "(txt_flag st = 1 \<longrightarrow>
              page_dirty_mask st' ! 0 = 0 \<and> page_dirty_mask st' ! 1 = 0 \<and> txt_flag st' = 0)
         \<and> (txt_flag st \<noteq> 1 \<longrightarrow>
              page_dirty_mask st' ! 0 = 1 \<and> page_dirty_mask st' ! 1 = 1
              \<and> txt_flag st' = txt_flag st)"
    if "\<forall>n<16. region sd (n * 32) 11 \<noteq> CONFIG_FILENAME"
    using r(4) r(5) that unfolding f t by auto
  have P1: "region (disk_buffer st') ROOT_SECTOR SECTOR_SIZE = sd" unfolding f by (rule r(1))
  show ?thesis using w P1 P2 P3 by blast
qed

text \<open>A directory that lists CONFIG.TXT with 9 bytes, written to the idle device.\<close>

theorem root_sector_write_dirty_flags_witness:
  "page_dirty_mask (projr (write_sector STM32F411xE idle_state (config_dir_sector 2 9 0) 32 1 0)) ! 0 = 1
   \<and> page_dirty_mask (projr (write_sector STM32F411xE idle_state (config_dir_sector 2 9 0) 32 1 0)) ! 1 = 1
   \<and> region (disk_buffer (projr (write_sector STM32F411xE idle_state (config_dir_sector 2 9 0) 32 1 0)))
        ROOT_SECTOR SECTOR_SIZE = config_dir_sector 2 9 0"
proof -
  have "config_dir_sector 2 9 0 \<noteq> region (disk_buffer idle_state) ROOT_SECTOR SECTOR_SIZE"
    by (simp add: idle_root config_dir_sector_nonzero)
  from root_sector_write_dirty_flags [OF well_sized_idle config_dir_sector_facts(1) this, of STM32F411xE 0]
  obtain st' where w: "write_sector STM32F411xE idle_state (config_dir_sector 2 9 0) 32 1 0 = Inr st'"
    and r: "region (disk_buffer st') ROOT_SECTOR SECTOR_SIZE = config_dir_sector 2 9 0"
    and h: "\<forall>n<16. region (config_dir_sector 2 9 0) (n * 32) 11 = CONFIG_FILENAME
                 \<and> (\<forall>k<n. region (config_dir_sector 2 9 0) (k * 32) 11 \<noteq> CONFIG_FILENAME) \<longrightarrow>
         (config_dir_sector 2 9 0 ! (n * 32 + 0x1C) \<noteq> 0 \<longrightarrow>
              page_dirty_mask st' ! 0 = 1 \<and> page_dirty_mask st' ! 1 = 1 \<and> txt_flag st' = 1)"
    by blast
  have "page_dirty_mask st' ! 0 = 1 \<and> page_dirty_mask st' ! 1 = 1 \<and> txt_flag st' = 1"
    using h [rule_format, of 0] by (simp add: config_dir_sector_facts)
  then show ?thesis using w r by simp
qed

text \<open>
  C5 as stated fails in both directions of its "previously seen": a directory that lists
  CONFIG.TXT with size 0, written to a device that has never seen the file, clears both
  flags; and after a directory with a 9-byte CONFIG.TXT, a directory without any entry
  (no size field to be zero) clears them too.
\<close>

theorem root_sector_write_never_seen_counterexample:
  "txt_flag idle_state = 0
   \<and> config_dir_sector 2 0 0 \<noteq> region (disk_buffer idle_state) ROOT_SECTOR SECTOR_SIZE
   \<and> page_dirty_mask (projr (write_sector STM32F411xE idle_state (config_dir_sector 2 0 0) 32 1 0)) ! 0 = 0
   \<and> page_dirty_mask (projr (write_sector STM32F411xE idle_state (config_dir_sector 2 0 0) 32 1 0)) ! 1 = 0
   \<and> page_dirty_mask
        (projr (write_sector STM32F411xE
                  (projr (write_sector STM32F411xE idle_state (config_dir_sector 2 9 0) 32 1 0))
                  (replicate SECTOR_SIZE 0) 32 1 0)) ! 0 = 0
   \<and> page_dirty_mask
        (projr (write_sector STM32F411xE
                  (projr (write_sector STM32F411xE idle_state (config_dir_sector 2 9 0) 32 1 0))
                  (replicate SECTOR_SIZE 0) 32 1 0)) ! 1 = 0"
proof -
  let ?i0 = "\<lambda>sd. idle_state\<lparr>disk_buffer_temp := sd @ drop SECTOR_SIZE (disk_buffer_temp idle_state)\<rparr>"
  have li: "length (disk_buffer (?i0 sd)) = DISK_BUFFER_SIZE"
    "length (page_dirty_mask (?i0 sd)) = PAGE_DIRTY_MASK_SIZE" for sd
    using well_sized_idle by (simp_all add: well_sized_def)
  have di: "config_dir_sector c s0 s1 \<noteq> region (disk_buffer (?i0 sd)) ROOT_SECTOR SECTOR_SIZE" for c s0 s1 sd
    using idle_root by (simp add: config_dir_sector_nonzero)
  have t0: "txt_flag idle_state = 0" by (simp add: idle_state_def power_on_def)
  \<comment> \<open>a size-0 entry, CONFIG.TXT never seen before\<close>
  have a: "page_dirty_mask (write_root_sector (?i0 (config_dir_sector 2 0 0)) (config_dir_sector 2 0 0)) ! 0 = 0
     \<and> page_dirty_mask (write_root_sector (?i0 (config_dir_sector 2 0 0)) (config_dir_sector 2 0 0)) ! 1 = 0
     \<and> txt_flag (write_root_sector (?i0 (config_dir_sector 2 0 0)) (config_dir_sector 2 0 0)) = 0"
    by (rule write_root_sector_differs(2) [OF li config_dir_sector_facts(1) di, of 0])
       (simp_all add: config_dir_sector_facts)
  have wa: "write_sector STM32F411xE idle_state (config_dir_sector 2 0 0) 32 1 0
     = Inr ((write_root_sector (?i0 (config_dir_sector 2 0 0)) (config_dir_sector 2 0 0))
              \<lparr>pending_flash_write := True, last_write_tick := 0\<rparr>)"
    by (rule write_root_single [OF well_sized_idle config_dir_sector_facts(1)])
  \<comment> \<open>an entry with 9 bytes, then a directory without the entry\<close>
  define st1 where "st1 = (write_root_sector (?i0 (config_dir_sector 2 9 0)) (config_dir_sector 2 9 0))
              \<lparr>pending_flash_write := True, last_write_tick := 0\<rparr>"
  have w1: "write_sector STM32F411xE idle_state (config_dir_sector 2 9 0) 32 1 0 = Inr st1"
    unfolding st1_def by (rule write_root_single [OF well_sized_idle config_dir_sector_facts(1)])
  have ws1: "well_sized st1"
    unfolding st1_def by (rule well_sized_after_root [OF well_sized_idle config_dir_sector_facts(1)])
  have b1: "page_dirty_mask (write_root_sector (?i0 (config_dir_sector 2 9 0)) (config_dir_sector 2 9 0)) ! 0 = 1
     \<and> page_dirty_mask (write_root_sector (?i0 (config_dir_sector 2 9 0)) (config_dir_sector 2 9 0)) ! 1 = 1
     \<and> txt_flag (write_root_sector (?i0 (config_dir_sector 2 9 0)) (config_dir_sector 2 9 0)) = 1"
    by (rule write_root_sector_differs(3) [OF li config_dir_sector_facts(1) di, of 0])
       (simp_all add: config_dir_sector_facts)
  have r1: "region (disk_buffer st1) ROOT_SECTOR SECTOR_SIZE = config_dir_sector 2 9 0"
  proof -
    have "region (disk_buffer (write_root_sector (?i0 (config_dir_sector 2 9 0)) (config_dir_sector 2 9 0)))
        ROOT_SECTOR SECTOR_SIZE = config_dir_sector 2 9 0"
      by (rule write_root_sector_differs(1) [OF li config_dir_sector_facts(1) di])
    then show ?thesis by (simp add: st1_def)
  qed
  define st1' where "st1' = st1\<lparr>disk_buffer_temp := replicate SECTOR_SIZE 0 @ drop SECTOR_SIZE (disk_buffer_temp st1)\<rparr>"
  have l1: "length (disk_buffer st1') = DISK_BUFFER_SIZE" "length (page_dirty_mask st1') = PAGE_DIRTY_MASK_SIZE"
    using ws1 by (simp_all add: st1'_def well_sized_def)
  have d1: "replicate SECTOR_SIZE 0 \<noteq> region (disk_buffer st1') ROOT_SECTOR SECTOR_SIZE"
    using r1 config_dir_sector_nonzero [of 2 9 0] by (simp add: st1'_def)
  have z: "\<forall>n<16. region (replicate SECTOR_SIZE 0) (n * 32) 11 \<noteq> CONFIG_FILENAME"
    by (simp add: region_replicate CONFIG_FILENAME_def replicate_neq_Cons)
  have t1: "txt_flag st1' = 1" using b1 by (simp add: st1'_def st1_def)
  have b: "page_dirty_mask (write_root_sector st1' (replicate SECTOR_SIZE 0)) ! 0 = 0
     \<and> page_dirty_mask (write_root_sector st1' (replicate SECTOR_SIZE 0)) ! 1 = 0
     \<and> txt_flag (write_root_sector st1' (replicate SECTOR_SIZE 0)) = 0"
    by (rule write_root_sector_differs(4) [OF l1 _ d1 z t1]) simp
  have w2: "write_sector STM32F411xE st1 (replicate SECTOR_SIZE 0) 32 1 0
     = Inr ((write_root_sector st1' (replicate SECTOR_SIZE 0))
              \<lparr>pending_flash_write := True, last_write_tick := 0\<rparr>)"
    unfolding st1'_def by (rule write_root_single [OF ws1]) simp
  have d0: "config_dir_sector 2 0 0 \<noteq> region (disk_buffer idle_state) ROOT_SECTOR SECTOR_SIZE"
    using idle_root by (simp add: config_dir_sector_nonzero)
  show ?thesis unfolding wa w1 sum.sel w2 using t0 a b d0 by simp
qed

subsection \<open>Writing data sectors\<close>

lemma write_data_single:
  assumes "well_sized st" "length sd = SECTOR_SIZE" "64 \<le> s"
    and "(s - 64) * SECTOR_SIZE + SECTOR_SIZE \<le> FILE_SECTOR_SIZE"
  shows "write_sector plat st sd s 1 now =
     Inr ((write_data_sector plat (st\<lparr>disk_buffer_temp := sd @ drop SECTOR_SIZE (disk_buffer_temp st)\<rparr>) s sd)
            \<lparr>pending_flash_write := True, last_write_tick := now\<rparr>)"
proof -
  have "s < 2 ^ 32" "s < SECTOR_CNT" using assms(4) by simp_all
  then show ?thesis
    using write_sector_single [OF assms(1,2), of s plat now] assms(2,3,4)
    by (simp add: write_one_sector_def with_sector_data_def sector_data_single)
qed

lemma unat_write_cluster:
  "64 \<le> s \<Longrightarrow> s < SECTOR_CNT \<Longrightarrow> unat (of_nat (SECTOR_TO_CLUSTER s) :: u16) = s - 64 + 2"
  by (simp only: unat_of_nat SECTOR_TO_CLUSTER_def) simp

lemma data_sector_rejected_iff:
  assumes "64 \<le> s" "s < SECTOR_CNT"
  shows "data_sector_rejected st s sd \<longleftrightarrow>
     \<not> (0 < unat (get_config_start_cluster (disk_buffer st))
          \<and> s - 64 + 2 = unat (get_config_start_cluster (disk_buffer st)))
     \<and> (if s - 64 + 2 = 2 then \<not> looks_like_config (entries st) sd 0
         else 2 < s - 64 + 2 \<and> s - 64 + 2 \<le> 2 + FILE_SECTOR_SIZE div SECTOR_SIZE
              \<and> looks_like_config (entries st) (disk_buffer st) FILE_SECTOR \<and> is_dot_file sd)"
proof -
  define wc :: u16 where "wc = of_nat (SECTOR_TO_CLUSTER s)"
  have u: "unat wc = s - 64 + 2" unfolding wc_def using assms by (rule unat_write_cluster)
  have e: "wc = c \<longleftrightarrow> s - 64 + 2 = unat c" for c
    using u by (auto simp: word_unat_eq_iff)
  have g: "0 < c \<longleftrightarrow> 0 < unat c" for c :: u16 by (simp add: word_less_nat_alt)
  have g2: "2 < wc \<longleftrightarrow> 2 < s - 64 + 2" using u by (simp add: word_less_nat_alt)
  have e2: "wc = 2 \<longleftrightarrow> s - 64 + 2 = 2" using e [of 2] by simp
  show ?thesis
    unfolding data_sector_rejected_def Let_def wc_def [symmetric] e e2 g2 u
    using g [of "get_config_start_cluster (disk_buffer st)"] by auto
qed

text \<open>
  The gatekeeper of a one-sector write to a data sector inside the file region: the
  sector is rejected exactly when its cluster is not the starting cluster the directory
  records for CONFIG.TXT and either the cluster is 2 and the sector does not begin with a
  registered label and \<open>=\<close>, or the cluster lies in (2, 31], the file region begins with a
  registered label and \<open>=\<close>, and the sector looks like a dot file. An accepted sector
  that differs from the mirror is copied to \<open>FILE_SECTOR + (s - 64) * 512\<close> and the flag
  \<open>(s - 64) * 512 div FLASH_PAGE_SIZE + 1\<close> is set; otherwise the mirror and the mask stay
  as they are.
\<close>

lemma data_sector_gatekeeper:
  assumes "well_sized st" "length sd = SECTOR_SIZE" "64 \<le> s"
    and "(s - 64) * SECTOR_SIZE + SECTOR_SIZE \<le> FILE_SECTOR_SIZE"
  shows "\<exists>st'. write_sector plat st sd s 1 now = Inr st'
     \<and> (data_sector_rejected st s sd \<longleftrightarrow>
          \<not> (0 < unat (get_config_start_cluster (disk_buffer st))
               \<and> s - 64 + 2 = unat (get_config_start_cluster (disk_buffer st)))
          \<and> (if s - 64 + 2 = 2 then \<not> looks_like_config (entries st) sd 0
              else 2 < s - 64 + 2 \<and> s - 64 + 2 \<le> 2 + FILE_SECTOR_SIZE div SECTOR_SIZE
                   \<and> looks_like_config (entries st) (disk_buffer st) FILE_SECTOR \<and> is_dot_file sd))
     \<and> (\<not> data_sector_rejected st s sd
          \<and> sd \<noteq> region (disk_buffer st) (FILE_SECTOR + (s - 64) * SECTOR_SIZE) SECTOR_SIZE \<longrightarrow>
            disk_buffer st' = memcpy_at (disk_buffer st) (FILE_SECTOR + (s - 64) * SECTOR_SIZE) sd
            \<and> page_dirty_mask st'
                = (page_dirty_mask st)[(s - 64) * SECTOR_SIZE div FLASH_PAGE_SIZE plat + 1 := 1])
     \<and> (data_sector_rejected st s sd
          \<or> sd = region (disk_buffer st) (FILE_SECTOR + (s - 64) * SECTOR_SIZE) SECTOR_SIZE \<longrightarrow>
            disk_buffer st' = disk_buffer st \<and> page_dirty_mask st' = page_dirty_mask st)"
proof -
  define st0 where "st0 = st\<lparr>disk_buffer_temp := sd @ drop SECTOR_SIZE (disk_buffer_temp st)\<rparr>"
  have w: "write_sector plat st sd s 1 now =
     Inr ((write_data_sector plat st0 s sd)\<lparr>pending_flash_write := True, last_write_tick := now\<rparr>)"
    unfolding st0_def using assms by (rule write_data_single)
  have r: "data_sector_rejected st0 s sd = data_sector_rejected st s sd"
    by (simp add: data_sector_rejected_def st0_def)
  have "s < SECTOR_CNT" using assms(4) by simp
  note c = data_sector_rejected_iff [OF assms(3) this, of st sd]
  let ?differs = "sd \<noteq> region (disk_buffer st) (FILE_SECTOR + (s - 64) * SECTOR_SIZE) SECTOR_SIZE"
  define st' where
    "st' = (write_data_sector plat st0 s sd)\<lparr>pending_flash_write := True, last_write_tick := now\<rparr>"
  have A: "disk_buffer st' = memcpy_at (disk_buffer st) (FILE_SECTOR + (s - 64) * SECTOR_SIZE) sd
            \<and> page_dirty_mask st'
                = (page_dirty_mask st)[(s - 64) * SECTOR_SIZE div FLASH_PAGE_SIZE plat + 1 := 1]"
    if "\<not> data_sector_rejected st s sd \<and> ?differs"
    using that by (simp add: st'_def write_data_sector_def Let_def r) (simp add: st0_def)
  have B: "disk_buffer st' = disk_buffer st \<and> page_dirty_mask st' = page_dirty_mask st"
    if "data_sector_rejected st s sd \<or> \<not> ?differs"
  proof -
    have "write_data_sector plat st0 s sd = st0"
      using that by (auto simp: write_data_sector_def Let_def r) (simp_all add: st0_def)
    then show ?thesis by (simp add: st'_def st0_def)
  qed
  show ?thesis unfolding w st'_def [symmetric] using c A B by blast
qed

lemma idle_get_config: "get_config_start_cluster (disk_buffer idle_state) = 0"
  by (simp add: get_config_start_cluster_def find_upt_None [THEN iffD2] no_config_in_zero_dir
      idle_state_def power_on_def)

lemma idle_no_labels: "looks_like_config (entries idle_state) buf p = False"
  by (simp add: looks_like_config_def empty_entry_def list_ex_iff idle_state_def power_on_def)

lemma idle_sector_65:
  "write_sector STM32F103xB idle_state (replicate SECTOR_SIZE 0x41) 65 1 0 =
     Inr (idle_state\<lparr>disk_buffer := replicate 2048 0 @ replicate 512 0x41 @ replicate 13824 0,
            disk_buffer_temp := replicate 512 0x41 @ replicate 60 0,
            page_dirty_mask := (replicate PAGE_DIRTY_MASK_SIZE 0)[1 := 1],
            pending_flash_write := True, last_write_tick := 0\<rparr>)"
proof -
  have rej: "\<not> data_sector_rejected
       (idle_state\<lparr>disk_buffer_temp := replicate SECTOR_SIZE 0x41 @ drop SECTOR_SIZE (disk_buffer_temp idle_state)\<rparr>)
       65 (replicate SECTOR_SIZE 0x41)"
    using idle_get_config idle_no_labels
    by (simp add: data_sector_rejected_def SECTOR_TO_CLUSTER_def)
  have w: "write_sector STM32F103xB idle_state (replicate SECTOR_SIZE 0x41) 65 1 0 =
     Inr ((write_data_sector STM32F103xB
             (idle_state\<lparr>disk_buffer_temp := replicate SECTOR_SIZE 0x41 @ drop SECTOR_SIZE (disk_buffer_temp idle_state)\<rparr>)
             65 (replicate SECTOR_SIZE 0x41))
            \<lparr>pending_flash_write := True, last_write_tick := 0\<rparr>)"
    by (rule write_data_single [OF well_sized_idle]) simp_all
  show ?thesis
    unfolding w using rej
    by (simp add: write_data_sector_def)
       (simp add: idle_state_def power_on_def memcpy_at_def region_def replicate_add [symmetric])
qed

lemma region_append1: "off + n \<le> length a \<Longrightarrow> region (a @ b) off n = region a off n"
  by (simp add: region_def)

lemma first_dirty_1: "first_dirty ((replicate PAGE_DIRTY_MASK_SIZE 0)[Suc 0 := 1]) 16 = Some (Suc 0)"
  unfolding first_dirty_def by (simp add: find_upt_Some nth_list_update)

lemma replicate_update_same: "(replicate n x)[i := x] = replicate n x"
  by (cases "i < n") (auto simp: list_eq_iff_nth_eq nth_list_update)

text \<open>
  C1 on the F1 build. The idle device receives sector 65 filled with \<open>A\<close>: the sector is
  accepted and lands at offset 0x800 of the mirror, which the 1 KiB flash page 2
  covers, and the flag that is set is the one of page 1. The commit that follows writes
  page 1 and clears the mask and the pending flag: the flash still holds the erased
  bytes where the mirror holds the sector.
\<close>

theorem data_sector_dirty_page_failing_input:
  "region (disk_buffer (projr (write_sector STM32F103xB idle_state (replicate SECTOR_SIZE 0x41) 65 1 0)))
      2048 SECTOR_SIZE = replicate SECTOR_SIZE 0x41
   \<and> (FILE_SECTOR + (65 - 64) * SECTOR_SIZE) div FLASH_PAGE_SIZE STM32F103xB = 2
   \<and> page_dirty_mask (projr (write_sector STM32F103xB idle_state (replicate SECTOR_SIZE 0x41) 65 1 0))
       = (replicate PAGE_DIRTY_MASK_SIZE 0)[1 := 1]
   \<and> page_dirty_mask (projr (write_sector STM32F103xB idle_state (replicate SECTOR_SIZE 0x41) 65 1 0)) ! 2 = 0
   \<and> region (flash (projr (process STM32F103xB hal_ok
         (projr (write_sector STM32F103xB idle_state (replicate SECTOR_SIZE 0x41) 65 1 0)) 500)))
      2048 SECTOR_SIZE = replicate SECTOR_SIZE 0xFF
   \<and> page_dirty_mask (projr (process STM32F103xB hal_ok
         (projr (write_sector STM32F103xB idle_state (replicate SECTOR_SIZE 0x41) 65 1 0)) 500))
       = replicate PAGE_DIRTY_MASK_SIZE 0
   \<and> \<not> pending_flash_write (projr (process STM32F103xB hal_ok
         (projr (write_sector STM32F103xB idle_state (replicate SECTOR_SIZE 0x41) 65 1 0)) 500))"
proof -
  define buf1 :: bytes where "buf1 = replicate 2048 0 @ replicate 512 0x41 @ replicate 13824 0"
  define st1 where "st1 = idle_state\<lparr>disk_buffer := buf1,
            disk_buffer_temp := replicate 512 0x41 @ replicate 60 0,
            page_dirty_mask := (replicate PAGE_DIRTY_MASK_SIZE 0)[1 := 1],
            pending_flash_write := True, last_write_tick := 0\<rparr>"
  have w: "write_sector STM32F103xB idle_state (replicate SECTOR_SIZE 0x41) 65 1 0 = Inr st1"
    unfolding st1_def buf1_def by (rule idle_sector_65)
  have nf: "find_file (disk_buffer st1) CONFIG_FILENAME = None"
    unfolding find_file_None
    by (simp add: st1_def buf1_def dir_name_def region_append1 region_replicate Upper_replicate_0
        CONFIG_FILENAME_def replicate_neq_Cons)
  define fl where "fl = program_loop hal_ok buf1 1024 1024 0 (erase_flash_page hal_ok erased_flash 1024 1024)"
  have p: "process STM32F103xB hal_ok st1 500
     = Inr (st1\<lparr>page_dirty_mask := replicate PAGE_DIRTY_MASK_SIZE 0, flash := fl,
              pending_flash_write := False\<rparr>)"
    using nf
    by (simp add: process_def rewrite_dirty_flash_pages_def)
       (simp add: st1_def idle_state_def power_on_def first_dirty_1 fl_def replicate_update_same)
  have lf: "length fl = DISK_BUFFER_SIZE"
    unfolding fl_def by (simp add: commit_length erased_flash_def)
  have fr: "region fl 2048 SECTOR_SIZE = region erased_flash 2048 SECTOR_SIZE"
  proof (rule region_eqI)
    fix j :: nat assume "j < SECTOR_SIZE"
    then show "fl ! (2048 + j) = erased_flash ! (2048 + j)"
      unfolding fl_def by (subst commit_nth) (simp_all add: erased_flash_def)
  qed (simp_all add: lf erased_flash_def)
  have 1: "region (disk_buffer st1) 2048 SECTOR_SIZE = replicate SECTOR_SIZE 0x41"
    by (simp add: st1_def buf1_def region_def)
  have 2: "page_dirty_mask st1 ! 2 = 0" by (simp add: st1_def)
  have 3: "page_dirty_mask st1 = (replicate PAGE_DIRTY_MASK_SIZE 0)[1 := 1]" by (simp add: st1_def)
  show ?thesis
    unfolding w sum.sel p using 1 2 3 fr by (simp add: erased_flash_def region_replicate)
qed

subsection \<open>Start-up over a valid image\<close>

lemma upt8: "[0..<8] = [0,1,2,3,4,5,6,7]"
  by (simp add: upt_rec)

lemma replicate8: "replicate 8 x = [x,x,x,x,x,x,x,x]"
  by (simp add: numeral_eq_Suc)

lemma replicate7: "replicate 7 x = [x,x,x,x,x,x,x]"
  by (simp add: numeral_eq_Suc)

lemma demo_state_eq:
  "demo_state = (power_on demo_image [0x31])\<lparr>entry_usage_mask := 1,
      entries := demo_entry # replicate 7 empty_entry\<rparr>"
  by (simp add: demo_state_def register_entry_def get_unused_idx_def upt8 power_on_def cstring_def
      demo_entry_def replicate8 replicate7)

lemma demo_image_length: "length demo_image = DISK_BUFFER_SIZE"
  by (simp add: demo_image_def demo_fat_def config_dir_sector_def demo_content_def CONFIG_FILENAME_def)

lemma demo_parts_length [simp]:
  "length demo_fat = 512" "length (config_dir_sector c a b) = 512" "length demo_content = 8"
  by (simp_all add: demo_fat_def config_dir_sector_def demo_content_def CONFIG_FILENAME_def)

lemma demo_load: "load_from_flash demo_state = Inr demo_loaded"
  by (simp add: load_from_flash_def demo_state_eq demo_loaded_def power_on_def demo_image_length region_def)

lemma demo_file_region: "region demo_image FILE_SECTOR FILE_BUFFER_SIZE = demo_content @ replicate 8184 0"
  by (simp add: region_def demo_image_def)

lemma demo_entries: "take FILE_ENTRY_CNT (entries demo_loaded) = demo_entry # replicate 7 empty_entry"
  by (simp add: demo_loaded_def demo_state_eq)

lemma demo_looks: "looks_like_config (demo_entry # replicate 7 empty_entry) demo_image FILE_SECTOR"
  by (simp add: looks_like_config_def label_at_def demo_entry_def region_def demo_image_def demo_content_def nth_append)

lemma demo_select: "select_source demo_loaded FILE_SECTOR = Inr (FILE_SECTOR, demo_image)"
  using demo_looks
  by (simp add: select_source_def Let_def demo_entries) (simp add: demo_loaded_def)

lemma demo_parse:
  "parse_lines (demo_content @ replicate 8184 0) 0 0 (replicate FILE_ENTRY_CNT [])
     = Inr ([0x41, 0x3D, 0x31, 0x09, 0x23, 0x63] # replicate 7 [])"
  by (simp add: parse_lines.simps scan_line.simps demo_content_def replicate8 replicate7)

lemma resolve_skip_empty:
  "\<forall>e \<in> set es. entry e = [] \<Longrightarrow> resolve_entries es k s = s"
  by (induction es arbitrary: k s) (simp_all add: resolve_entry_def split: prod.splits)

lemma rebuild_skip_empty:
  "\<forall>e \<in> set es. entry e = [] \<Longrightarrow> rebuild_file es rows k content = content"
  by (induction es arbitrary: k) simp_all

lemma demo_resolve:
  "resolve_entries (demo_entry # replicate 7 empty_entry) 0
     ([0x41, 0x3D, 0x31, 0x09, 0x23, 0x63] # replicate 7 [], [0x31], False)
   = ([0x41, 0x3D, 0x31] # replicate 7 [], [0x31], False)"
  by (simp add: resolve_skip_empty empty_entry_def)
     (simp add: resolve_entry_def demo_entry_def line_matches_def extract_value_def cstring_def Let_def)

lemma demo_rebuild:
  "rebuild_file (demo_entry # replicate 7 empty_entry) ([0x41, 0x3D, 0x31] # replicate 7 []) 0 []
   = demo_content"
  by (simp add: rebuild_skip_empty empty_entry_def)
     (simp add: demo_entry_def demo_content_def rebuild_skip_empty empty_entry_def)

lemma demo_render:
  "render_lines demo_loaded FILE_SECTOR
     = Inr (demo_image, [0x41, 0x3D, 0x31] # replicate 7 [], [0x31], False)"
  by (simp add: render_lines_def demo_select demo_image_length demo_file_region demo_parse
      demo_entries)
     (simp add: demo_loaded_def demo_state_eq power_on_def demo_resolve [simplified])

lemma demo_image_dir:
  "demo_image ! 1050 = 2" "demo_image ! 1051 = 0" "demo_image ! 1052 = 8" "demo_image ! 1053 = 0"
  "demo_image ! 1054 = 0" "demo_image ! 1055 = 0"
  by (simp_all add: demo_image_def nth_append config_dir_sector_def CONFIG_FILENAME_def)

lemma list_update_same: "xs ! i = v \<Longrightarrow> xs[i := v] = xs"
  by auto

lemma demo_set_dir: "set_dir_entry demo_image ROOT_SECTOR 8 = demo_image"
  by (simp add: set_dir_entry_def list_update_same demo_image_dir)

lemma replicate_509: "replicate 509 (0::u8) = 0 # 0 # replicate 507 0"
proof -
  have "replicate 509 (0::u8) = replicate 2 0 @ replicate 507 0"
    by (simp add: replicate_add [symmetric])
  then show ?thesis by (simp add: numeral_2_eq_2)
qed

lemma demo_memset: "memset_at demo_image 3 0 509 = [0xF8, 0xFF, 0xFF, 0, 0] @ replicate 507 0 @ drop 512 demo_image"
  by (simp add: memset_at_def demo_image_def demo_fat_def replicate_509)

lemma demo_chain:
  "fat_chain_loop 0 1 ([0xF8, 0xFF, 0xFF, 0, 0] @ replicate 507 0 @ drop 512 demo_image)
     = Inr demo_image"
  by (simp add: fat_chain_loop.simps [of 0] fat_chain_loop.simps [of "Suc 0"] set_fat12_entry_def Let_def)
     (simp add: demo_image_def demo_fat_def)

lemma demo_fat_chain: "update_fat_chain 8 demo_image = Inr demo_image"
proof -
  have c: "clusters_for 8 = 1" by (simp add: clusters_for_def)
  have m: "memcpy_at demo_image FAT2_SECTOR (region demo_image FAT1_SECTOR SECTOR_SIZE) = demo_image"
    by (simp add: memcpy_at_def region_def demo_image_def)
  show ?thesis
    unfolding update_fat_chain_def c using demo_memset demo_chain m by simp
qed

lemma demo_file_write:
  "memset_at (memcpy_at demo_image FILE_SECTOR demo_content) 1544 0 14840 = demo_image"
  by (simp add: memset_at_def memcpy_at_def demo_image_def)

lemma demo_validate:
  "validate_file demo_loaded FILE_SECTOR 0
     = Inr (demo_loaded\<lparr>page_dirty_mask := (replicate PAGE_DIRTY_MASK_SIZE 0)[0 := 1, 1 := 1]\<rparr>, False)"
  by (simp add: validate_file_def demo_render demo_entries demo_rebuild demo_image_length
      demo_set_dir demo_fat_chain demo_file_write del: rebuild_file.simps)
     (simp add: demo_loaded_def demo_state_eq power_on_def)

lemma validate_file_frame:
  assumes "validate_file st p r = Inr (st', ill)"
  shows "page_dirty_mask st' = (page_dirty_mask st)[0 := 1, 1 := 1]
     \<and> pending_flash_write st' = pending_flash_write st
     \<and> last_write_tick st' = last_write_tick st
     \<and> entries st' = entries st \<and> flash st' = flash st
     \<and> disk_buffer_temp st' = disk_buffer_temp st
     \<and> txt_flag st' = txt_flag st \<and> Config_flag st' = Config_flag st
     \<and> entry_usage_mask st' = entry_usage_mask st"
  using assms
  by (auto simp: validate_file_def Let_def split: sum.splits prod.splits if_splits)

lemma demo_find_file: "find_file (disk_buffer demo_loaded) CONFIG_FILENAME = Some (FILE_SECTOR, 8, 0)"
proof -
  have "dir_name demo_image 0 = CONFIG_FILENAME"
    by (simp add: dir_name_def region_def demo_image_def config_dir_sector_def CONFIG_FILENAME_def)
  moreover have "Upper CONFIG_FILENAME = CONFIG_FILENAME"
    by (simp add: Upper_def CONFIG_FILENAME_def)
  moreover have "word16_at demo_image 1052 = 8" "le16 demo_image 1050 = 2"
    by (simp_all add: word16_at_def le16_def demo_image_dir)
  ultimately show ?thesis
    by (simp add: find_file_Some demo_loaded_def)
qed

text \<open>
  C7, as the code has it. When the image loaded from flash holds a CONFIG.TXT entry and
  \<open>validate_file\<close> accepts its content (returns not illegal), \<open>init\<close> returns the state
  \<open>validate_file\<close> produced: the dirty flags of page 0 (FAT) and page 1 (root directory)
  are set, since \<open>validate_file\<close> sets them on every run, every other flag is clear, and
  the pending flag and the tick of the last write are what they were, so no flash write is
  scheduled.
\<close>

theorem init_valid_image:
  assumes "load_from_flash st = Inr st1"
    and "find_file (disk_buffer st1) CONFIG_FILENAME = Some (p_file, file_len, root_addr)"
    and "validate_file st1 p_file root_addr = Inr (st2, False)"
  shows "init st now = Inr st2
     \<and> page_dirty_mask st2 = (replicate PAGE_DIRTY_MASK_SIZE 0)[0 := 1, 1 := 1]
     \<and> pending_flash_write st2 = pending_flash_write st
     \<and> last_write_tick st2 = last_write_tick st"
proof -
  have l: "page_dirty_mask st1 = replicate PAGE_DIRTY_MASK_SIZE 0"
    "pending_flash_write st1 = pending_flash_write st" "last_write_tick st1 = last_write_tick st"
    using assms(1) by (auto simp: load_from_flash_def split: if_splits)
  have "init st now = Inr st2"
    using assms by (simp add: init_def flush_file_def)
  then show ?thesis using validate_file_frame [OF assms(3)] l by simp
qed

text \<open>Start-up over the example image: the mirror is the flash image, flags 0 and 1 are
  set.\<close>

theorem init_valid_image_witness:
  "init demo_state 0
     = Inr (demo_loaded\<lparr>page_dirty_mask := (replicate PAGE_DIRTY_MASK_SIZE 0)[0 := 1, 1 := 1]\<rparr>)"
  using init_valid_image [OF demo_load demo_find_file demo_validate, of 0] by simp

text \<open>C7 as stated fails: the example image round-trips unchanged (the mirror after \<open>init\<close>
  is the flash image and the application value is untouched), no write is scheduled, and
  yet the dirty flags of pages 0 and 1 are set.\<close>

theorem init_marks_pages_dirty_counterexample:
  "page_dirty_mask (projr (init demo_state 0)) ! 0 = 1
   \<and> page_dirty_mask (projr (init demo_state 0)) ! 1 = 1
   \<and> disk_buffer (projr (init demo_state 0)) = flash demo_state
   \<and> app (projr (init demo_state 0)) = app demo_state
   \<and> \<not> pending_flash_write (projr (init demo_state 0))"
proof -
  have "init demo_state 0
     = Inr (demo_loaded\<lparr>page_dirty_mask := (replicate PAGE_DIRTY_MASK_SIZE 0)[0 := 1, 1 := 1]\<rparr>)"
    by (simp add: init_def flush_file_def demo_load demo_find_file demo_validate)
  then show ?thesis
    by (simp add: demo_loaded_def demo_state_eq power_on_def)
qed

subsection \<open>The pointer \<^verbatim>\<open>find_file\<close> returns\<close>

lemma demo_init:
  "init demo_state 0
     = Inr (demo_loaded\<lparr>page_dirty_mask := (replicate PAGE_DIRTY_MASK_SIZE 0)[0 := 1, 1 := 1]\<rparr>)"
  by (simp add: init_def flush_file_def demo_load demo_find_file demo_validate)

lemma validate_file_source_outside:
  assumes "length (disk_buffer st) = DISK_BUFFER_SIZE" and "FILE_BUFFER_SIZE < p_file"
    and "any_label_checked (take FILE_ENTRY_CNT (entries st)) (disk_buffer st) p_file = Inr True"
  shows "validate_file st p_file root_addr = Inl Out_of_bounds"
  using assms by (simp add: validate_file_def render_lines_def select_source_def Let_def)

lemma disk_buffer_write_root_sector:
  "disk_buffer (write_root_sector st sd)
     = (if sd \<noteq> region (disk_buffer st) ROOT_SECTOR SECTOR_SIZE
        then memcpy_at (disk_buffer st) ROOT_SECTOR sd else disk_buffer st)"
  "entries (write_root_sector st sd) = entries st"
  by (simp_all add: write_root_sector_def Let_def)

lemma disk_buffer_write_data_sector:
  "disk_buffer (write_data_sector plat st s sd)
     = (if \<not> data_sector_rejected st s sd
           \<and> sd \<noteq> region (disk_buffer st) (FILE_SECTOR + (s - 64) * SECTOR_SIZE) SECTOR_SIZE
        then memcpy_at (disk_buffer st) (FILE_SECTOR + (s - 64) * SECTOR_SIZE) sd else disk_buffer st)"
  "entries (write_data_sector plat st s sd) = entries st"
  by (simp_all add: write_data_sector_def Let_def)

lemma well_sized_write_data_sector:
  "well_sized st \<Longrightarrow> length sd = SECTOR_SIZE \<Longrightarrow> (s - 64) * SECTOR_SIZE + SECTOR_SIZE \<le> FILE_SECTOR_SIZE
   \<Longrightarrow> well_sized (write_data_sector plat st s sd)"
  by (simp add: well_sized_def write_data_sector_def Let_def length_memcpy_at)

text \<open>The pointer is \<^verbatim>\<open>FILE_SECTOR + (c - 2) * 512\<close> for the 16-bit cluster \<open>c\<close> of the entry, and
  the 8192 bytes read from it lie inside \<^verbatim>\<open>disk_buffer\<close> exactly when \<open>c\<close> is at most 15.\<close>

lemma find_file_pointer_bound:
  assumes "find_file buf CONFIG_FILENAME = Some (p, len, n)"
  shows "p = 512 + 512 * le16 buf (ROOT_SECTOR + n * 32 + 0x1A)"
    and "p + FILE_BUFFER_SIZE \<le> DISK_BUFFER_SIZE \<longleftrightarrow> le16 buf (ROOT_SECTOR + n * 32 + 0x1A) \<le> 15"
  using assms unfolding find_file_Some by auto

lemma demo_get_config: "get_config_start_cluster demo_image = 2"
proof -
  have "dir_name demo_image 0 = CONFIG_FILENAME"
    by (simp add: dir_name_def region_def demo_image_def config_dir_sector_def CONFIG_FILENAME_def)
  moreover have "Upper CONFIG_FILENAME = CONFIG_FILENAME"
    by (simp add: Upper_def CONFIG_FILENAME_def)
  moreover have "word16_at demo_image 1050 = 2"
    by (simp add: word16_at_def demo_image_dir)
  ultimately show ?thesis
    by (simp add: get_config_start_cluster_def upt16)
qed

lemma moved_file_sector_facts:
  "length moved_file_sector = SECTOR_SIZE"
  "moved_file_sector ! 0 = 0x41" "moved_file_sector ! 1 = 0x3D"
  by (simp_all add: moved_file_sector_def)

lemma demo_image_8704: "demo_image ! 8704 = 0"
  by (simp add: demo_image_def nth_append)

lemma well_sized_demo_started:
  "well_sized (demo_loaded\<lparr>page_dirty_mask := (replicate PAGE_DIRTY_MASK_SIZE 0)[0 := 1, 1 := 1]\<rparr>)"
  by (simp add: well_sized_def demo_loaded_def demo_state_eq power_on_def demo_image_length)

lemma moved_file_buffer:
  "disk_buffer moved_file_state
     = memcpy_at (memcpy_at demo_image 8704 moved_file_sector) ROOT_SECTOR (config_dir_sector 16 4 0)"
  "entries moved_file_state = demo_entry # replicate 7 empty_entry"
  "pending_flash_write moved_file_state" "last_write_tick moved_file_state = 0"
proof -
  define s0 where "s0 = demo_loaded\<lparr>page_dirty_mask := (replicate PAGE_DIRTY_MASK_SIZE 0)[0 := 1, 1 := 1]\<rparr>"
  define t0 where "t0 = s0\<lparr>disk_buffer_temp := moved_file_sector @ drop SECTOR_SIZE (disk_buffer_temp s0)\<rparr>"
  define s1 where "s1 = (write_data_sector STM32F103xB t0 78 moved_file_sector)
                          \<lparr>pending_flash_write := True, last_write_tick := 0\<rparr>"
  define t1 where "t1 = s1\<lparr>disk_buffer_temp := config_dir_sector 16 4 0 @ drop SECTOR_SIZE (disk_buffer_temp s1)\<rparr>"
  define s2 where "s2 = (write_root_sector t1 (config_dir_sector 16 4 0))
                          \<lparr>pending_flash_write := True, last_write_tick := 0\<rparr>"
  have ws0: "well_sized s0" unfolding s0_def by (rule well_sized_demo_started)
  have w1: "write_sector STM32F103xB s0 moved_file_sector 78 1 0 = Inr s1"
    unfolding s1_def t0_def
    by (rule write_data_single [OF ws0]) (simp_all add: moved_file_sector_facts)
  have b0: "disk_buffer t0 = demo_image" "entries t0 = demo_entry # replicate 7 empty_entry"
    by (simp_all add: t0_def s0_def demo_loaded_def demo_state_eq)
  have nr: "\<not> data_sector_rejected t0 78 moved_file_sector"
    by (simp add: data_sector_rejected_iff b0 demo_get_config is_dot_file_def moved_file_sector_facts)
  have "region demo_image 8704 SECTOR_SIZE ! 0 = 0"
    by (simp add: nth_region demo_image_length demo_image_8704)
  then have ne: "moved_file_sector \<noteq> region demo_image 8704 SECTOR_SIZE"
    using moved_file_sector_facts(2) by auto
  have b1: "disk_buffer s1 = memcpy_at demo_image 8704 moved_file_sector"
    "entries s1 = demo_entry # replicate 7 empty_entry"
    using nr ne by (simp_all add: s1_def disk_buffer_write_data_sector b0)
  have wt0: "well_sized t0" using ws0 by (simp add: t0_def well_sized_def moved_file_sector_facts)
  have ws1: "well_sized s1"
    using well_sized_write_data_sector [OF wt0 moved_file_sector_facts(1), of 78 STM32F103xB]
    by (simp add: s1_def well_sized_def)
  have w2: "write_sector STM32F103xB s1 (config_dir_sector 16 4 0) 32 1 0 = Inr s2"
    unfolding s2_def t1_def
    by (rule write_root_single [OF ws1]) (simp add: config_dir_sector_facts)
  have "region (memcpy_at demo_image 8704 moved_file_sector) ROOT_SECTOR SECTOR_SIZE ! 26 = 2"
    by (simp add: nth_region length_memcpy_at nth_memcpy_at moved_file_sector_facts demo_image_length
        demo_image_dir)
  moreover have "config_dir_sector 16 4 0 ! 26 = 16"
    by (simp add: config_dir_sector_def CONFIG_FILENAME_def nth_append)
  ultimately have ne2: "config_dir_sector 16 4 0 \<noteq> region (disk_buffer t1) ROOT_SECTOR SECTOR_SIZE"
    by (auto simp: t1_def b1)
  have m: "moved_file_state = s2"
    unfolding moved_file_state_def demo_init s0_def [symmetric] sum.sel w1 w2 ..
  show "disk_buffer moved_file_state
     = memcpy_at (memcpy_at demo_image 8704 moved_file_sector) ROOT_SECTOR (config_dir_sector 16 4 0)"
    unfolding m using ne2 by (simp add: s2_def disk_buffer_write_root_sector) (simp add: t1_def b1)
  show "entries moved_file_state = demo_entry # replicate 7 empty_entry"
    unfolding m by (simp add: s2_def disk_buffer_write_root_sector) (simp add: t1_def b1)
  show "pending_flash_write moved_file_state" "last_write_tick moved_file_state = 0"
    unfolding m by (simp_all add: s2_def)
qed

lemma moved_file_nth:
  "length (disk_buffer moved_file_state) = DISK_BUFFER_SIZE"
  "disk_buffer moved_file_state ! 8704 = 0x41"
  "disk_buffer moved_file_state ! 8705 = 0x3D"
  "disk_buffer moved_file_state ! 1050 = 16"
  "disk_buffer moved_file_state ! 1051 = 0"
  "disk_buffer moved_file_state ! 1052 = 4"
  "disk_buffer moved_file_state ! 1053 = 0"
  "region (disk_buffer moved_file_state) ROOT_SECTOR 11 = CONFIG_FILENAME"
proof -
  have l: "length (memcpy_at demo_image 8704 moved_file_sector) = DISK_BUFFER_SIZE"
    by (simp add: length_memcpy_at moved_file_sector_facts demo_image_length)
  show "length (disk_buffer moved_file_state) = DISK_BUFFER_SIZE"
    by (simp add: moved_file_buffer length_memcpy_at l config_dir_sector_facts)
  show "disk_buffer moved_file_state ! 8704 = 0x41" "disk_buffer moved_file_state ! 8705 = 0x3D"
    using moved_file_sector_facts(3)
    by (simp_all add: moved_file_buffer nth_memcpy_at l config_dir_sector_facts
        moved_file_sector_facts demo_image_length)
  show "disk_buffer moved_file_state ! 1050 = 16" "disk_buffer moved_file_state ! 1051 = 0"
    "disk_buffer moved_file_state ! 1052 = 4" "disk_buffer moved_file_state ! 1053 = 0"
    by (simp_all add: moved_file_buffer nth_memcpy_at l config_dir_sector_facts)
       (simp_all add: config_dir_sector_def CONFIG_FILENAME_def nth_append)
  show "region (disk_buffer moved_file_state) ROOT_SECTOR 11 = CONFIG_FILENAME"
    using region_memcpy_at_inside [of ROOT_SECTOR "config_dir_sector 16 4 0"
        "memcpy_at demo_image 8704 moved_file_sector" 0 11]
    by (simp add: moved_file_buffer l config_dir_sector_facts)
qed

lemma moved_file_find:
  "find_file (disk_buffer moved_file_state) CONFIG_FILENAME = Some (8704, 4, 0)"
proof -
  have "dir_name (disk_buffer moved_file_state) 0 = CONFIG_FILENAME"
    by (simp add: dir_name_def moved_file_nth)
  moreover have "Upper CONFIG_FILENAME = CONFIG_FILENAME"
    by (simp add: Upper_def CONFIG_FILENAME_def)
  moreover have "word16_at (disk_buffer moved_file_state) 1052 = 4"
    "le16 (disk_buffer moved_file_state) 1050 = 16"
    by (simp_all add: word16_at_def le16_def moved_file_nth)
  ultimately show ?thesis
    by (simp add: find_file_Some)
qed

lemma moved_file_label:
  "any_label_checked (take FILE_ENTRY_CNT (entries moved_file_state)) (disk_buffer moved_file_state) 8704
     = Inr True"
proof -
  have "region (disk_buffer moved_file_state) 8704 1 = [0x41]"
    by (rule nth_equalityI) (simp_all add: nth_region moved_file_nth region_def)
  then show ?thesis
    by (simp add: moved_file_buffer(2) label_at_checked_def demo_entry_def moved_file_nth)
qed

text \<open>
  C10 fails on this input. After start-up over the example image the host writes
  \<^verbatim>\<open>A=2\<close> into sector 78 (cluster 16, accepted by the gatekeeper) and a root directory
  whose CONFIG.TXT entry starts at cluster 16. \<open>find_file\<close> then returns the offset 8704
  and \<open>validate_file\<close> selects it as \<^verbatim>\<open>read_source\<close>, since a registered label stands
  there; the 8192 bytes copied from offset 8704 end 512 bytes past the 16384 bytes of
  \<^verbatim>\<open>disk_buffer\<close>, so the commit that \<open>process\<close> runs reads outside the array.
\<close>

theorem find_file_pointer_failing_input:
  "find_file (disk_buffer moved_file_state) CONFIG_FILENAME = Some (8704, 4, 0)
   \<and> length (disk_buffer moved_file_state) = DISK_BUFFER_SIZE
   \<and> DISK_BUFFER_SIZE < 8704 + FILE_BUFFER_SIZE
   \<and> select_source moved_file_state 8704 = Inr (8704, disk_buffer moved_file_state)
   \<and> validate_file moved_file_state 8704 0 = Inl Out_of_bounds
   \<and> process STM32F103xB hal_ok moved_file_state 500 = Inl Out_of_bounds"
proof -
  have v: "validate_file moved_file_state 8704 0 = Inl Out_of_bounds"
    by (rule validate_file_source_outside) (simp_all add: moved_file_nth moved_file_label)
  have s: "select_source moved_file_state 8704 = Inr (8704, disk_buffer moved_file_state)"
    by (simp add: select_source_def Let_def moved_file_label)
  have p: "process STM32F103xB hal_ok moved_file_state 500 = Inl Out_of_bounds"
    by (simp add: process_def moved_file_buffer moved_file_find [simplified moved_file_buffer] v)
  show ?thesis using moved_file_find moved_file_nth(1) v s p by simp
qed

subsection \<open>What \<^verbatim>\<open>validate_file\<close> leaves in the mirror\<close>

lemma unat_low_byte: "unat (ucast (w AND 0xFF) :: u8) = unat (w :: u32) mod 256"
proof -
  have "ucast (w AND 0xFF) = (ucast w :: u8)"
    unfolding m8 by (rule bit_word_eqI) (auto simp: bit_simps)
  then show ?thesis by (simp add: unsigned_ucast_eq take_bit_eq_mod)
qed

lemma unat_drop: "unat (drop_bit n (w :: u32)) = unat w div 2 ^ n"
  unfolding unat_drop_bit_eq by (simp add: drop_bit_eq_div)

lemma unat_drops:
  "unat (drop_bit 8 (w :: u32)) = unat w div 256"
  "unat (drop_bit 16 w) = unat w div 65536"
  "unat (drop_bit 24 w) = unat w div 16777216"
  unfolding unat_drop_bit_eq by (simp_all add: drop_bit_eq_div)

lemma bytes_sum:
  assumes "(a::nat) < 4294967296"
  shows "a mod 256 + 256 * (a div 256 mod 256) + 65536 * (a div 65536 mod 256)
     + 16777216 * (a div 16777216 mod 256) = a"
proof -
  define b c d where "b = a div 256" and "c = b div 256" and "d = c div 256"
  have c: "a div 65536 = c" and d: "a div 16777216 = d"
    by (simp_all add: b_def c_def d_def div_mult2_eq)
  have "d < 256" using assms unfolding d [symmetric] by simp
  then have dm: "d mod 256 = d" by simp
  have 1: "a = a mod 256 + 256 * b" by (simp add: b_def)
  have 2: "b = b mod 256 + 256 * c" by (simp add: c_def)
  have 3: "c = c mod 256 + 256 * d" by (simp add: d_def)
  show ?thesis unfolding c d dm b_def [symmetric] using 1 2 3 by linarith
qed

lemma le32_set_dir_bytes:
  fixes m :: u32
  shows "unat (ucast (m AND 0xFF) :: u8) + 256 * unat (ucast (drop_bit 8 m AND 0xFF) :: u8)
     + 65536 * unat (ucast (drop_bit 16 m AND 0xFF) :: u8)
     + 16777216 * unat (ucast (drop_bit 24 m AND 0xFF) :: u8) = unat m"
proof -
  have "unat m < 4294967296" using unsigned_less [of m] by simp
  show ?thesis unfolding unat_low_byte unat_drops
    by (rule bytes_sum) fact
qed


lemma rebuild_file_length:
  "length content < FILE_CHAR_CNT - 1 \<Longrightarrow> length (rebuild_file es rows k content) < FILE_CHAR_CNT - 1"
  by (induction es arbitrary: k content) simp_all

lemma select_source_length:
  assumes "select_source st p_file = Inr (read_source, buf1)"
    and "length (disk_buffer st) = DISK_BUFFER_SIZE"
  shows "length buf1 = DISK_BUFFER_SIZE"
proof -
  have "length (memcpy_at (disk_buffer st) FILE_SECTOR (region (flash st) FILE_SECTOR FILE_SECTOR_SIZE))
          = DISK_BUFFER_SIZE"
    using assms(2) by (simp add: memcpy_at_def region_def)
  then show ?thesis
    using assms by (auto simp: select_source_def Let_def split: sum.splits if_splits)
qed

lemma render_lines_length:
  assumes "render_lines st p_file = Inr (buf1, rows, a, illegal)"
    and "length (disk_buffer st) = DISK_BUFFER_SIZE"
  shows "length buf1 = DISK_BUFFER_SIZE"
  using assms select_source_length [of st p_file]
  by (auto simp: render_lines_def split: sum.splits prod.splits if_splits)

lemma set_dir_entry_facts:
  assumes "d + 0x1F < length buf"
  shows "length (set_dir_entry buf d m) = length buf"
    and "set_dir_entry buf d m ! (d + 0x1A) = 2"
    and "set_dir_entry buf d m ! (d + 0x1B) = 0"
    and "le32 (set_dir_entry buf d m) (d + 0x1C) = unat m"
proof -
  show "length (set_dir_entry buf d m) = length buf" by (simp add: set_dir_entry_def)
  show "set_dir_entry buf d m ! (d + 0x1A) = 2" "set_dir_entry buf d m ! (d + 0x1B) = 0"
    using assms by (simp_all add: set_dir_entry_def)
  have "le32 (set_dir_entry buf d m) (d + 0x1C)
     = unat (ucast (m AND 0xFF) :: u8) + 256 * unat (ucast (drop_bit 8 m AND 0xFF) :: u8)
       + 65536 * unat (ucast (drop_bit 16 m AND 0xFF) :: u8)
       + 16777216 * unat (ucast (drop_bit 24 m AND 0xFF) :: u8)"
  proof -
    have "set_dir_entry buf d m ! (d + 0x1C) = ucast (m AND 0xFF)"
      "set_dir_entry buf d m ! (d + 0x1C + 1) = ucast (drop_bit 8 m AND 0xFF)"
      "set_dir_entry buf d m ! (d + 0x1C + 2) = ucast (drop_bit 16 m AND 0xFF)"
      "set_dir_entry buf d m ! (d + 0x1C + 3) = ucast (drop_bit 24 m AND 0xFF)"
      using assms by (simp_all add: set_dir_entry_def nth_list_update)
    then show ?thesis unfolding le32_def by (simp only:)
  qed
  then show "le32 (set_dir_entry buf d m) (d + 0x1C) = unat m"
    by (simp only: le32_set_dir_bytes)
qed

lemma unat_of_nat_u32: "m < 8191 \<Longrightarrow> unat (of_nat m :: u32) = m"
  by (simp add: unat_of_nat take_bit_nat_eq_self)

lemma file_region_written:
  assumes "length buf = DISK_BUFFER_SIZE" and "length content < FILE_SECTOR_SIZE"
  shows "region (memset_at (memcpy_at buf FILE_SECTOR content) (FILE_SECTOR + length content) 0
                    (FILE_SECTOR_SIZE - length content)) FILE_SECTOR FILE_SECTOR_SIZE
           = content @ replicate (FILE_SECTOR_SIZE - length content) 0"
    and "\<And>j. j < FILE_SECTOR \<Longrightarrow>
           memset_at (memcpy_at buf FILE_SECTOR content) (FILE_SECTOR + length content) 0
                    (FILE_SECTOR_SIZE - length content) ! j = buf ! j"
    and "length (memset_at (memcpy_at buf FILE_SECTOR content) (FILE_SECTOR + length content) 0
                    (FILE_SECTOR_SIZE - length content)) = DISK_BUFFER_SIZE"
  using assms by (simp_all add: region_def memset_at_def memcpy_at_def nth_append)

text \<open>
  C2. A run of \<open>validate_file\<close> on a directory index below 16 that gets through its
  reading steps (\<open>render_lines\<close> returns the rendered rows) returns, and in the mirror it
  leaves the directory entry has the starting cluster 2 (low byte 2, high byte 0), its
  32-bit little-endian size field is the length \<open>m\<close> of the content rebuilt from the
  registry, and the file region holds that content from offset 0 followed by zeros up
  to \<^verbatim>\<open>FILE_SECTOR_SIZE\<close>.
\<close>

theorem validate_file_normalises:
  assumes "render_lines st p_file = Inr (buf1, rows, a, illegal)"
    and "root_addr < 16" and "length (disk_buffer st) = DISK_BUFFER_SIZE"
  shows "\<exists>st'. validate_file st p_file root_addr = Inr (st', illegal)
     \<and> disk_buffer st' ! (ROOT_SECTOR + root_addr * 32 + 0x1A) = 2
     \<and> disk_buffer st' ! (ROOT_SECTOR + root_addr * 32 + 0x1B) = 0
     \<and> le32 (disk_buffer st') (ROOT_SECTOR + root_addr * 32 + 0x1C)
         = length (rebuild_file (take FILE_ENTRY_CNT (entries st)) rows 0 [])
     \<and> region (disk_buffer st') FILE_SECTOR FILE_SECTOR_SIZE
         = rebuild_file (take FILE_ENTRY_CNT (entries st)) rows 0 []
           @ replicate (FILE_SECTOR_SIZE - length (rebuild_file (take FILE_ENTRY_CNT (entries st)) rows 0 [])) 0"
proof -
  define content where "content = rebuild_file (take FILE_ENTRY_CNT (entries st)) rows 0 []"
  define d where "d = ROOT_SECTOR + root_addr * 32"
  define buf2 where "buf2 = set_dir_entry buf1 d (of_nat (length content))"
  have l1: "length buf1 = DISK_BUFFER_SIZE"
    using assms(1,3) by (rule render_lines_length)
  have m: "length content < 8191"
    unfolding content_def using rebuild_file_length [of "[]"] by simp
  have um: "unat (of_nat (length content) :: u32) = length content"
    using m by (rule unat_of_nat_u32)
  have d: "d + 0x1F < length buf1" "1024 \<le> d" "d + 0x1F < 1536"
    using assms(2) by (simp_all add: d_def l1)
  note sd = set_dir_entry_facts [OF d(1), of "of_nat (length content)", folded buf2_def]
  have "clusters_for (of_nat (length content)) \<le> 339"
    using m by (subst clusters_for_small) (simp_all add: um)
  with update_fat_chain_by_clusters [of buf2 "of_nat (length content)"]
  obtain buf3 where u: "update_fat_chain (of_nat (length content)) buf2 = Inr buf3"
    and l3: "length buf3 = length buf2" and dr: "drop 1024 buf3 = drop 1024 buf2"
    using sd(1) l1 by auto
  have keep: "buf3 ! j = buf2 ! j" if "1024 \<le> j" "j < DISK_BUFFER_SIZE" for j
  proof -
    have "drop 1024 buf3 ! (j - 1024) = drop 1024 buf2 ! (j - 1024)" by (simp only: dr)
    then show ?thesis using that l3 sd(1) l1 by simp
  qed
  define buf5 where "buf5 = memset_at (memcpy_at buf3 FILE_SECTOR content) (FILE_SECTOR + length content) 0
                    (FILE_SECTOR_SIZE - length content)"
  have l3': "length buf3 = DISK_BUFFER_SIZE" using l3 sd(1) l1 by simp
  have m': "length content < FILE_SECTOR_SIZE" using m by simp
  note fr = file_region_written [OF l3' m', folded buf5_def]
  have v: "validate_file st p_file root_addr
     = Inr (st\<lparr>disk_buffer := buf5, page_dirty_mask := (page_dirty_mask st)[0 := 1, 1 := 1],
               app := a\<rparr>, illegal)"
    using assms(1) d(1) u m'
    by (simp add: validate_file_def Let_def content_def [symmetric] d_def [symmetric]
        buf2_def [symmetric] buf5_def [symmetric] del: rebuild_file.simps)
  have r: "buf5 ! j = buf2 ! j" if "1024 \<le> j" "j < 1536" for j
    using fr(2) [of j] keep [of j] that by simp
  have a1: "buf5 ! (d + 0x1A) = 2" using r [of "d + 0x1A"] d sd(2) by simp
  have a2: "buf5 ! (d + 0x1B) = 0" using r [of "d + 0x1B"] d sd(3) by simp
  have "le32 buf5 (d + 0x1C) = le32 buf2 (d + 0x1C)"
    unfolding le32_def
    using r [of "d + 0x1C"] r [of "d + 0x1C + 1"] r [of "d + 0x1C + 2"] r [of "d + 0x1C + 3"] d
    by simp
  then have a3: "le32 buf5 (d + 0x1C) = length content" using sd(4) um by simp
  show ?thesis
    unfolding content_def [symmetric] d_def [symmetric]
    using v a1 a2 a3 fr(1) by simp
qed

text \<open>The run over the example image: cluster 2, size 8, the line and 14840 zeros.\<close>

theorem validate_file_normalises_witness:
  "validate_file demo_loaded FILE_SECTOR 0
      = Inr (demo_loaded\<lparr>page_dirty_mask := (replicate PAGE_DIRTY_MASK_SIZE 0)[0 := 1, 1 := 1]\<rparr>, False)
   \<and> disk_buffer demo_loaded ! (ROOT_SECTOR + 0 * 32 + 0x1A) = 2
   \<and> disk_buffer demo_loaded ! (ROOT_SECTOR + 0 * 32 + 0x1B) = 0
   \<and> le32 (disk_buffer demo_loaded) (ROOT_SECTOR + 0 * 32 + 0x1C) = length demo_content
   \<and> length demo_content = 8
   \<and> region (disk_buffer demo_loaded) FILE_SECTOR FILE_SECTOR_SIZE = demo_content @ replicate 14840 0"
proof -
  have r: "rebuild_file (take FILE_ENTRY_CNT (entries demo_loaded)) ([0x41, 0x3D, 0x31] # replicate 7 []) 0 []
      = demo_content"
    unfolding demo_entries by (rule demo_rebuild)
  have l: "length (disk_buffer demo_loaded) = DISK_BUFFER_SIZE"
    by (simp add: demo_loaded_def demo_image_length)
  from validate_file_normalises [OF demo_render _ l, of 0]
  obtain st' where v: "validate_file demo_loaded FILE_SECTOR 0 = Inr (st', False)"
    and p: "disk_buffer st' ! (ROOT_SECTOR + 0 * 32 + 0x1A) = 2"
      "disk_buffer st' ! (ROOT_SECTOR + 0 * 32 + 0x1B) = 0"
      "le32 (disk_buffer st') (ROOT_SECTOR + 0 * 32 + 0x1C) = length demo_content"
      "region (disk_buffer st') FILE_SECTOR FILE_SECTOR_SIZE
         = demo_content @ replicate (FILE_SECTOR_SIZE - length demo_content) 0"
    unfolding r by auto
  have s: "st' = demo_loaded\<lparr>page_dirty_mask := (replicate PAGE_DIRTY_MASK_SIZE 0)[0 := 1, 1 := 1]\<rparr>"
    using v unfolding demo_validate by simp
  show ?thesis using v p unfolding s by simp
qed

subsection \<open>Writing back what was read\<close>










lemma erased_flash_no_file: "find_file erased_flash CONFIG_FILENAME = None"
proof -
  have "Upper (dir_name erased_flash n) \<noteq> CONFIG_FILENAME" if "n < 16" for n
  proof -
    have "dir_name erased_flash n = replicate 11 0xFF"
      using that by (simp add: dir_name_def erased_flash_def region_replicate)
    then show ?thesis
      by (simp add: Upper_def CONFIG_FILENAME_def replicate_neq_Cons)
  qed
  then show ?thesis unfolding find_file_None by blast
qed

lemma write_defaults_skip_empty:
  "\<forall>e \<in> set es. entry e = [] \<Longrightarrow> write_defaults es m buf = Inr (m, buf)"
  by (induction es) simp_all

lemma boot_dir_nth:
  "length boot_dir = DISK_BUFFER_SIZE"
  "j < 11 \<Longrightarrow> boot_dir ! (1024 + j) = CONFIG_FILENAME ! j"
  "boot_dir ! 1050 = 2" "boot_dir ! 1051 = 0"
  "boot_dir ! 1052 = 0" "boot_dir ! 1053 = 0"
proof -
  have l: "length CONFIG_FILENAME = 11" "length fat_data = 6" "length (word32_bytes w) = 4" for w
    by (simp_all add: CONFIG_FILENAME_def fat_data_def word32_bytes_def)
  show "length boot_dir = DISK_BUFFER_SIZE"
    by (simp add: boot_dir_def length_memcpy_at l)
  show "boot_dir ! (1024 + j) = CONFIG_FILENAME ! j" if "j < 11"
    using that by (simp add: boot_dir_def nth_memcpy_at length_memcpy_at l nth_list_update nth_append)
  show "boot_dir ! 1050 = 2" "boot_dir ! 1051 = 0" "boot_dir ! 1052 = 0" "boot_dir ! 1053 = 0"
    by (simp_all add: boot_dir_def nth_memcpy_at length_memcpy_at l nth_list_update)
       (simp_all add: word32_bytes_def)
qed

lemma boot_dir_name: "region boot_dir ROOT_SECTOR 11 = CONFIG_FILENAME"
proof -
  have "region boot_dir ROOT_SECTOR 11 = region CONFIG_FILENAME 0 11"
    by (rule region_eqI) (simp_all add: boot_dir_nth CONFIG_FILENAME_def)
  then show ?thesis by (simp add: region_def CONFIG_FILENAME_def)
qed

lemma boot_mirror_facts:
  "update_fat_chain 0 boot_dir = Inr boot_mirror"
  "length boot_mirror = DISK_BUFFER_SIZE"
  "1024 \<le> j \<Longrightarrow> j < DISK_BUFFER_SIZE \<Longrightarrow> boot_mirror ! j = boot_dir ! j"
proof -
  have "clusters_for 0 \<le> 339" by (simp add: clusters_for_def)
  with update_fat_chain_by_clusters [of boot_dir 0]
  obtain buf' where u: "update_fat_chain 0 boot_dir = Inr buf'"
    and l: "length buf' = length boot_dir" and d: "drop 1024 buf' = drop 1024 boot_dir"
    by (auto simp: boot_dir_nth(1))
  have m: "boot_mirror = buf'" by (simp add: boot_mirror_def u)
  show "update_fat_chain 0 boot_dir = Inr boot_mirror" unfolding m by (rule u)
  show "length boot_mirror = DISK_BUFFER_SIZE" unfolding m using l by (simp add: boot_dir_nth(1))
  show "boot_mirror ! j = boot_dir ! j" if "1024 \<le> j" "j < DISK_BUFFER_SIZE"
  proof -
    have "drop 1024 buf' ! (j - 1024) = drop 1024 boot_dir ! (j - 1024)" by (simp only: d)
    then show ?thesis unfolding m using that l by (simp add: boot_dir_nth(1))
  qed
qed

lemma init_idle:
  "init idle_state 0
     = Inr (idle_state\<lparr>disk_buffer := boot_mirror, pending_flash_write := True,
              last_write_tick := 0, page_dirty_mask := replicate PAGE_DIRTY_MASK_SIZE 1\<rparr>)"
proof -
  have l: "load_from_flash idle_state
     = Inr (idle_state\<lparr>disk_buffer := erased_flash,
                         page_dirty_mask := replicate PAGE_DIRTY_MASK_SIZE 0\<rparr>)"
    by (simp add: load_from_flash_def idle_state_def power_on_def erased_flash_def region_def)
  have e: "take FILE_ENTRY_CNT (entries idle_state) = replicate 8 empty_entry"
    by (simp add: idle_state_def power_on_def)
  have w: "write_defaults (replicate 8 empty_entry) 0 buf = Inr (0, buf)" for buf
    by (rule write_defaults_skip_empty) (simp add: empty_entry_def)
  show ?thesis
    unfolding init_def l
    by (simp add: flush_file_def erased_flash_no_file e w Let_def boot_dir_def [symmetric]
        boot_mirror_facts(1))
qed

lemma boot_mirror_find: "find_file boot_mirror CONFIG_FILENAME = Some (FILE_SECTOR, 0, 0)"
proof -
  have "region boot_mirror ROOT_SECTOR 11 = region boot_dir ROOT_SECTOR 11"
    by (rule region_eqI) (simp_all add: boot_mirror_facts boot_dir_nth(1))
  then have "dir_name boot_mirror 0 = CONFIG_FILENAME"
    by (simp add: dir_name_def boot_dir_name)
  moreover have "Upper CONFIG_FILENAME = CONFIG_FILENAME"
    by (simp add: Upper_def CONFIG_FILENAME_def)
  moreover have "word16_at boot_mirror 1052 = 0" "le16 boot_mirror 1050 = 2"
    by (simp_all add: word16_at_def le16_def boot_mirror_facts boot_dir_nth)
  ultimately show ?thesis
    by (simp add: find_file_Some)
qed

lemma first_dirty_all:
  "first_dirty (replicate PAGE_DIRTY_MASK_SIZE 1) 16 = Some 0"
  "first_dirty ((replicate PAGE_DIRTY_MASK_SIZE 1)[0 := 0]) 16 = Some (Suc 0)"
  unfolding first_dirty_def by (simp_all add: find_upt_Some nth_list_update)

lemma bootstrapped_state_eq:
  "bootstrapped_state
     = idle_state\<lparr>disk_buffer := boot_mirror, pending_flash_write := False,
         last_write_tick := 0, page_dirty_mask := (replicate PAGE_DIRTY_MASK_SIZE 1)[0 := 0],
         flash := boot_flash\<rparr>"
proof -
  have "process STM32F103xB hal_ok
          (idle_state\<lparr>disk_buffer := boot_mirror, pending_flash_write := True,
              last_write_tick := 0, page_dirty_mask := replicate PAGE_DIRTY_MASK_SIZE 1\<rparr>) 500
     = Inr (idle_state\<lparr>disk_buffer := boot_mirror, pending_flash_write := False,
         last_write_tick := 0, page_dirty_mask := (replicate PAGE_DIRTY_MASK_SIZE 1)[0 := 0],
         flash := boot_flash\<rparr>)"
    by (simp add: process_def boot_mirror_find rewrite_dirty_flash_pages_def first_dirty_all
        boot_flash_def)
       (simp add: idle_state_def power_on_def)
  then show ?thesis
    unfolding bootstrapped_state_def init_idle sum.sel by simp
qed

lemma boot_flash_facts:
  "length boot_flash = DISK_BUFFER_SIZE" "boot_flash ! 1024 = 0xFF"
proof -
  show "length boot_flash = DISK_BUFFER_SIZE"
    unfolding boot_flash_def by (simp add: commit_length erased_flash_def)
  show "boot_flash ! 1024 = 0xFF"
    unfolding boot_flash_def by (subst commit_nth) (simp_all add: erased_flash_def)
qed



subsection \<open>What the deferred commit writes\<close>

lemma first_dirty_all_32: "first_dirty (replicate PAGE_DIRTY_MASK_SIZE 1) PAGE_DIRTY_MASK_SIZE = Some 0"
  unfolding first_dirty_def by (simp add: find_upt_Some)

text \<open>
  C9 fails on this input. \<open>init\<close> over an erased flash with nothing registered builds the
  bootstrap image, whose CONFIG.TXT entry has size 0, marks all 32 pages dirty and
  schedules a commit. When the commit fires 500 ms later on the F1, \<open>validate_file\<close> is
  skipped and the pending flag is cleared, as the claim says, but the loop of
  \<^verbatim>\<open>rewrite_dirty_flash_pages\<close> leaves after the first dirty page: page 0 is written, the
  flag of page 1 is still set, the flash still holds 0xFF at offset 1024 where the
  mirror holds the \<open>C\<close> of CONFIG.TXT, and the next tick does nothing, since nothing is
  pending. On the F4 the same commit writes the whole mirror and clears every flag.
\<close>

theorem commit_strands_dirty_pages_failing_input:
  "pending_flash_write (projr (init idle_state 0))
   \<and> FLASH_WRITE_DELAY_MS \<le> 500 - last_write_tick (projr (init idle_state 0))
   \<and> page_dirty_mask (projr (init idle_state 0)) = replicate PAGE_DIRTY_MASK_SIZE 1
   \<and> find_file (disk_buffer (projr (init idle_state 0))) CONFIG_FILENAME = Some (FILE_SECTOR, 0, 0)
   \<and> process STM32F103xB hal_ok (projr (init idle_state 0)) 500 = Inr bootstrapped_state
   \<and> disk_buffer bootstrapped_state = disk_buffer (projr (init idle_state 0))
   \<and> page_dirty_mask bootstrapped_state = (replicate PAGE_DIRTY_MASK_SIZE 1)[0 := 0]
   \<and> page_dirty_mask bootstrapped_state ! 1 = 1
   \<and> disk_buffer bootstrapped_state ! 1024 = 0x43
   \<and> flash bootstrapped_state ! 1024 = 0xFF
   \<and> \<not> pending_flash_write bootstrapped_state
   \<and> process STM32F103xB hal_ok bootstrapped_state 1000 = Inr bootstrapped_state
   \<and> flash (projr (process STM32F411xE hal_ok (projr (init idle_state 0)) 500))
       = disk_buffer (projr (init idle_state 0))
   \<and> page_dirty_mask (projr (process STM32F411xE hal_ok (projr (init idle_state 0)) 500))
       = replicate PAGE_DIRTY_MASK_SIZE 0"
proof -
  define q0 where "q0 = idle_state\<lparr>disk_buffer := boot_mirror, pending_flash_write := True,
              last_write_tick := 0, page_dirty_mask := replicate PAGE_DIRTY_MASK_SIZE 1\<rparr>"
  have i: "projr (init idle_state 0) = q0"
    unfolding init_idle q0_def by simp
  have b: "disk_buffer q0 = boot_mirror" "pending_flash_write q0" "last_write_tick q0 = 0"
    "page_dirty_mask q0 = replicate PAGE_DIRTY_MASK_SIZE 1" "flash q0 = erased_flash"
    by (simp_all add: q0_def idle_state_def power_on_def)
  have p1: "process STM32F103xB hal_ok q0 500 = Inr bootstrapped_state"
    unfolding bootstrapped_state_eq
    by (simp add: process_def b boot_mirror_find rewrite_dirty_flash_pages_def first_dirty_all
        boot_flash_def)
       (simp add: q0_def idle_state_def power_on_def)
  have m: "disk_buffer bootstrapped_state ! 1024 = 0x43"
    using boot_dir_nth(2) [of 0] by (simp add: bootstrapped_state_eq boot_mirror_facts CONFIG_FILENAME_def)
  have p2: "process STM32F103xB hal_ok bootstrapped_state 1000 = Inr bootstrapped_state"
    by (simp add: process_def bootstrapped_state_eq)
  have c: "program_loop hal_ok boot_mirror 0 (length boot_mirror) 0
      (erase_flash_page hal_ok erased_flash 0 (length boot_mirror)) = boot_mirror"
    by (rule commit_ok_all) (simp_all add: boot_mirror_facts erased_flash_def hal_ok_def)
  have p4: "process STM32F411xE hal_ok q0 500
     = Inr (q0\<lparr>page_dirty_mask := replicate PAGE_DIRTY_MASK_SIZE 0, flash := boot_mirror,
              pending_flash_write := False\<rparr>)"
    using c
    by (simp add: process_def b boot_mirror_find rewrite_dirty_flash_pages_def first_dirty_all_32
        boot_mirror_facts)
  show ?thesis
    unfolding i p1 p2 p4 sum.sel using m
    by (simp add: b boot_mirror_find) (simp add: bootstrapped_state_eq boot_flash_facts)
qed

end
